theory Spec2Isabelle
  imports Main "HOL-Library.Word"
begin

text \<open>
  A shallow embedding of parts of the Tart compiler front end: the expression nodes and
  their singularity test, the scope classes, call analysis (overloads, constructors,
  argument-dependent lookup, result types), the union type test of the code generator,
  and the sweep of the collector. Code that the modelled functions call and whose body is
  not available is either modelled from the specification, and marked so, or passed in as
  a parameter.
\<close>


section \<open>The embedding\<close>

subsection \<open>Types, definitions and expression nodes\<close>

text \<open>
  Objects that the compiler allocates on its heap and refers to by address (scopes, call
  expressions, function definitions) are identified by natural numbers. A null pointer is
  \<open>None\<close>. Types and the other definitions are identified with their values.
\<close>

type_synonym ident = string
type_synonym scope_ptr = nat
type_synonym call_ptr = nat

datatype typeClass = Class | Struct | Interface | Protocol

text \<open>
  The type variants the semantic core distinguishes. A constraint type refers back to the
  call expression it stands for by that call's address.
\<close>

datatype ty =
    PrimitiveType string
  | CompositeType typeClass string "ty list"
  | FunctionTy functionType
  | BoundMethodType functionType
  | TupleType "ty list"
  | UnionType "ty list"
  | AddressType ty
  | PointerType ty
  | NativeArrayType ty nat
  | TypeLiteralType ty
  | PatternVar string
  | PatternValue string
  | ResultOfConstraint call_ptr
  | ParameterOfConstraint call_ptr nat
  | BadType
and functionType =
    FunctionType (params: "parameterDefn list") (selfParam: "parameterDefn option")
      (returnType: "ty option") (isStatic: bool)
and parameterDefn =
    ParameterDefn (param_name: string) (param_type: ty)

abbreviation VoidType :: ty where "VoidType \<equiv> PrimitiveType ''void''"
abbreviation BoolType :: ty where "BoolType \<equiv> PrimitiveType ''bool''"

text \<open>
  Modelled from the spec: \<open>Type::isSingular\<close> (its body is in the type classes, which are
  not among the sources). A type is singular when no pattern variable, pattern value or
  constraint is reachable from it.
\<close>

fun type_isSingular :: "ty \<Rightarrow> bool"
  and fnType_isSingular :: "functionType \<Rightarrow> bool"
  and param_isSingular :: "parameterDefn \<Rightarrow> bool" where
  "type_isSingular (PrimitiveType n) = True"
| "type_isSingular (CompositeType k n targs) = list_all type_isSingular targs"
| "type_isSingular (FunctionTy ft) = fnType_isSingular ft"
| "type_isSingular (BoundMethodType ft) = fnType_isSingular ft"
| "type_isSingular (TupleType ts) = list_all type_isSingular ts"
| "type_isSingular (UnionType ts) = list_all type_isSingular ts"
| "type_isSingular (AddressType t) = type_isSingular t"
| "type_isSingular (PointerType t) = type_isSingular t"
| "type_isSingular (NativeArrayType t n) = type_isSingular t"
| "type_isSingular (TypeLiteralType t) = type_isSingular t"
| "type_isSingular (PatternVar v) = False"
| "type_isSingular (PatternValue v) = False"
| "type_isSingular (ResultOfConstraint c) = False"
| "type_isSingular (ParameterOfConstraint c i) = False"
| "type_isSingular BadType = True"
| "fnType_isSingular (FunctionType ps self ret st) =
     (list_all param_isSingular ps \<and>
      (case self of None \<Rightarrow> True | Some p \<Rightarrow> param_isSingular p) \<and>
      (case ret of None \<Rightarrow> True | Some t \<Rightarrow> type_isSingular t))"
| "param_isSingular (ParameterDefn n t) = type_isSingular t"

datatype storageClass =
  Storage_Global | Storage_Static | Storage_Instance | Storage_Local | Storage_Closure

datatype defnType = Var | Let_defn

text \<open>
  Definitions, by the class the code tests with \<open>dyn_cast\<close>. Only the attributes read by
  the modelled functions are kept. \<open>isCtor\<close> is the trait \<open>Defn::Ctor\<close>. A function
  definition carries the address of its object, \<open>fn_addr\<close>: a set of \<open>FunctionDefn\<close>
  pointers tells two functions apart by it, whatever their names and types.
\<close>

record functionDefn =
  fn_addr :: nat
  fn_name :: ident
  storageClass :: storageClass
  isCtor :: bool
  fn_isTemplate :: bool
  fn_isTemplateMember :: bool
  functionType :: functionType

record variableDefn =
  var_name :: ident
  defnType :: defnType
  var_type :: ty

record typeDefn =
  type_name :: ident
  typeValue :: ty
  isTemplate :: bool
  isTemplateMember :: bool
  definingScope :: "scope_ptr option"

datatype defn =
    FunctionDefn functionDefn
  | VariableDefn variableDefn
  | TypeDefn typeDefn
  | NamespaceDefn ident


datatype exprType =
    Invalid | NoOp | Not_expr | RefEq | ElementRef | And | Or | Call | ExactCall | Construct
  | FnCall | CtorCall | VTableCall | TupleCtor | ArrayLiteral

text \<open>
  AST nodes are produced by the parser; call analysis only tells identifiers, member
  references, specialisations and keyword arguments from the rest and hands the nodes on.
\<close>

datatype astNode =
    ASTIdent ident
  | ASTMember astNode ident
  | ASTSpecialize astNode "astNode list"
  | ASTKeywordArg ident astNode
  | ASTLiteral string

text \<open>
  \<open>ParameterAssignments\<close>: for each argument, the index of the parameter slot it was
  mapped to.
\<close>

type_synonym parameterAssignments = "nat list"

text \<open>
  Expression nodes, one constructor per class of \<^verbatim>\<open>Expr.cpp\<close> that is used below. Every
  node carries its result type; a \<open>CallExpr\<close> is built with a null type, which is set
  once its candidates are known, so its type is optional. A \<open>CallExpr\<close> also carries
  the address it was allocated at, which constraint types and candidates refer to. A
  \<open>CallCandidate\<close> is what its constructor receives (the call, the base expression, the
  method or the function type, the parameter assignments) and its culled flag.
\<close>

datatype expr =
    ErrorExpr
  | UnaryExpr exprType ty expr
  | BinaryExpr exprType ty expr expr
  | ArglistExpr exprType ty "expr list"
  | LValueExpr ty "expr option" defn
  | ScopeNameExpr ty defn
  | InitVarExpr ty defn expr
  | BoundMethodExpr ty "expr option" defn
  | CallExpr callExpr
  | FnCallExpr exprType ty defn "expr list"
  | IndirectCallExpr exprType ty expr "expr list"
  | NewExpr ty
  | BinaryOpcodeExpr ty nat expr expr
  | InstanceOfExpr expr ty
and callExpr =
    CallNode (call_addr: call_ptr) (call_kind: exprType) (call_type: "ty option")
      (function_f: "expr option") (candidates: "callCandidate list") (args: "expr list")
      (expectedReturnType: "ty option")
and callCandidate =
    CallCandidate (cc_call: call_ptr) (cc_base: "expr option") (cc_method: "functionDefn option")
      (cc_functionType: functionType) (cc_paramAssignments: parameterAssignments)
      (isCulled: bool)

text \<open>\<open>Expr::type()\<close>. The error node is built with the \<open>BadType\<close> singleton
  (\<open>ErrorExpr::ErrorExpr\<close>); instance tests with \<open>BoolType\<close>.\<close>

fun expr_type :: "expr \<Rightarrow> ty option" where
  "expr_type ErrorExpr = Some BadType"
| "expr_type (UnaryExpr k t a) = Some t"
| "expr_type (BinaryExpr k t a b) = Some t"
| "expr_type (ArglistExpr k t as) = Some t"
| "expr_type (LValueExpr t b v) = Some t"
| "expr_type (ScopeNameExpr t v) = Some t"
| "expr_type (InitVarExpr t v e) = Some t"
| "expr_type (BoundMethodExpr t s m) = Some t"
| "expr_type (CallExpr c) = call_type c"
| "expr_type (FnCallExpr k t f as) = Some t"
| "expr_type (IndirectCallExpr k t f as) = Some t"
| "expr_type (NewExpr t) = Some t"
| "expr_type (BinaryOpcodeExpr t opc a b) = Some t"
| "expr_type (InstanceOfExpr v t) = Some BoolType"

text \<open>The static \<open>Expr::ErrorVal\<close>, an \<open>ErrorExpr\<close>.\<close>

definition ErrorVal :: expr where
  "ErrorVal = ErrorExpr"

text \<open>
  \<open>isErrorResult\<close> on a type compares with the \<open>BadType\<close> singleton; on an expression
  it asks the expression's type.
\<close>

definition isErrorResult :: "ty \<Rightarrow> bool" where
  "isErrorResult t \<longleftrightarrow> t = BadType"

definition isErrorResult_expr :: "expr \<Rightarrow> bool" where
  "isErrorResult_expr e \<longleftrightarrow> (case expr_type e of None \<Rightarrow> False | Some t \<Rightarrow> isErrorResult t)"

text \<open>Setters of \<open>CallExpr\<close>.\<close>

fun setType :: "callExpr \<Rightarrow> ty \<Rightarrow> callExpr" where
  "setType (CallNode a k t f cs as ex) t' = CallNode a k (Some t') f cs as ex"

fun setExpectedReturnType :: "callExpr \<Rightarrow> ty option \<Rightarrow> callExpr" where
  "setExpectedReturnType (CallNode a k t f cs as ex) ex' = CallNode a k t f cs as ex'"

fun push_candidate :: "callExpr \<Rightarrow> callCandidate \<Rightarrow> callExpr" where
  "push_candidate (CallNode a k t f cs as ex) cc = CallNode a k t f (cs @ [cc]) as ex"

fun push_arg :: "callExpr \<Rightarrow> expr \<Rightarrow> callExpr" where
  "push_arg (CallNode a k t f cs as ex) e = CallNode a k t f cs (as @ [e]) ex"

subsection \<open>What the modelled code calls and is not among the sources\<close>

datatype task =
    Task_PrepMemberLookup | Task_PrepTypeComparison | Task_PrepConstruction
  | Task_PrepConversion | Task_PrepCodeGeneration

text \<open>
  The functions below are called by the modelled code; their bodies are in files that are
  not among the sources, so they are parameters of the model. They are taken as functions
  of their arguments: what they change in the objects they analyse, and the diagnostics
  they may send themselves, are not recorded.

  \<^item> \<open>Defn_isSingular\<close>, \<open>CallCandidate_isSingular\<close>, \<open>CallCandidate_resultType\<close>,
    \<open>CallCandidate_paramType\<close>: the methods of these names.
  \<^item> \<open>analyzeValueDefn\<close>, \<open>analyzeDefn\<close>, \<open>analyzeType\<close>: the analysis passes; the result
    tells whether the pass succeeded.
  \<^item> \<open>assignFromAST\<close>: \<open>ParameterAssignmentsBuilder::assignFromAST\<close> for a function type
    and the AST arguments; \<open>None\<close> when the arguments cannot be mapped to the parameters.
  \<^item> \<open>reduceExpr\<close>, \<open>lookupName\<close>, \<open>getTypesFromExprs\<close>, \<open>lvalueBase\<close>: the methods
    of \<open>ExprAnalyzer\<close> of these names; \<open>getTypesFromExprs\<close> gives the type list when it
    returns true.
  \<^item> \<open>dealias\<close>, \<open>Type_typeDefn\<close>, \<open>Type_memberScope\<close>, \<open>asExpr\<close>: \<open>dealias(type)\<close>,
    \<open>Type::typeDefn()\<close>, \<open>Type::memberScope()\<close> and \<open>TypeDefn::asExpr()\<close>.
  \<^item> \<open>Scope_lookupMember\<close>: the definitions that the virtual call \<open>lookupMember(name,
    defs, inherit)\<close> on the scope at an address appends to \<open>defs\<close>.
  \<^item> \<open>lookupTemplateMember\<close>: the definitions that
    \<open>lookupTemplateMember(defs, tdef, name, loc)\<close> appends to \<open>defs\<close>.
\<close>

record externs =
  Defn_isSingular :: "defn \<Rightarrow> bool"
  CallCandidate_isSingular :: "callCandidate \<Rightarrow> bool"
  CallCandidate_resultType :: "callCandidate \<Rightarrow> ty"
  CallCandidate_paramType :: "callCandidate \<Rightarrow> nat \<Rightarrow> ty"
  analyzeValueDefn :: "defn \<Rightarrow> task \<Rightarrow> bool"
  analyzeDefn :: "defn \<Rightarrow> task \<Rightarrow> bool"
  analyzeType :: "ty \<Rightarrow> task \<Rightarrow> bool"
  assignFromAST :: "functionType \<Rightarrow> astNode list \<Rightarrow> parameterAssignments option"
  reduceExpr :: "astNode \<Rightarrow> ty \<Rightarrow> expr"
  lookupName :: "astNode \<Rightarrow> expr list"
  getTypesFromExprs :: "expr list \<Rightarrow> ty list option"
  lvalueBase :: "expr \<Rightarrow> expr option"
  dealias :: "ty \<Rightarrow> ty option"
  Type_typeDefn :: "ty \<Rightarrow> typeDefn option"
  Type_memberScope :: "ty \<Rightarrow> scope_ptr"
  asExpr :: "typeDefn \<Rightarrow> expr"
  Scope_lookupMember :: "scope_ptr \<Rightarrow> ident \<Rightarrow> bool \<Rightarrow> defn list"
  lookupTemplateMember :: "typeDefn \<Rightarrow> ident \<Rightarrow> defn list"


subsection \<open>Singularity of expression nodes (\<^verbatim>\<open>Expr.cpp\<close>)\<close>

text \<open>
  \<open>isSingular()\<close>, class by class, and the loop of \<open>ArglistExpr::isSingular\<close> over
  the arguments. \<open>CallExpr\<close> first asks \<open>ArglistExpr::isSingular\<close>, then looks at its
  candidates and, without candidates, at its function expression. In
  \<open>IndirectCallExpr\<close> the callee is an expression.

  Modelled from the spec: \<open>ErrorExpr::isSingular\<close> is defined in the header
  \<^verbatim>\<open>Expr.h\<close> (not among the sources); the error node has no children and its type is
  \<open>BadType\<close>.
\<close>

fun isSingular :: "externs \<Rightarrow> expr \<Rightarrow> bool"
  and ArglistExpr_isSingular :: "externs \<Rightarrow> expr list \<Rightarrow> bool" where
  "isSingular X ErrorExpr = type_isSingular BadType"
| "isSingular X (UnaryExpr k t a) = (type_isSingular t \<and> isSingular X a)"
| "isSingular X (BinaryExpr k t a b) = (type_isSingular t \<and> isSingular X a \<and> isSingular X b)"
| "isSingular X (ArglistExpr k t as) = ArglistExpr_isSingular X as"
| "isSingular X (LValueExpr t b v) =
     ((case b of None \<Rightarrow> True | Some b' \<Rightarrow> isSingular X b') \<and> Defn_isSingular X v)"
| "isSingular X (ScopeNameExpr t v) = True"
| "isSingular X (InitVarExpr t v e) = (isSingular X e \<and> Defn_isSingular X v)"
| "isSingular X (BoundMethodExpr t s m) =
     ((case s of None \<Rightarrow> True | Some s' \<Rightarrow> isSingular X s') \<and> Defn_isSingular X m)"
| "isSingular X (CallExpr (CallNode a k t f cs as ex)) =
     (if \<not> ArglistExpr_isSingular X as then False
      else case cs of
          c # rest \<Rightarrow> rest = [] \<and> CallCandidate_isSingular X c
        | [] \<Rightarrow> (case f of None \<Rightarrow> False | Some f' \<Rightarrow> isSingular X f'))"
| "isSingular X (FnCallExpr k t f as) = (Defn_isSingular X f \<and> ArglistExpr_isSingular X as)"
| "isSingular X (IndirectCallExpr k t f as) = (isSingular X f \<and> ArglistExpr_isSingular X as)"
| "isSingular X (NewExpr t) = type_isSingular t"
| "isSingular X (BinaryOpcodeExpr t opc a b) =
     (type_isSingular t \<and> isSingular X a \<and> isSingular X b)"
| "isSingular X (InstanceOfExpr v t) = (isSingular X v \<and> type_isSingular t)"
| "ArglistExpr_isSingular X [] = True"
| "ArglistExpr_isSingular X (a # as) =
     (if \<not> isSingular X a then False else ArglistExpr_isSingular X as)"

text \<open>
  The children of a node: the expressions it holds as operands, base or arguments, and the
  definitions it refers to (the value of an \<open>LValueExpr\<close>, the variable of an
  \<open>InitVarExpr\<close>, the method of a \<open>BoundMethodExpr\<close>, the function of a
  \<open>FnCallExpr\<close>).
\<close>

fun child_exprs :: "expr \<Rightarrow> expr list" where
  "child_exprs ErrorExpr = []"
| "child_exprs (UnaryExpr k t a) = [a]"
| "child_exprs (BinaryExpr k t a b) = [a, b]"
| "child_exprs (ArglistExpr k t as) = as"
| "child_exprs (LValueExpr t b v) = (case b of None \<Rightarrow> [] | Some b' \<Rightarrow> [b'])"
| "child_exprs (ScopeNameExpr t v) = []"
| "child_exprs (InitVarExpr t v e) = [e]"
| "child_exprs (BoundMethodExpr t s m) = (case s of None \<Rightarrow> [] | Some s' \<Rightarrow> [s'])"
| "child_exprs (CallExpr c) = args c"
| "child_exprs (FnCallExpr k t f as) = as"
| "child_exprs (IndirectCallExpr k t f as) = f # as"
| "child_exprs (NewExpr t) = []"
| "child_exprs (BinaryOpcodeExpr t opc a b) = [a, b]"
| "child_exprs (InstanceOfExpr v t) = [v]"

fun child_defns :: "expr \<Rightarrow> defn list" where
  "child_defns (LValueExpr t b v) = [v]"
| "child_defns (ScopeNameExpr t v) = [v]"
| "child_defns (InitVarExpr t v e) = [v]"
| "child_defns (BoundMethodExpr t s m) = [m]"
| "child_defns (FnCallExpr k t f as) = [f]"
| "child_defns e = []"

definition children_isSingular :: "externs \<Rightarrow> expr \<Rightarrow> bool" where
  "children_isSingular X e \<longleftrightarrow>
     list_all (isSingular X) (child_exprs e) \<and> list_all (Defn_isSingular X) (child_defns e)"

text \<open>
  The invariant in the words of the specification: a node is singular exactly when its own
  result type is singular and every child is singular.
\<close>

definition spec_isSingular :: "externs \<Rightarrow> expr \<Rightarrow> bool" where
  "spec_isSingular X e \<longleftrightarrow>
     (case expr_type e of None \<Rightarrow> False | Some t \<Rightarrow> type_isSingular t) \<and>
     children_isSingular X e"


subsection \<open>Scopes (\<^verbatim>\<open>Scope.h\<close>)\<close>

text \<open>
  Modelled from the spec: the ordered symbol table (\<open>OrderedSymbolTable\<close>, declared in
  \<^verbatim>\<open>SymbolTable.h\<close>, which is not among the sources). It maps a name to the sequence of
  entries declared under that name, in declaration order.
\<close>

type_synonym symbolTable = "(ident \<times> defn list) list"


definition findSymbol :: "symbolTable \<Rightarrow> ident \<Rightarrow> defn list option" where
  "findSymbol tab key = map_of tab key"

text \<open>
  The three scope classes of the header. \<open>IterableScope\<close> and \<open>LocalScope\<close> hold a
  symbol table and a parent pointer; \<open>DelegatingScope\<close> holds its two pointer members
  \<open>delegate\<close> and \<open>parent\<close>. Scope objects live in a store indexed by address, since
  several scopes may point to the same one.
\<close>

datatype scope =
    IterableScope (members: symbolTable) (parentScope_f: "scope_ptr option")
  | LocalScope (members: symbolTable) (parentScope_f: "scope_ptr option")
  | DelegatingScope (delegate: scope_ptr) (parent: "scope_ptr option")

type_synonym scope_store = "scope_ptr \<Rightarrow> scope"

text \<open>
  \<open>parentScope()\<close>: \<open>DelegatingScope\<close> returns its own \<open>parent\<close> member;
  \<open>IterableScope\<close> (inherited by \<open>LocalScope\<close>) returns \<open>parentScope_\<close>.
\<close>

definition parentScope :: "scope_store \<Rightarrow> scope_ptr \<Rightarrow> scope_ptr option" where
  "parentScope st this =
     (case st this of
        IterableScope m par \<Rightarrow> par
      | LocalScope m par \<Rightarrow> par
      | DelegatingScope d par \<Rightarrow> par)"

text \<open>
  The bodies of the virtual methods, class by class. \<open>Scope\<close> gives the defaults
  (\<open>allowOverloads\<close> false, \<open>getBaseExpr\<close> null); \<open>IterableScope\<close> overrides
  \<open>allowOverloads\<close> to true. \<open>LocalScope\<close> overrides only \<open>addMember\<close> and
  \<open>trace\<close>, so it inherits every other method from \<open>IterableScope\<close>.
\<close>

definition Scope_allowOverloads :: bool where
  "Scope_allowOverloads = False"

definition Scope_getBaseExpr :: "expr option" where
  "Scope_getBaseExpr = None"

definition IterableScope_allowOverloads :: bool where
  "IterableScope_allowOverloads = True"



definition IterableScope_lookupMember ::
  "symbolTable \<Rightarrow> ident \<Rightarrow> defn list \<Rightarrow> bool \<Rightarrow> bool \<times> defn list" where
  "IterableScope_lookupMember tab ident defs inherit =
     (case findSymbol tab ident of
        None \<Rightarrow> (False, defs)
      | Some entry \<Rightarrow> (True, defs @ entry))"

text \<open>
  Virtual dispatch on the object at an address. A \<open>DelegatingScope\<close> passes each call on
  to its delegate, which may be a delegating scope again; a chain of delegates that loops
  never answers, which is the value \<open>None\<close>.
\<close>

partial_function (option) allowOverloads :: "scope_store \<Rightarrow> scope_ptr \<Rightarrow> bool option" where
  "allowOverloads st this =
     (case st this of
        IterableScope m par \<Rightarrow> Some IterableScope_allowOverloads
      | LocalScope m par \<Rightarrow> Some IterableScope_allowOverloads
      | DelegatingScope d par \<Rightarrow> allowOverloads st d)"

partial_function (option) getBaseExpr :: "scope_store \<Rightarrow> scope_ptr \<Rightarrow> expr option option" where
  "getBaseExpr st this =
     (case st this of
        IterableScope m par \<Rightarrow> Some Scope_getBaseExpr
      | LocalScope m par \<Rightarrow> Some Scope_getBaseExpr
      | DelegatingScope d par \<Rightarrow> getBaseExpr st d)"


partial_function (option) lookupMember ::
  "scope_store \<Rightarrow> scope_ptr \<Rightarrow> ident \<Rightarrow> defn list \<Rightarrow> bool \<Rightarrow> (bool \<times> defn list) option" where
  "lookupMember st this ident defs inherit =
     (case st this of
        IterableScope m par \<Rightarrow> Some (IterableScope_lookupMember m ident defs inherit)
      | LocalScope m par \<Rightarrow> Some (IterableScope_lookupMember m ident defs inherit)
      | DelegatingScope dl par \<Rightarrow> lookupMember st dl ident defs inherit)"

text \<open>
  The constructor \<open>DelegatingScope(Scope * s, Scope * p)\<close>, run for a new object at
  address \<open>this\<close>. The member initialisers copy \<open>s\<close> and \<open>p\<close> into \<open>delegate\<close>
  and \<open>parent\<close>; the body then assigns \<open>s->parentScope()\<close> to the parameter \<open>p\<close>,
  a local variable that nothing reads afterwards.
\<close>

definition DelegatingScope_new ::
  "scope_store \<Rightarrow> scope_ptr \<Rightarrow> scope_ptr \<Rightarrow> scope_ptr option \<Rightarrow> scope_store" where
  "DelegatingScope_new st this s p =
     (let delegate_init = s;
          parent_init = p;
          p = parentScope st s
      in st(this := DelegatingScope delegate_init parent_init))"

definition setDelegate :: "scope_store \<Rightarrow> scope_ptr \<Rightarrow> scope_ptr \<Rightarrow> scope_store" where
  "setDelegate st this sc =
     (case st this of
        DelegatingScope dl par \<Rightarrow> st(this := DelegatingScope sc par)
      | _ \<Rightarrow> st)"

definition setParentScope :: "scope_store \<Rightarrow> scope_ptr \<Rightarrow> scope_ptr option \<Rightarrow> scope_store" where
  "setParentScope st this sc =
     (case st this of
        DelegatingScope dl par \<Rightarrow> st(this := DelegatingScope dl sc)
      | IterableScope m par \<Rightarrow> st(this := IterableScope m sc)
      | LocalScope m par \<Rightarrow> st(this := LocalScope m sc))"

text \<open>
  The constructor \<open>LocalScope(Scope * parent)\<close>, which asserts a non-null parent: the
  result is \<open>None\<close> when the assertion fails, and the store with the new scope at
  \<open>this\<close> otherwise.
\<close>

definition LocalScope_new :: "scope_store \<Rightarrow> scope_ptr \<Rightarrow> scope_ptr option \<Rightarrow> scope_store option" where
  "LocalScope_new st this par =
     (if par = None then None else Some (st(this := LocalScope [] par)))"


subsection \<open>The allocation list and the sweep (\<^verbatim>\<open>GC.cpp\<close>)\<close>

text \<open>
  Every collectable object starts with a \<open>GC\<close> header: its mark bit \<open>marked_\<close> and
  the link \<open>next_\<close> to the object allocated before it. The static \<open>allocList_\<close> points
  to the newest object. \<open>size_t\<close> counters are 64-bit words.
\<close>

type_synonym addr = nat
type_synonym size_t = "64 word"

record gc_object =
  marked :: bool
  gc_next :: "addr option"

text \<open>The one message \<open>sweep\<close> can send to the diagnostics sink: the numbers of objects
  reclaimed and in use.\<close>

datatype gc_diag = GCInfo size_t size_t

record gc_state =
  initialized :: bool
  objs :: "addr \<Rightarrow> gc_object"
  allocList :: "addr option"
  freed :: "addr list"
  destroyed :: "addr list"
  reclaimed :: size_t
  total :: size_t
  debugLevel :: int
  diag_info :: "gc_diag list"

text \<open>
  The loop variable \<open>GC ** ptr\<close> of \<open>sweep\<close> points either to \<open>allocList_\<close> or to the
  \<open>next_\<close> field of an object.
\<close>

datatype gc_ref = AllocListRef | NextRef addr

text \<open>
  \<open>GC::init\<close> and \<open>GC::operator new\<close>. Both assert the state of the flag
  \<open>initialized\<close>. The new object, at the address that \<open>malloc\<close> returned, is linked
  in front of the list.
\<close>

datatype gc_failure = GC_AssertionFailed

definition gc_init :: "gc_state \<Rightarrow> gc_failure + gc_state" where
  "gc_init s = (if initialized s then Inl GC_AssertionFailed else Inr (s\<lparr>initialized := True\<rparr>))"

definition gc_new :: "addr \<Rightarrow> gc_state \<Rightarrow> gc_failure + gc_state" where
  "gc_new gc s =
     (if \<not> initialized s then Inl GC_AssertionFailed
      else Inr (s\<lparr>objs := (objs s)(gc := (objs s gc)\<lparr>gc_next := allocList s\<rparr>),
                  allocList := Some gc\<rparr>))"

text \<open>
  \<open>GC::sweepCallback\<close> counts the object and, when it is marked, clears the mark and keeps
  it; otherwise it runs the destructor and asks for the memory to be reclaimed. Its only
  use, in \<open>sweep\<close>, is commented out.
\<close>

definition sweepCallback :: "addr \<Rightarrow> gc_state \<Rightarrow> bool \<times> gc_state" where
  "sweepCallback gc s =
     (let s1 = s\<lparr>total := total s + 1\<rparr> in
      if marked (objs s1 gc)
      then (False, s1\<lparr>objs := (objs s1)(gc := (objs s1 gc)\<lparr>marked := False\<rparr>)\<rparr>)
      else (True, s1\<lparr>reclaimed := reclaimed s1 + 1, destroyed := destroyed s1 @ [gc]\<rparr>))"

definition load_ref :: "gc_state \<Rightarrow> gc_ref \<Rightarrow> addr option" where
  "load_ref s r = (case r of AllocListRef \<Rightarrow> allocList s | NextRef a \<Rightarrow> gc_next (objs s a))"

definition store_ref :: "gc_ref \<Rightarrow> addr option \<Rightarrow> gc_state \<Rightarrow> gc_state" where
  "store_ref r v s =
     (case r of
        AllocListRef \<Rightarrow> s\<lparr>allocList := v\<rparr>
      | NextRef a \<Rightarrow> s\<lparr>objs := (objs s)(a := (objs s a)\<lparr>gc_next := v\<rparr>)\<rparr>)"

text \<open>\<open>free(gc)\<close>: the address is recorded as returned to the allocator.\<close>

definition free :: "addr \<Rightarrow> gc_state \<Rightarrow> gc_state" where
  "free gc s = s\<lparr>freed := freed s @ [gc]\<rparr>"

text \<open>
  The loop of \<open>GC::sweep\<close>: a marked object is stepped over, an unmarked one is unlinked
  and freed. On a list that loops back on itself the loop may never end, which is the value
  \<open>None\<close>.
\<close>

partial_function (option) sweep_loop :: "gc_ref \<Rightarrow> gc_state \<Rightarrow> gc_state option" where
  "sweep_loop ptr s =
     (case load_ref s ptr of
        None \<Rightarrow> Some s
      | Some gc \<Rightarrow>
          if marked (objs s gc) then sweep_loop (NextRef gc) s
          else sweep_loop ptr (free gc (store_ref ptr (gc_next (objs s gc)) s)))"

definition sweep :: "gc_state \<Rightarrow> gc_state option" where
  "sweep s =
     (case sweep_loop AllocListRef (s\<lparr>reclaimed := 0, total := 0\<rparr>) of
        None \<Rightarrow> None
      | Some s1 \<Rightarrow>
          Some (if debugLevel s1 \<noteq> 0
                then s1\<lparr>diag_info := diag_info s1 @ [GCInfo (reclaimed s1) (total s1 - reclaimed s1)]\<rparr>
                else s1))"

text \<open>
  \<open>alloc_chain h p xs\<close>: following \<open>next_\<close> from the pointer \<open>p\<close> visits exactly the
  addresses \<open>xs\<close> and then reaches null.
\<close>

fun alloc_chain :: "(addr \<Rightarrow> gc_object) \<Rightarrow> addr option \<Rightarrow> addr list \<Rightarrow> bool" where
  "alloc_chain h None xs = (xs = [])"
| "alloc_chain h (Some a) [] = False"
| "alloc_chain h (Some a) (x # xs) = (a = x \<and> alloc_chain h (gc_next (h a)) xs)"

text \<open>What one run of the loop from \<open>ptr\<close> over the chain \<open>xs\<close> leaves behind.\<close>

definition sweep_post :: "gc_ref \<Rightarrow> addr list \<Rightarrow> gc_state \<Rightarrow> gc_state \<Rightarrow> bool" where
  "sweep_post ptr xs s s' \<longleftrightarrow>
     alloc_chain (objs s') (load_ref s' ptr) (filter (\<lambda>a. marked (objs s a)) xs) \<and>
     (\<forall>a. marked (objs s' a) = marked (objs s a)) \<and>
     freed s' = freed s @ filter (\<lambda>a. \<not> marked (objs s a)) xs \<and>
     (\<forall>a. a \<notin> set xs \<and> ptr \<noteq> NextRef a \<longrightarrow> objs s' a = objs s a) \<and>
     (ptr \<noteq> AllocListRef \<longrightarrow> allocList s' = allocList s) \<and>
     reclaimed s' = reclaimed s \<and> total s' = total s \<and> debugLevel s' = debugLevel s \<and>
     diag_info s' = diag_info s \<and> destroyed s' = destroyed s \<and>
     initialized s' = initialized s"


subsection \<open>The union type test of the code generator (\<^verbatim>\<open>CodeGenExpr.cpp\<close>)\<close>

text \<open>
  Values of the target IR are terms; the types the generator asks for are named after the
  query that produces them. The instruction builder is the list of instructions inserted
  so far: every \<open>Create...\<close> call appends one instruction and returns it as a value.
\<close>

datatype irValue =
    Param string
  | ConstantFalse
  | ConstantInt irType int
  | Int32Val int
  | TypeInfoBlockPtr ty
  | FunctionValue string
  | Load irValue
  | ConstInBoundsGEP2_32 irValue nat nat
  | ExtractValue irValue nat
  | InBoundsGEP irValue "irValue list"
  | BitCast irValue irType
  | ICmpEQ irValue irValue
  | CallInst irValue "irValue list"
and irType =
    IrEmbeddedType ty
  | IrType ty
  | PointerTo irType
  | TypeOfValue irValue

type_synonym builder = "irValue list"

definition emit :: "irValue \<Rightarrow> builder \<Rightarrow> irValue \<times> builder" where
  "emit v b = (v, b @ [v])"

datatype codegen_abort = AssertionFailed | BadCast

text \<open>The two built-ins the test refers to.\<close>

definition typeObject :: ty where
  "typeObject = CompositeType Class ''tart.core.Object'' []"

definition funcHasBase :: string where
  "funcHasBase = ''hasBase''"

text \<open>
  Modelled from the spec: the queries on a union type (\<open>UnionType\<close> is not among the
  sources). A union type is its list of member types. \<open>numValueTypes()\<close> counts the
  members that are neither reference types nor void, \<open>hasVoidType()\<close> tells whether void
  is a member, and \<open>getTypeIndex(t)\<close> is the position of \<open>t\<close> among the members, or
  \<open>-1\<close> when it is not one. Classes and interfaces are the reference types.
\<close>

type_synonym unionType = "ty list"

fun isReferenceType :: "ty \<Rightarrow> bool" where
  "isReferenceType (CompositeType Class n targs) = True"
| "isReferenceType (CompositeType Interface n targs) = True"
| "isReferenceType t = False"

definition numValueTypes :: "unionType \<Rightarrow> nat" where
  "numValueTypes u = length (filter (\<lambda>t. \<not> isReferenceType t \<and> t \<noteq> VoidType) u)"

definition hasVoidType :: "unionType \<Rightarrow> bool" where
  "hasVoidType u \<longleftrightarrow> VoidType \<in> set u"

fun type_index_from :: "int \<Rightarrow> unionType \<Rightarrow> ty \<Rightarrow> int" where
  "type_index_from i [] t = -1"
| "type_index_from i (m # ms) t = (if t = m then i else type_index_from (i + 1) ms t)"

definition getTypeIndex :: "unionType \<Rightarrow> ty \<Rightarrow> int" where
  "getTypeIndex u t = type_index_from 0 u t"

text \<open>
  \<open>genCompositeTypeTest\<close>: asserts that the target is a class or an interface, then
  loads the type-info block pointer of the value and calls \<open>hasBase\<close> on it and the
  type-info block of the target type.
\<close>

fun isClassOrInterface :: "ty \<Rightarrow> bool" where
  "isClassOrInterface (CompositeType Class n targs) = True"
| "isClassOrInterface (CompositeType Interface n targs) = True"
| "isClassOrInterface t = False"

definition genCompositeTypeTest ::
  "builder \<Rightarrow> irValue \<Rightarrow> ty \<Rightarrow> ty \<Rightarrow> codegen_abort + (irValue \<times> builder)" where
  "genCompositeTypeTest b val fromType toType =
     (if \<not> isClassOrInterface toType then Inl AssertionFailed
      else
        let toTypeObj = TypeInfoBlockPtr toType;
            (valueAsObjType, b1) = emit (BitCast val (PointerTo (IrType typeObject))) b;
            indices = [Int32Val 0, Int32Val 0];
            (gep, b2) = emit (InBoundsGEP valueAsObjType indices) b1;
            (tib, b3) = emit (Load gep) b2;
            args = [tib, toTypeObj];
            upcastTest = FunctionValue funcHasBase;
            (result, b4) = emit (CallInst upcastTest args) b3
        in Inr (result, b4))"

text \<open>\<open>cast<CompositeType>(toType)\<close> fails on a type of another class.\<close>

fun cast_CompositeType :: "ty \<Rightarrow> ty option" where
  "cast_CompositeType (CompositeType k n targs) = Some (CompositeType k n targs)"
| "cast_CompositeType t = None"

text \<open>
  \<open>genUnionTypeTest\<close>. With a value-type or void member the union carries a type index:
  the index is read from the value (the instructions for that are inserted first), and
  then the index of the target type decides between the constant false and a comparison.
  A union of reference types only is a plain pointer; the target type's index is not
  looked up and a composite type test against \<open>Object\<close> is generated.
\<close>

definition genUnionTypeTest ::
  "builder \<Rightarrow> irValue \<Rightarrow> unionType \<Rightarrow> ty \<Rightarrow> bool \<Rightarrow> codegen_abort + (irValue \<times> builder)" where
  "genUnionTypeTest b inp unionTy toType valIsLVal =
     (if numValueTypes unionTy > 0 \<or> hasVoidType unionTy then
        let (actualTypeIndex, b1) =
              (if valIsLVal then
                 let (addr, b0) = emit (ConstInBoundsGEP2_32 inp 0 0) b in emit (Load addr) b0
               else emit (ExtractValue inp 0) b);
            testIndex = getTypeIndex unionTy toType
        in if testIndex < 0 then Inr (ConstantFalse, b1)
           else
             let testIndexValue = ConstantInt (TypeOfValue actualTypeIndex) testIndex;
                 (testResult, b2) = emit (ICmpEQ actualTypeIndex testIndexValue) b1
             in Inr (testResult, b2)
      else
        let (inp1, b1) = (if valIsLVal then emit (Load inp) b else (inp, b))
        in case cast_CompositeType toType of
             None \<Rightarrow> Inl BadCast
           | Some cto \<Rightarrow>
               let (refTypeVal, b2) = emit (BitCast inp1 (IrEmbeddedType toType)) b1
               in genCompositeTypeTest b2 refTypeVal typeObject cto)"

text \<open>
  A value is a runtime test when it is a comparison or a call instruction; a builder holds
  a runtime test when such an instruction has been inserted.
\<close>

fun isRuntimeTest :: "irValue \<Rightarrow> bool" where
  "isRuntimeTest (ICmpEQ a b) = True"
| "isRuntimeTest (CallInst f as) = True"
| "isRuntimeTest v = False"


subsection \<open>Call analysis (\<^verbatim>\<open>ExprAnalyzerCall.cpp\<close>, \<^verbatim>\<open>Expr.cpp\<close>)\<close>

text \<open>
  The diagnostics that the modelled functions send, in the order sent, and the symbols
  added to the module make up the state of an analysis. \<open>diag.fatal\<close>, a failed
  assertion (\<open>DASSERT\<close>, \<open>DFAIL\<close>, \<open>cast\<close>) and a null pointer that is dereferenced
  end the analysis.
\<close>

datatype diagnostic =
    UndefinedMethod astNode
  | ScopesSearched
  | MultipleDefinitions astNode
  | NotConstructable ty
  | NoMatchingMethod astNode "ty option list" "ty option"
  | CandidateInfo expr
  | NoConstructorsFound typeDefn
  | NoConstructorMatching "astNode list"
  | ConstructorInfo defn

record astate =
  diags :: "diagnostic list"
  moduleSymbols :: "defn list"

definition diag_error :: "diagnostic list \<Rightarrow> astate \<Rightarrow> astate" where
  "diag_error ds st = st\<lparr>diags := diags st @ ds\<rparr>"

definition addSymbol :: "defn \<Rightarrow> astate \<Rightarrow> astate" where
  "addSymbol d st = st\<lparr>moduleSymbols := moduleSymbols st @ [d]\<rparr>"

datatype abort = FatalError | AssertionFailed | NullDereference

subsubsection \<open>Single result and parameter types of a call\<close>

text \<open>
  \<open>CallExpr::singularParamType\<close>: the type of parameter \<open>index\<close> when all candidates
  that are not culled give the same one. \<open>TypeRef::isEqual\<close> is equality of types.
\<close>

fun singularParamType_loop ::
  "externs \<Rightarrow> nat \<Rightarrow> callCandidate list \<Rightarrow> ty option \<Rightarrow> ty option" where
  "singularParamType_loop X index [] singularType = singularType"
| "singularParamType_loop X index (cc # ccs) singularType =
     (if isCulled cc then singularParamType_loop X index ccs singularType
      else
        let t = CallCandidate_paramType X cc index in
        case singularType of
          None \<Rightarrow> singularParamType_loop X index ccs (Some t)
        | Some s \<Rightarrow> if t \<noteq> s then None else singularParamType_loop X index ccs singularType)"

definition singularParamType :: "externs \<Rightarrow> callExpr \<Rightarrow> nat \<Rightarrow> ty option" where
  "singularParamType X call index = singularParamType_loop X index (candidates call) None"

text \<open>
  The result type a candidate contributes in \<open>CallExpr::singularResultType\<close>: its
  \<open>resultType()\<close>, replaced by the type of the self parameter of its function type when
  its method is a constructor.
\<close>

definition candidateResultType :: "externs \<Rightarrow> callCandidate \<Rightarrow> abort + ty" where
  "candidateResultType X cc =
     (let t = CallCandidate_resultType X cc in
      case cc_method cc of
        None \<Rightarrow> Inr t
      | Some m \<Rightarrow>
          if isCtor m then
            (case selfParam (cc_functionType cc) of
               None \<Rightarrow> Inl NullDereference
             | Some self \<Rightarrow> Inr (param_type self))
          else Inr t)"

fun singularResultType_loop ::
  "externs \<Rightarrow> callCandidate list \<Rightarrow> ty option \<Rightarrow> abort + ty option" where
  "singularResultType_loop X [] singularType = Inr singularType"
| "singularResultType_loop X (cc # ccs) singularType =
     (if isCulled cc then singularResultType_loop X ccs singularType
      else
        case candidateResultType X cc of
          Inl a \<Rightarrow> Inl a
        | Inr t \<Rightarrow>
            (case singularType of
               None \<Rightarrow> singularResultType_loop X ccs (Some t)
             | Some s \<Rightarrow>
                 if t \<noteq> s then Inr None else singularResultType_loop X ccs singularType))"

definition singularResultType :: "externs \<Rightarrow> callExpr \<Rightarrow> abort + ty option" where
  "singularResultType X call = singularResultType_loop X (candidates call) None"

definition hasAnyCandidates :: "callExpr \<Rightarrow> bool" where
  "hasAnyCandidates call \<longleftrightarrow> list_ex (\<lambda>cc. \<not> isCulled cc) (candidates call)"

text \<open>
  \<open>ExprAnalyzer::reduceReturnType\<close> and \<open>getMappedParameterType\<close>: the single type when
  there is one, otherwise a new constraint on the call. \<open>reduceReturnType\<close> asserts that
  the type of a singular call is singular.
\<close>

definition reduceReturnType :: "externs \<Rightarrow> callExpr \<Rightarrow> abort + ty" where
  "reduceReturnType X call =
     (case singularResultType X call of
        Inl a \<Rightarrow> Inl a
      | Inr (Some t) \<Rightarrow>
          if isSingular X (CallExpr call) \<and> \<not> type_isSingular t then Inl AssertionFailed
          else Inr t
      | Inr None \<Rightarrow> Inr (ResultOfConstraint (call_addr call)))"

definition getMappedParameterType :: "externs \<Rightarrow> callExpr \<Rightarrow> nat \<Rightarrow> ty" where
  "getMappedParameterType X call index =
     (case singularParamType X call index of
        Some t \<Rightarrow> t
      | None \<Rightarrow> ParameterOfConstraint (call_addr call) index)"

subsubsection \<open>Adding overloads and reducing arguments\<close>

text \<open>
  \<open>addOverload\<close> for a method and for a function-typed variable, both with AST
  arguments. The overload becomes a candidate when its parameters accept the arguments;
  otherwise nothing is recorded. The result is false only when the analysis of the method
  fails. The assertion that the method's type is defined holds by the type of
  \<open>functionType\<close>, a field that is always present, and the assertion that a
  function-typed variable has a function type by \<open>ftype\<close> being one.
\<close>

definition addOverload_method ::
  "externs \<Rightarrow> callExpr \<Rightarrow> expr option \<Rightarrow> functionDefn \<Rightarrow> astNode list \<Rightarrow> astate
     \<Rightarrow> bool \<times> callExpr \<times> astate" where
  "addOverload_method X call baseExpr m as st =
     (if \<not> analyzeValueDefn X (FunctionDefn m) Task_PrepConversion then (False, call, st)
      else
        case assignFromAST X (functionType m) as of
          None \<Rightarrow> (True, call, st)
        | Some pa \<Rightarrow>
            (True,
             push_candidate call
               (CallCandidate (call_addr call) baseExpr (Some m) (functionType m) pa False),
             st))"

definition addOverload_fnType ::
  "externs \<Rightarrow> callExpr \<Rightarrow> expr \<Rightarrow> functionType \<Rightarrow> astNode list \<Rightarrow> astate
     \<Rightarrow> bool \<times> callExpr \<times> astate" where
  "addOverload_fnType X call fn ftype as st =
     (case assignFromAST X ftype as of
        None \<Rightarrow> (True, call, st)
      | Some pa \<Rightarrow>
          (True,
           push_candidate call (CallCandidate (call_addr call) (Some fn) None ftype pa False),
           st))"

text \<open>
  \<open>reduceArgList\<close>: each AST argument (the value of a keyword argument) is reduced with
  the mapped parameter type as the expected type and appended to the call's arguments; the
  first argument that reduces to an error ends the loop with false.
\<close>

fun reduceArgList_loop ::
  "externs \<Rightarrow> nat \<Rightarrow> astNode list \<Rightarrow> callExpr \<Rightarrow> bool \<times> callExpr" where
  "reduceArgList_loop X i [] call = (True, call)"
| "reduceArgList_loop X i (a # rest) call =
     (let arg = (case a of ASTKeywordArg kw v \<Rightarrow> v | _ \<Rightarrow> a);
          paramType = getMappedParameterType X call i;
          ex = reduceExpr X arg paramType
      in if isErrorResult_expr ex then (False, call)
         else reduceArgList_loop X (i + 1) rest (push_arg call ex))"

definition reduceArgList :: "externs \<Rightarrow> astNode list \<Rightarrow> callExpr \<Rightarrow> bool \<times> callExpr" where
  "reduceArgList X as call = reduceArgList_loop X 0 as call"

subsubsection \<open>Argument-dependent lookup\<close>

text \<open>
  \<open>lookupByArgType\<close>, first loop: for each argument of the call whose type is set and
  singular, the dealiased type is entered into \<open>typesSearched\<close>; when it was not there
  yet and has a type definition with a defining scope, that scope is asked for the name,
  inherited members included. Types are values here, so \<open>typesSearched\<close> holds each type
  once; a second type object of the same structure would only repeat a lookup, and the
  second loop drops the function objects that a lookup repeats.
\<close>

fun adl_scan :: "externs \<Rightarrow> ident \<Rightarrow> expr list \<Rightarrow> ty list \<Rightarrow> defn list \<Rightarrow> defn list" where
  "adl_scan X name [] typesSearched defns = defns"
| "adl_scan X name (arg # rest) typesSearched defns =
     (case expr_type arg of
        None \<Rightarrow> adl_scan X name rest typesSearched defns
      | Some t \<Rightarrow>
          if \<not> type_isSingular t then adl_scan X name rest typesSearched defns
          else
            (case dealias X t of
               None \<Rightarrow> adl_scan X name rest typesSearched defns
             | Some argType \<Rightarrow>
                 if argType \<in> set typesSearched then adl_scan X name rest typesSearched defns
                 else
                   (case Type_typeDefn X argType of
                      None \<Rightarrow> adl_scan X name rest (argType # typesSearched) defns
                    | Some argTypeDefn \<Rightarrow>
                        (case definingScope argTypeDefn of
                           None \<Rightarrow> adl_scan X name rest (argType # typesSearched) defns
                         | Some sc \<Rightarrow>
                             adl_scan X name rest (argType # typesSearched)
                               (defns @ Scope_lookupMember X sc name True)))))"

text \<open>
  Second loop: every function definition found whose storage class is static or global and
  that enters \<open>methodsFound\<close> anew is passed to \<open>addOverload\<close> with a null base.
  \<open>methodsFound\<close> is a set of pointers: it holds addresses, and starts as the methods of
  the candidates the call already has (the null method of a candidate that stands for a
  function type included).
\<close>

fun adl_add ::
  "externs \<Rightarrow> astNode list \<Rightarrow> defn list \<Rightarrow> nat option list \<Rightarrow> callExpr \<Rightarrow> astate
     \<Rightarrow> callExpr \<times> astate" where
  "adl_add X as [] methodsFound call st = (call, st)"
| "adl_add X as (d # ds) methodsFound call st =
     (case d of
        FunctionDefn f \<Rightarrow>
          if (storageClass f = Storage_Static \<or> storageClass f = Storage_Global) \<and>
             Some (fn_addr f) \<notin> set methodsFound
          then
            (case addOverload_method X call None f as st of
               (ok, call', st') \<Rightarrow> adl_add X as ds (Some (fn_addr f) # methodsFound) call' st')
          else adl_add X as ds methodsFound call st
      | _ \<Rightarrow> adl_add X as ds methodsFound call st)"

text \<open>The pointer \<open>method()\<close> of a candidate, as an address.\<close>

definition methodAddr :: "callCandidate \<Rightarrow> nat option" where
  "methodAddr cc = map_option fn_addr (cc_method cc)"

definition lookupByArgType ::
  "externs \<Rightarrow> callExpr \<Rightarrow> ident \<Rightarrow> astNode list \<Rightarrow> astate \<Rightarrow> callExpr \<times> astate" where
  "lookupByArgType X call name as st =
     (let defns = adl_scan X name (args call) [] [];
          methodsFound = map methodAddr (candidates call)
      in adl_add X as defns methodsFound call st)"

text \<open>The candidates of a call that are not culled.\<close>

definition liveCandidates :: "callExpr \<Rightarrow> callCandidate list" where
  "liveCandidates call = filter (\<lambda>cc. \<not> isCulled cc) (candidates call)"

text \<open>
  The result type of a candidate in the words of the specification: the type of the
  receiver, which is the self parameter of the candidate's function type, for a candidate
  whose method is a constructor, and the candidate's own (substituted) result type for
  every other candidate. A constructor candidate without a self parameter has no receiver
  type. The candidates that are not culled agree on a type when there is at least one of
  them and this is the result type of each.
\<close>

definition isConstructorCandidate :: "callCandidate \<Rightarrow> bool" where
  "isConstructorCandidate cc \<longleftrightarrow> (case cc_method cc of None \<Rightarrow> False | Some m \<Rightarrow> isCtor m)"

definition receiverType :: "callCandidate \<Rightarrow> ty option" where
  "receiverType cc = map_option param_type (selfParam (cc_functionType cc))"

definition spec_resultType :: "externs \<Rightarrow> callCandidate \<Rightarrow> ty option" where
  "spec_resultType X cc =
     (if isConstructorCandidate cc then receiverType cc
      else Some (CallCandidate_resultType X cc))"

definition spec_candidatesAgree :: "externs \<Rightarrow> callExpr \<Rightarrow> ty \<Rightarrow> bool" where
  "spec_candidatesAgree X call t \<longleftrightarrow>
     liveCandidates call \<noteq> [] \<and>
     list_all (\<lambda>cc. spec_resultType X cc = Some t) (liveCandidates call)"


subsubsection \<open>Constructor calls\<close>

definition idConstruct :: ident where
  "idConstruct = ''construct''"

definition idCreate :: ident where
  "idCreate = ''create''"

text \<open>
  A call of \<open>lookupMember(name, defs, inherit)\<close> on the scope at \<open>sc\<close>, and of
  \<open>lookupTemplateMember\<close>: the definitions found are appended to \<open>defs\<close>, and the
  result tells whether any was found.
\<close>

definition Scope_lookup ::
  "externs \<Rightarrow> scope_ptr \<Rightarrow> ident \<Rightarrow> defn list \<Rightarrow> bool \<Rightarrow> bool \<times> defn list" where
  "Scope_lookup X sc name defs inherit =
     (let found = Scope_lookupMember X sc name inherit in (found \<noteq> [], defs @ found))"

definition Template_lookup ::
  "externs \<Rightarrow> typeDefn \<Rightarrow> ident \<Rightarrow> defn list \<Rightarrow> bool \<times> defn list" where
  "Template_lookup X tdef name defs =
     (let found = lookupTemplateMember X tdef name in (found \<noteq> [], defs @ found))"

text \<open>
  The loops of \<open>callConstructor\<close> over the methods found. A \<open>construct\<close> member must be
  a function with the constructor trait, no or a void return type and instance storage
  (assertions); it is added with the \<open>new\<close> expression as its base. A \<open>create\<close>
  member is added, with a null base, when its storage is static. In a template the
  constructors are analysed first and given the constructor trait.
\<close>

definition returnsNothing :: "functionDefn \<Rightarrow> bool" where
  "returnsNothing f \<longleftrightarrow>
     (case returnType (functionType f) of None \<Rightarrow> True | Some t \<Rightarrow> t = VoidType)"

fun addConstructors ::
  "externs \<Rightarrow> expr \<Rightarrow> astNode list \<Rightarrow> defn list \<Rightarrow> callExpr \<Rightarrow> astate
     \<Rightarrow> abort + (callExpr \<times> astate)" where
  "addConstructors X newExpr as [] call st = Inr (call, st)"
| "addConstructors X newExpr as (d # ds) call st =
     (case d of
        FunctionDefn cons \<Rightarrow>
          if \<not> isCtor cons then Inl AssertionFailed
          else if \<not> returnsNothing cons then Inl AssertionFailed
          else if storageClass cons \<noteq> Storage_Instance then Inl AssertionFailed
          else
            (case addOverload_method X call (Some newExpr) cons as st of
               (ok, call', st') \<Rightarrow> addConstructors X newExpr as ds call' st')
      | _ \<Rightarrow> Inl AssertionFailed)"

fun addCreators ::
  "externs \<Rightarrow> astNode list \<Rightarrow> defn list \<Rightarrow> callExpr \<Rightarrow> astate
     \<Rightarrow> abort + (callExpr \<times> astate)" where
  "addCreators X as [] call st = Inr (call, st)"
| "addCreators X as (d # ds) call st =
     (case d of
        FunctionDefn create \<Rightarrow>
          if storageClass create = Storage_Static then
            (case addOverload_method X call None create as st of
               (ok, call', st') \<Rightarrow> addCreators X as ds call' st')
          else addCreators X as ds call st
      | _ \<Rightarrow> Inl AssertionFailed)"

fun addTemplateConstructors ::
  "externs \<Rightarrow> expr \<Rightarrow> astNode list \<Rightarrow> defn list \<Rightarrow> callExpr \<Rightarrow> astate
     \<Rightarrow> abort + (callExpr \<times> astate)" where
  "addTemplateConstructors X newExpr as [] call st = Inr (call, st)"
| "addTemplateConstructors X newExpr as (d # ds) call st =
     (case d of
        FunctionDefn cons \<Rightarrow>
          if analyzeDefn X (FunctionDefn cons) Task_PrepTypeComparison then
            if \<not> returnsNothing cons then Inl AssertionFailed
            else if storageClass cons \<noteq> Storage_Instance then Inl AssertionFailed
            else if \<not> (fn_isTemplate cons \<or> fn_isTemplateMember cons) then Inl AssertionFailed
            else
              (case addOverload_method X call (Some newExpr) (cons\<lparr>isCtor := True\<rparr>) as st of
                 (ok, call', st') \<Rightarrow> addTemplateConstructors X newExpr as ds call' st')
          else addTemplateConstructors X newExpr as ds call st
      | _ \<Rightarrow> Inl AssertionFailed)"

fun addTemplateCreators ::
  "externs \<Rightarrow> astNode list \<Rightarrow> defn list \<Rightarrow> callExpr \<Rightarrow> astate
     \<Rightarrow> abort + (callExpr \<times> astate)" where
  "addTemplateCreators X as [] call st = Inr (call, st)"
| "addTemplateCreators X as (d # ds) call st =
     (case d of
        FunctionDefn create \<Rightarrow>
          if storageClass create = Storage_Static \<and>
             analyzeDefn X (FunctionDefn create) Task_PrepTypeComparison
          then
            (case addOverload_method X call None create as st of
               (ok, call', st') \<Rightarrow> addTemplateCreators X as ds call' st')
          else addTemplateCreators X as ds call st
      | _ \<Rightarrow> Inl AssertionFailed)"

text \<open>
  The search for constructors in \<open>callConstructor\<close>. The result is the call with the
  overloads added and the list \<open>methods\<close>, or the error value when no constructor was
  found (a diagnostic has been sent; in a template this case ends in \<open>DFAIL\<close>). For a
  type that is not a template: the
  \<open>construct\<close> members of the type's member scope itself; if there is none, its
  \<open>create\<close> members; if there is none either, the \<open>construct\<close> members including
  inherited ones.
\<close>

datatype 'a found = Found 'a | NotFound expr

definition constructorOverloads ::
  "externs \<Rightarrow> typeDefn \<Rightarrow> astNode list \<Rightarrow> callExpr \<Rightarrow> astate
     \<Rightarrow> (abort + (callExpr \<times> defn list) found) \<times> astate" where
  "constructorOverloads X tdef as call st =
     (let type = typeValue tdef; methods0 = [] in
      if isTemplate tdef then
        (case Template_lookup X tdef idConstruct methods0 of
           (True, methods) \<Rightarrow>
             (case addTemplateConstructors X (NewExpr type) as methods call st of
                Inl a \<Rightarrow> (Inl a, st)
              | Inr (call', st') \<Rightarrow> (Inr (Found (call', methods)), st'))
         | (False, methods1) \<Rightarrow>
             (case Template_lookup X tdef idCreate methods1 of
                (True, methods) \<Rightarrow>
                  (case addTemplateCreators X as methods call st of
                     Inl a \<Rightarrow> (Inl a, st)
                   | Inr (call', st') \<Rightarrow> (Inr (Found (call', methods)), st'))
              | (False, methods2) \<Rightarrow>
                  (Inl AssertionFailed, diag_error [NoConstructorsFound tdef] st)))
      else
        (case Scope_lookup X (Type_memberScope X type) idConstruct methods0 False of
           (True, methods) \<Rightarrow>
             (case addConstructors X (NewExpr type) as methods call st of
                Inl a \<Rightarrow> (Inl a, st)
              | Inr (call', st') \<Rightarrow> (Inr (Found (call', methods)), st'))
         | (False, methods1) \<Rightarrow>
             (case Scope_lookup X (Type_memberScope X type) idCreate methods1 False of
                (True, methods) \<Rightarrow>
                  (case addCreators X as methods call st of
                     Inl a \<Rightarrow> (Inl a, st)
                   | Inr (call', st') \<Rightarrow> (Inr (Found (call', methods)), st'))
              | (False, methods2) \<Rightarrow>
                  (case Scope_lookup X (Type_memberScope X type) idConstruct methods2 True of
                     (True, methods) \<Rightarrow>
                       (case addConstructors X (NewExpr type) as methods call st of
                          Inl a \<Rightarrow> (Inl a, st)
                        | Inr (call', st') \<Rightarrow> (Inr (Found (call', methods)), st'))
                   | (False, methods3) \<Rightarrow>
                       (Inr (NotFound ErrorVal), diag_error [NoConstructorsFound tdef] st)))))"

text \<open>
  \<open>callConstructor\<close>. The new \<open>CallExpr\<close> is allocated at \<open>newAddr\<close>; its function
  is the type's expression and its expected return type is the type. The access check
  made first (\<open>checkAccess\<close>, of the analyser's base class) only reports a violation of
  visibility and does not change the call; it is left out, so \<open>diags\<close> holds the
  diagnostics of this file's functions only.
\<close>

definition callConstructor ::
  "externs \<Rightarrow> typeDefn \<Rightarrow> astNode list \<Rightarrow> call_ptr \<Rightarrow> astate \<Rightarrow> (abort + expr) \<times> astate" where
  "callConstructor X tdef as newAddr st =
     (let type = typeValue tdef;
          st1 = (if \<not> isTemplate tdef \<and> \<not> isTemplateMember tdef
                 then addSymbol (TypeDefn tdef) st else st)
      in if \<not> analyzeType X type Task_PrepConstruction then (Inr ErrorVal, st1)
         else
           let call = setExpectedReturnType
                        (CallNode newAddr Construct None (Some (asExpr X tdef)) [] [] None)
                        (Some type)
           in (case constructorOverloads X tdef as call st1 of
                (Inl a, st2) \<Rightarrow> (Inl a, st2)
              | (Inr (NotFound e), st2) \<Rightarrow> (Inr e, st2)
              | (Inr (Found (call1, methods)), st2) \<Rightarrow>
                  if \<not> hasAnyCandidates call1 then
                    (Inr ErrorVal,
                     diag_error (NoConstructorMatching as # map ConstructorInfo methods) st2)
                  else
                    (case reduceArgList X as call1 of
                       (False, call2) \<Rightarrow> (Inr ErrorVal, st2)
                     | (True, call2) \<Rightarrow>
                         (case reduceReturnType X call2 of
                            Inl a \<Rightarrow> (Inl a, st2)
                          | Inr t \<Rightarrow> (Inr (CallExpr (setType call2 t)), st2)))))"

subsubsection \<open>Calls by name\<close>

text \<open>
  The loop of \<open>callName\<close> over the lookup results. It ends early with a null result
  (\<open>return false\<close>) when the analysis of a variable fails, and with a fatal error on a
  result that is not an lvalue.
\<close>

datatype overloads_exit = Completed bool | ReturnedNull | Ended abort

fun callName_overloads ::
  "externs \<Rightarrow> astNode list \<Rightarrow> expr list \<Rightarrow> bool \<Rightarrow> callExpr \<Rightarrow> astate
     \<Rightarrow> overloads_exit \<times> callExpr \<times> astate" where
  "callName_overloads X as [] success call st = (Completed success, call, st)"
| "callName_overloads X as (r # rs) success call st =
     (case r of
        LValueExpr t b v \<Rightarrow>
          (case v of
             FunctionDefn func \<Rightarrow>
               (case addOverload_method X call (lvalueBase X r) func as st of
                  (ok, call', st') \<Rightarrow> callName_overloads X as rs (success \<and> ok) call' st')
           | VariableDefn var \<Rightarrow>
               if \<not> analyzeValueDefn X (VariableDefn var) Task_PrepTypeComparison
               then (ReturnedNull, call, st)
               else
                 (case var_type var of
                    FunctionTy ft \<Rightarrow>
                      (case addOverload_fnType X call r ft as st of
                         (ok, call', st') \<Rightarrow> callName_overloads X as rs (success \<and> ok) call' st')
                  | BoundMethodType ft \<Rightarrow>
                      (case addOverload_fnType X call r ft as st of
                         (ok, call', st') \<Rightarrow> callName_overloads X as rs (success \<and> ok) call' st')
                  | _ \<Rightarrow> callName_overloads X as rs success call st)
           | _ \<Rightarrow> callName_overloads X as rs success call st)
      | _ \<Rightarrow> (Ended FatalError, call, st))"

text \<open>
  The end of \<open>callName\<close>, after the overloads have been added, the arguments reduced and
  argument-dependent lookup done.
\<close>

definition callName_finish ::
  "externs \<Rightarrow> astNode \<Rightarrow> ty option \<Rightarrow> expr list \<Rightarrow> bool \<Rightarrow> callExpr \<Rightarrow> astate
     \<Rightarrow> (abort + expr option) \<times> callExpr option \<times> astate" where
  "callName_finish X callable expected results success call st =
     (if \<not> success then (Inr (Some ErrorVal), Some call, st)
      else if results = [] then
        (Inr (Some ErrorVal), Some call, diag_error [UndefinedMethod callable, ScopesSearched] st)
      else if candidates call = [] then
        (Inr (Some ErrorVal), Some call,
         diag_error
           (NoMatchingMethod callable (map expr_type (args call)) expected #
            map CandidateInfo results) st)
      else
        (case reduceReturnType X call of
           Inl a \<Rightarrow> (Inl a, Some call, st)
         | Inr t \<Rightarrow> (Inr (Some (CallExpr (setType call t))), Some (setType call t), st)))"

fun isCallableNode :: "astNode \<Rightarrow> bool" where
  "isCallableNode (ASTIdent n) = True"
| "isCallableNode (ASTMember b n) = True"
| "isCallableNode (ASTSpecialize b as) = True"
| "isCallableNode n = False"

fun unqualifiedName :: "astNode \<Rightarrow> ident option" where
  "unqualifiedName (ASTIdent n) = Some n"
| "unqualifiedName n = None"

text \<open>
  \<open>callName\<close>. Besides the result (a null pointer is \<open>None\<close>) and the state,
  \<open>callName_body\<close> gives the \<open>CallExpr\<close> object that \<open>callName\<close> itself allocated,
  as it stands at the end, when it allocated one.
\<close>

definition callName_body ::
  "externs \<Rightarrow> astNode \<Rightarrow> astNode list \<Rightarrow> ty option \<Rightarrow> bool \<Rightarrow> call_ptr \<Rightarrow> astate
     \<Rightarrow> (abort + expr option) \<times> callExpr option \<times> astate" where
  "callName_body X callable as expected isOptional newAddr st =
     (if \<not> isCallableNode callable then (Inl AssertionFailed, None, st)
      else
        let isUnqualified = (unqualifiedName callable \<noteq> None);
            results = lookupName X callable
        in if results = [] \<and> \<not> isUnqualified then
             (if isOptional then (Inr None, None, st)
              else (Inr (Some ErrorVal), None,
                    diag_error [UndefinedMethod callable, ScopesSearched] st))
           else
             (case (if results \<noteq> [] then getTypesFromExprs X results else None) of
                Some typeList \<Rightarrow>
                  if length typeList > 1 then
                    (Inr (Some ErrorVal), None, diag_error [MultipleDefinitions callable] st)
                  else
                    (case typeList of
                       [] \<Rightarrow> (Inl NullDereference, None, st)
                     | type # ts \<Rightarrow>
                         (case Type_typeDefn X type of
                            None \<Rightarrow>
                              (Inr (Some ErrorVal), None, diag_error [NotConstructable type] st)
                          | Some tdef \<Rightarrow>
                              (case callConstructor X tdef as newAddr st of
                                 (Inl a, st') \<Rightarrow> (Inl a, None, st')
                               | (Inr e, st') \<Rightarrow> (Inr (Some e), None, st'))))
              | None \<Rightarrow>
                  (let call = setExpectedReturnType (CallNode newAddr Call None None [] [] None)
                               expected
                   in case callName_overloads X as results True call st of
                       (Ended a, call1, st1) \<Rightarrow> (Inl a, Some call1, st1)
                     | (ReturnedNull, call1, st1) \<Rightarrow> (Inr None, Some call1, st1)
                     | (Completed success, call1, st1) \<Rightarrow>
                         (case reduceArgList X as call1 of
                            (False, call2) \<Rightarrow> (Inr (Some ErrorVal), Some call2, st1)
                          | (True, call2) \<Rightarrow>
                              (case (case unqualifiedName callable of
                                       Some name \<Rightarrow>
                                         if as \<noteq> [] then lookupByArgType X call2 name as st1
                                         else (call2, st1)
                                     | None \<Rightarrow> (call2, st1)) of
                                 (call3, st3) \<Rightarrow>
                                   callName_finish X callable expected results success
                                     call3 st3)))))"

definition callName ::
  "externs \<Rightarrow> astNode \<Rightarrow> astNode list \<Rightarrow> ty option \<Rightarrow> bool \<Rightarrow> call_ptr \<Rightarrow> astate
     \<Rightarrow> (abort + expr option) \<times> astate" where
  "callName X callable as expected isOptional newAddr st =
     (case callName_body X callable as expected isOptional newAddr st of
        (r, built, st') \<Rightarrow> (r, st'))"

definition callName_built ::
  "externs \<Rightarrow> astNode \<Rightarrow> astNode list \<Rightarrow> ty option \<Rightarrow> bool \<Rightarrow> call_ptr \<Rightarrow> astate
     \<Rightarrow> callExpr option" where
  "callName_built X callable as expected isOptional newAddr st =
     (case callName_body X callable as expected isOptional newAddr st of
        (r, built, st') \<Rightarrow> built)"

text \<open>Whether a diagnostic is the report that no method matches a call.\<close>

fun isNoMatchingMethod :: "diagnostic \<Rightarrow> bool" where
  "isNoMatchingMethod (NoMatchingMethod callable tys expected) = True"
| "isNoMatchingMethod d = False"

text \<open>
  Whether every variable among the lookup results passes the analysis that \<open>callName\<close>
  asks for before it looks at the variable's type.
\<close>

fun variableAnalyzed :: "externs \<Rightarrow> expr \<Rightarrow> bool" where
  "variableAnalyzed X (LValueExpr t b (VariableDefn var)) =
     analyzeValueDefn X (VariableDefn var) Task_PrepTypeComparison"
| "variableAnalyzed X e = True"


subsubsection \<open>Notions used to state the properties of call analysis\<close>

text \<open>
  The call with further candidates appended, and the candidate list that offering a list
  of methods to \<open>addOverload\<close> contributes: one candidate for each method that passes
  its analysis and whose parameters accept the arguments.
\<close>

fun appendCandidates :: "callExpr \<Rightarrow> callCandidate list \<Rightarrow> callExpr" where
  "appendCandidates (CallNode a k t f cs as ex) new = CallNode a k t f (cs @ new) as ex"

definition overloadCandidate ::
  "externs \<Rightarrow> call_ptr \<Rightarrow> expr option \<Rightarrow> astNode list \<Rightarrow> functionDefn \<Rightarrow> callCandidate list" where
  "overloadCandidate X addr b as m =
     (if analyzeValueDefn X (FunctionDefn m) Task_PrepConversion then
        (case assignFromAST X (functionType m) as of
           None \<Rightarrow> []
         | Some pa \<Rightarrow> [CallCandidate addr b (Some m) (functionType m) pa False])
      else [])"

definition overloadCandidates ::
  "externs \<Rightarrow> call_ptr \<Rightarrow> expr option \<Rightarrow> astNode list \<Rightarrow> functionDefn list \<Rightarrow> callCandidate list" where
  "overloadCandidates X addr b as ms = concat (map (overloadCandidate X addr b as) ms)"

text \<open>What the assertions of \<open>callConstructor\<close> ask of a \<open>construct\<close> member.\<close>

definition constructorOK :: "functionDefn \<Rightarrow> bool" where
  "constructorOK cons \<longleftrightarrow>
     isCtor cons \<and> returnsNothing cons \<and> storageClass cons = Storage_Instance"

text \<open>
  The entries of a list whose key is not in \<open>seen\<close>, one for each key, in the order of
  their first occurrence; and the same with the entries as their own keys.
\<close>

fun newEntriesBy :: "('a \<Rightarrow> 'k) \<Rightarrow> 'k list \<Rightarrow> 'a list \<Rightarrow> 'a list" where
  "newEntriesBy key seen [] = []"
| "newEntriesBy key seen (x # xs) =
     (if key x \<in> set seen then newEntriesBy key seen xs
      else x # newEntriesBy key (key x # seen) xs)"

fun newEntries :: "'a list \<Rightarrow> 'a list \<Rightarrow> 'a list" where
  "newEntries seen [] = []"
| "newEntries seen (x # xs) =
     (if x \<in> set seen then newEntries seen xs else x # newEntries (x # seen) xs)"

text \<open>
  For argument-dependent lookup: the dealiased type of an argument whose type is set and
  singular; the definitions found for a type in its defining scope; the function
  definitions among a list of definitions that have static or global storage.
\<close>

definition adlType :: "externs \<Rightarrow> expr \<Rightarrow> ty list" where
  "adlType X arg =
     (case expr_type arg of
        None \<Rightarrow> []
      | Some t \<Rightarrow>
          if type_isSingular t then (case dealias X t of None \<Rightarrow> [] | Some argType \<Rightarrow> [argType])
          else [])"

definition adlLookup :: "externs \<Rightarrow> ident \<Rightarrow> ty \<Rightarrow> defn list" where
  "adlLookup X name argType =
     (case Type_typeDefn X argType of
        None \<Rightarrow> []
      | Some argTypeDefn \<Rightarrow>
          (case definingScope argTypeDefn of
             None \<Rightarrow> []
           | Some sc \<Rightarrow> Scope_lookupMember X sc name True))"

fun staticOrGlobalFunction :: "defn \<Rightarrow> functionDefn list" where
  "staticOrGlobalFunction (FunctionDefn f) =
     (if storageClass f = Storage_Static \<or> storageClass f = Storage_Global then [f] else [])"
| "staticOrGlobalFunction d = []"

text \<open>
  The functions that argument-dependent lookup offers as overloads for a call: over the
  distinct dealiased singular argument types, the static or global functions found under
  the name in the type's defining scope whose object is not yet the method of a candidate,
  each object once.
\<close>

definition adlFound :: "externs \<Rightarrow> callExpr \<Rightarrow> ident \<Rightarrow> functionDefn list" where
  "adlFound X call name =
     concat (map staticOrGlobalFunction
       (concat (map (adlLookup X name)
          (newEntries [] (concat (map (adlType X) (args call)))))))"

definition adlFunctions :: "externs \<Rightarrow> callExpr \<Rightarrow> ident \<Rightarrow> functionDefn list" where
  "adlFunctions X call name =
     newEntriesBy (\<lambda>f. Some (fn_addr f)) (map methodAddr (candidates call))
       (adlFound X call name)"


subsection \<open>Example inputs\<close>

text \<open>
  A global function \<open>f\<close> without parameters, and an instance of the out-of-source
  functions in which every definition and candidate is singular, every analysis pass
  succeeds, arguments are mapped to parameters when their numbers agree, an AST literal
  reduces to a constant-like node of the expected type, and every lookup finds nothing.
\<close>

definition example_f :: functionDefn where
  "example_f =
     \<lparr>fn_addr = 20, fn_name = ''f'', storageClass = Storage_Global, isCtor = False,
      fn_isTemplate = False, fn_isTemplateMember = False,
      functionType = FunctionType [] None None True\<rparr>"

definition example_externs :: externs where
  "example_externs =
     \<lparr>Defn_isSingular = (\<lambda>d. True),
      CallCandidate_isSingular = (\<lambda>c. True),
      CallCandidate_resultType =
        (\<lambda>c. case returnType (cc_functionType c) of None \<Rightarrow> VoidType | Some t \<Rightarrow> t),
      CallCandidate_paramType =
        (\<lambda>c i. if i < length (params (cc_functionType c))
                then param_type (params (cc_functionType c) ! i) else BadType),
      analyzeValueDefn = (\<lambda>d t. True),
      analyzeDefn = (\<lambda>d t. True),
      analyzeType = (\<lambda>t k. True),
      assignFromAST =
        (\<lambda>ft as. if length as = length (params ft) then Some [0..<length as] else None),
      reduceExpr = (\<lambda>n t. ArglistExpr TupleCtor t []),
      lookupName = (\<lambda>n. []),
      getTypesFromExprs = (\<lambda>es. None),
      lvalueBase = (\<lambda>e. None),
      dealias = (\<lambda>t. Some t),
      Type_typeDefn = (\<lambda>t. None),
      Type_memberScope = (\<lambda>t. 0),
      asExpr = (\<lambda>td. ScopeNameExpr (typeValue td) (TypeDefn td)),
      Scope_lookupMember = (\<lambda>sc n inh. []),
      lookupTemplateMember = (\<lambda>td n. [])\<rparr>"


text \<open>Three objects allocated in the order 0, 1, 2, of which 0 and 2 are marked.\<close>

definition gc_example :: gc_state where
  "gc_example =
     \<lparr>initialized = True,
      objs = (\<lambda>a. \<lparr>marked = (a \<noteq> 1), gc_next = (if a = 0 then None else Some (a - 1))\<rparr>),
      allocList = Some 2, freed = [], destroyed = [], reclaimed = 7, total = 9,
      debugLevel = 1, diag_info = []\<rparr>"


text \<open>
  A store with an outer scope at address 10, a function scope at 11 that declares \<open>f\<close>,
  and another outer scope at 12.
\<close>


definition scope_example :: scope_store where
  "scope_example =
     (\<lambda>a. if a = 11 then IterableScope [(''f'', [FunctionDefn example_f])] (Some 10)
          else IterableScope [] None)"


text \<open>
  Example expressions: an argument-list node without arguments (an empty array literal)
  whose type \<open>Array[T]\<close> still holds a pattern variable, and a call of a function with
  no arguments whose node type is a pattern variable.
\<close>


definition open_array_type :: ty where
  "open_array_type = CompositeType Class ''tart.core.Array'' [PatternVar ''T'']"

definition empty_array_literal :: expr where
  "empty_array_literal = ArglistExpr ArrayLiteral open_array_type []"

definition open_fn_call :: expr where
  "open_fn_call =
     FnCallExpr FnCall (PatternVar ''T'')
       (FunctionDefn example_f) []"


text \<open>
  Example unions: \<open>int32 | String\<close>, which has a value-type member, and
  \<open>String | Throwable\<close>, which has reference types only. \<open>Range\<close> is a member of
  neither.
\<close>

definition typeString :: ty where
  "typeString = CompositeType Class ''tart.core.String'' []"

definition typeThrowable :: ty where
  "typeThrowable = CompositeType Class ''tart.core.Throwable'' []"

definition typeRange :: ty where
  "typeRange = CompositeType Class ''tart.core.Range'' []"

definition tagged_union :: unionType where
  "tagged_union = [PrimitiveType ''int32'', typeString]"

definition reference_union :: unionType where
  "reference_union = [typeString, typeThrowable]"


text \<open>
  Two constructors of \<open>String\<close> and two global functions \<open>g\<close> with different return
  types, and calls (at address 7) that have them as candidates.
\<close>

definition selfString :: parameterDefn where
  "selfString = ParameterDefn ''self'' typeString"

definition construct0 :: functionDefn where
  "construct0 =
     \<lparr>fn_addr = 21, fn_name = ''construct'', storageClass = Storage_Instance, isCtor = True,
      fn_isTemplate = False, fn_isTemplateMember = False,
      functionType = FunctionType [] (Some selfString) None False\<rparr>"

definition construct1 :: functionDefn where
  "construct1 =
     \<lparr>fn_addr = 22, fn_name = ''construct'', storageClass = Storage_Instance, isCtor = True,
      fn_isTemplate = False, fn_isTemplateMember = False,
      functionType =
        FunctionType [ParameterDefn ''s'' typeString] (Some selfString) (Some VoidType) False\<rparr>"

definition g_int :: functionDefn where
  "g_int =
     \<lparr>fn_addr = 23, fn_name = ''g'', storageClass = Storage_Global, isCtor = False,
      fn_isTemplate = False, fn_isTemplateMember = False,
      functionType =
        FunctionType [ParameterDefn ''x'' (PrimitiveType ''int32'')] None
          (Some (PrimitiveType ''int32'')) True\<rparr>"

definition g_string :: functionDefn where
  "g_string =
     \<lparr>fn_addr = 24, fn_name = ''g'', storageClass = Storage_Global, isCtor = False,
      fn_isTemplate = False, fn_isTemplateMember = False,
      functionType =
        FunctionType [ParameterDefn ''x'' typeString] None (Some typeString) True\<rparr>"

definition candidateOf :: "expr option \<Rightarrow> functionDefn \<Rightarrow> parameterAssignments \<Rightarrow> callCandidate" where
  "candidateOf b m pa = CallCandidate 7 b (Some m) (functionType m) pa False"

definition ctor_call :: callExpr where
  "ctor_call =
     CallNode 7 Construct None None
       [candidateOf (Some (NewExpr typeString)) construct0 [],
        candidateOf (Some (NewExpr typeString)) construct1 [0]]
       [] (Some typeString)"

definition g_call :: callExpr where
  "g_call =
     CallNode 7 Call None None [candidateOf None g_int [0], candidateOf None g_string [0]]
       [] None"

text \<open>
  A static factory \<open>create\<close> of \<open>String\<close>, and an instance of the out-of-source
  functions in which the member scope of every type is at address 5 and declares the two
  constructors and the factory. The type definition of \<open>String\<close> is not a template.
\<close>

definition create_string :: functionDefn where
  "create_string =
     \<lparr>fn_addr = 25, fn_name = ''create'', storageClass = Storage_Static, isCtor = False,
      fn_isTemplate = False, fn_isTemplateMember = False,
      functionType =
        FunctionType [ParameterDefn ''s'' typeString] None (Some typeString) True\<rparr>"

definition string_members :: "scope_ptr \<Rightarrow> ident \<Rightarrow> bool \<Rightarrow> defn list" where
  "string_members sc n inh =
     (if sc = 5 \<and> n = ''construct'' then [FunctionDefn construct0, FunctionDefn construct1]
      else if sc = 5 \<and> n = ''create'' then [FunctionDefn create_string]
      else [])"

definition string_externs :: externs where
  "string_externs =
     example_externs\<lparr>Type_memberScope := (\<lambda>t. 5), Scope_lookupMember := string_members\<rparr>"

definition stringDefn :: typeDefn where
  "stringDefn =
     \<lparr>type_name = ''String'', typeValue = typeString, isTemplate = False,
      isTemplateMember = False, definingScope = Some 3\<rparr>"


definition empty_state :: astate where
  "empty_state = \<lparr>diags = [], moduleSymbols = []\<rparr>"


text \<open>
  For calls by name: a global function \<open>g\<close> with two parameters; the lvalue that the
  name \<open>g\<close> resolves to; and an instance of the out-of-source functions in which the
  name lookup finds \<open>g(int32)\<close>, every argument reduces to an expression of type
  \<open>String\<close>, and the scope that defines \<open>String\<close> (at address 3) declares
  \<open>g(String)\<close> and the \<open>g\<close> with two parameters.
\<close>

definition g_two :: functionDefn where
  "g_two =
     \<lparr>fn_addr = 26, fn_name = ''g'', storageClass = Storage_Global, isCtor = False,
      fn_isTemplate = False, fn_isTemplateMember = False,
      functionType =
        FunctionType [ParameterDefn ''x'' typeString, ParameterDefn ''y'' typeString] None
          (Some typeString) True\<rparr>"

definition g_lvalue :: expr where
  "g_lvalue = LValueExpr (FunctionTy (functionType g_int)) None (FunctionDefn g_int)"

definition string_arg :: expr where
  "string_arg = ArglistExpr TupleCtor typeString []"

definition adl_members :: "scope_ptr \<Rightarrow> ident \<Rightarrow> bool \<Rightarrow> defn list" where
  "adl_members sc n inh =
     (if sc = 3 \<and> n = ''g'' \<and> inh then [FunctionDefn g_string, FunctionDefn g_two] else [])"

definition adl_externs :: externs where
  "adl_externs =
     example_externs
       \<lparr>reduceExpr := (\<lambda>n t. string_arg),
        lookupName := (\<lambda>n. [g_lvalue]),
        Type_typeDefn := (\<lambda>t. if t = typeString then Some stringDefn else None),
        Scope_lookupMember := adl_members\<rparr>"

text \<open>
  The call \<open>g("hi")\<close> after the overloads from the name lookup have been added and the
  argument has been reduced, and after argument-dependent lookup.
\<close>

definition g_call_reduced :: callExpr where
  "g_call_reduced = CallNode 7 Call None None [candidateOf None g_int [0]] [string_arg] None"

definition g_call_adl :: callExpr where
  "g_call_adl =
     CallNode 7 Call None None [candidateOf None g_int [0], candidateOf None g_string [0]]
       [string_arg] None"

text \<open>
  A variable \<open>v\<close> of function type, and an instance in which the name lookup finds it
  and its analysis fails. An instance in which the name lookup finds nothing while the
  scope that defines \<open>String\<close> declares \<open>g(String)\<close>.
\<close>

definition v_lvalue :: expr where
  "v_lvalue =
     LValueExpr (FunctionTy (functionType g_int)) None
       (VariableDefn \<lparr>var_name = ''v'', defnType = Var,
                       var_type = FunctionTy (functionType g_int)\<rparr>)"

definition var_externs :: externs where
  "var_externs =
     example_externs\<lparr>analyzeValueDefn := (\<lambda>d t. False), lookupName := (\<lambda>n. [v_lvalue])\<rparr>"

definition adl_only_externs :: externs where
  "adl_only_externs = adl_externs\<lparr>lookupName := (\<lambda>n. [])\<rparr>"

text \<open>
  A second function object \<open>g(String)\<close>, equal to the first in name and type, and an
  instance in which the scope that defines \<open>String\<close> declares both.
\<close>

definition g_twin :: functionDefn where
  "g_twin = g_string\<lparr>fn_addr := 27\<rparr>"

definition twin_members :: "scope_ptr \<Rightarrow> ident \<Rightarrow> bool \<Rightarrow> defn list" where
  "twin_members sc n inh =
     (if sc = 3 \<and> n = ''g'' \<and> inh then [FunctionDefn g_string, FunctionDefn g_twin] else [])"

definition twin_externs :: externs where
  "twin_externs = adl_externs\<lparr>Scope_lookupMember := twin_members\<rparr>"

text \<open>
  An instance in which the name lookup finds the function \<open>g(int32)\<close> and no analysis
  of a definition succeeds.
\<close>

definition unanalyzed_externs :: externs where
  "unanalyzed_externs = adl_externs\<lparr>analyzeValueDefn := (\<lambda>d t. False)\<rparr>"


section \<open>Verification\<close>


subsection \<open>Singularity of expression nodes\<close>

lemma ArglistExpr_isSingular_list_all:
  "ArglistExpr_isSingular X as = list_all (isSingular X) as"
  by (induction as) simp_all

text \<open>
  Claim C1 as stated in the specification fails for the argument-list expressions:
  \<open>ArglistExpr::isSingular\<close> looks at the arguments only. An array literal without
  elements whose type \<open>Array[T]\<close> still holds a pattern variable is reported singular,
  and so is a function call node whose own type is a pattern variable.
\<close>

theorem arglist_isSingular_ignores_type:
  "isSingular example_externs empty_array_literal \<and>
   \<not> spec_isSingular example_externs empty_array_literal \<and>
   expr_type empty_array_literal = Some open_array_type \<and>
   \<not> type_isSingular open_array_type \<and>
   isSingular example_externs open_fn_call \<and>
   \<not> spec_isSingular example_externs open_fn_call"
  by (simp add: empty_array_literal_def open_array_type_def open_fn_call_def
      example_externs_def spec_isSingular_def)

text \<open>
  Claim C1, amended. For unary, binary, binary-opcode and \<open>new\<close> nodes \<open>isSingular()\<close>
  holds exactly when the node's own type is singular and every child is singular. For
  \<open>LValueExpr\<close> (children: base and value), \<open>InitVarExpr\<close>, \<open>BoundMethodExpr\<close>,
  \<open>FnCallExpr\<close>, \<open>IndirectCallExpr\<close> and a plain \<open>ArglistExpr\<close> it holds exactly
  when every child is singular; the node's own type is not consulted. An instance test
  also needs its target type singular. A \<open>CallExpr\<close> needs singular arguments and
  either exactly one candidate, which is singular, or no candidate and a singular function
  expression. A \<open>ScopeNameExpr\<close> is always singular.
\<close>

theorem isSingular_by_class:
  "isSingular X (UnaryExpr k t a) = spec_isSingular X (UnaryExpr k t a) \<and>
   isSingular X (BinaryExpr k t a b) = spec_isSingular X (BinaryExpr k t a b) \<and>
   isSingular X (BinaryOpcodeExpr t opc a b) = spec_isSingular X (BinaryOpcodeExpr t opc a b) \<and>
   isSingular X (NewExpr t) = spec_isSingular X (NewExpr t) \<and>
   isSingular X (LValueExpr t bs v) = children_isSingular X (LValueExpr t bs v) \<and>
   isSingular X (InitVarExpr t v a) = children_isSingular X (InitVarExpr t v a) \<and>
   isSingular X (BoundMethodExpr t bs v) = children_isSingular X (BoundMethodExpr t bs v) \<and>
   isSingular X (FnCallExpr k t v as) = children_isSingular X (FnCallExpr k t v as) \<and>
   isSingular X (IndirectCallExpr k t a as) = children_isSingular X (IndirectCallExpr k t a as) \<and>
   isSingular X (ArglistExpr k t as) = children_isSingular X (ArglistExpr k t as) \<and>
   isSingular X (InstanceOfExpr a t) =
     (spec_isSingular X (InstanceOfExpr a t) \<and> type_isSingular t) \<and>
   isSingular X (CallExpr (CallNode ca k topt f cs as ex)) =
     (children_isSingular X (CallExpr (CallNode ca k topt f cs as ex)) \<and>
      (case cs of
         [] \<Rightarrow> (case f of None \<Rightarrow> False | Some g \<Rightarrow> isSingular X g)
       | c # rest \<Rightarrow> rest = [] \<and> CallCandidate_isSingular X c)) \<and>
   isSingular X (ScopeNameExpr t v) = True"
proof -
  have unary: "isSingular X (UnaryExpr k t a) = spec_isSingular X (UnaryExpr k t a)"
    by (simp add: spec_isSingular_def children_isSingular_def)
  have binary: "isSingular X (BinaryExpr k t a b) = spec_isSingular X (BinaryExpr k t a b)"
    by (simp add: spec_isSingular_def children_isSingular_def)
  have opcode:
    "isSingular X (BinaryOpcodeExpr t opc a b) = spec_isSingular X (BinaryOpcodeExpr t opc a b)"
    by (simp add: spec_isSingular_def children_isSingular_def)
  have new: "isSingular X (NewExpr t) = spec_isSingular X (NewExpr t)"
    by (simp add: spec_isSingular_def children_isSingular_def)
  have lvalue: "isSingular X (LValueExpr t bs v) = children_isSingular X (LValueExpr t bs v)"
    by (cases bs) (simp_all add: children_isSingular_def)
  have initvar: "isSingular X (InitVarExpr t v a) = children_isSingular X (InitVarExpr t v a)"
    by (simp add: children_isSingular_def)
  have bound:
    "isSingular X (BoundMethodExpr t bs v) = children_isSingular X (BoundMethodExpr t bs v)"
    by (cases bs) (simp_all add: children_isSingular_def)
  have fncall: "isSingular X (FnCallExpr k t v as) = children_isSingular X (FnCallExpr k t v as)"
    by (auto simp: children_isSingular_def ArglistExpr_isSingular_list_all)
  have indirect:
    "isSingular X (IndirectCallExpr k t a as) = children_isSingular X (IndirectCallExpr k t a as)"
    by (simp add: children_isSingular_def ArglistExpr_isSingular_list_all)
  have arglist: "isSingular X (ArglistExpr k t as) = children_isSingular X (ArglistExpr k t as)"
    by (simp add: children_isSingular_def ArglistExpr_isSingular_list_all)
  have inst:
    "isSingular X (InstanceOfExpr a t) =
       (spec_isSingular X (InstanceOfExpr a t) \<and> type_isSingular t)"
    by (simp add: spec_isSingular_def children_isSingular_def)
  have call:
    "isSingular X (CallExpr (CallNode ca k topt f cs as ex)) =
       (children_isSingular X (CallExpr (CallNode ca k topt f cs as ex)) \<and>
        (case cs of
           [] \<Rightarrow> (case f of None \<Rightarrow> False | Some g \<Rightarrow> isSingular X g)
         | c # rest \<Rightarrow> rest = [] \<and> CallCandidate_isSingular X c))"
    by (simp add: children_isSingular_def ArglistExpr_isSingular_list_all)
  have scopename: "isSingular X (ScopeNameExpr t v) = True"
    by simp
  from unary binary opcode new lvalue initvar bound fncall indirect arglist inst call scopename
  show ?thesis by blast
qed


subsection \<open>Delegating and local scopes\<close>

lemma allowOverloads_leaf:
  "st this = IterableScope m par \<or> st this = LocalScope m par \<Longrightarrow>
   allowOverloads st this = Some IterableScope_allowOverloads"
  by (subst allowOverloads.simps) auto

lemma delegating_store_self:
  "(DelegatingScope_new st this s p) this = DelegatingScope s p"
  by (simp add: DelegatingScope_new_def)


text \<open>
  The same on a concrete store: the target scope at address 11 has parent 10 and one member;
  the delegating scope at address 13 is given parent 12. Its parent is 12, not 10, and a
  lookup through it finds the member of the target.
\<close>

lemma DelegatingScope_example:
  "parentScope scope_example 11 = Some 10 \<and>
   parentScope (DelegatingScope_new scope_example 13 11 (Some 12)) 13 = Some 12 \<and>
   lookupMember (DelegatingScope_new scope_example 13 11 (Some 12)) 13 ''f'' [] False =
     Some (True, [FunctionDefn example_f]) \<and>
   allowOverloads (DelegatingScope_new scope_example 13 11 (Some 12)) 13 = Some True \<and>
   getBaseExpr (DelegatingScope_new scope_example 13 11 (Some 12)) 13 = Some None"
proof -
  let ?st = "DelegatingScope_new scope_example 13 11 (Some 12)"
  have tgt: "?st 11 = IterableScope [(''f'', [FunctionDefn example_f])] (Some 10)"
    by (simp add: DelegatingScope_new_def scope_example_def)
  have obj: "?st 13 = DelegatingScope 11 (Some 12)"
    by (rule delegating_store_self)
  have "lookupMember ?st 11 ''f'' [] False = Some (True, [FunctionDefn example_f])"
    by (subst lookupMember.simps)
      (simp add: tgt IterableScope_lookupMember_def findSymbol_def)
  then have "lookupMember ?st 13 ''f'' [] False = Some (True, [FunctionDefn example_f])"
    by (subst lookupMember.simps) (simp add: obj)
  moreover have "allowOverloads ?st 11 = Some True"
    by (subst allowOverloads.simps) (simp add: tgt IterableScope_allowOverloads_def)
  then have "allowOverloads ?st 13 = Some True"
    by (subst allowOverloads.simps) (simp add: obj)
  moreover have "getBaseExpr ?st 11 = Some None"
    by (subst getBaseExpr.simps) (simp add: tgt Scope_getBaseExpr_def)
  then have "getBaseExpr ?st 13 = Some None"
    by (subst getBaseExpr.simps) (simp add: obj)
  moreover have "parentScope scope_example 11 = Some 10"
    by (simp add: parentScope_def scope_example_def)
  moreover have "parentScope ?st 13 = Some 12"
    by (simp add: parentScope_def obj)
  ultimately show ?thesis by blast
qed

text \<open>
  Claim C9 asks for \<open>LocalScope::allowOverloads()\<close> to be false. \<open>LocalScope\<close> does not
  override the method, so the call runs \<open>IterableScope::allowOverloads\<close>: a local scope
  constructed with any parent answers true.
\<close>

theorem LocalScope_allowOverloads_true:
  "\<exists>st'. LocalScope_new st this (Some par) = Some st' \<and> allowOverloads st' this = Some True"
proof -
  have "allowOverloads (st(this := LocalScope [] (Some par))) this = Some True"
    by (subst allowOverloads.simps) (simp add: IterableScope_allowOverloads_def)
  then show ?thesis
    by (simp add: LocalScope_new_def)
qed


subsection \<open>The sweep keeps the marks of the survivors\<close>

lemma alloc_chain_suffix:
  "alloc_chain h p (us @ x # vs) \<Longrightarrow> alloc_chain h (Some x) (x # vs)"
proof (induction us arbitrary: p)
  case Nil
  then show ?case by (cases p) auto
next
  case (Cons u us)
  then show ?case by (cases p) auto
qed

lemma alloc_chain_unique:
  "alloc_chain h p xs \<Longrightarrow> alloc_chain h p ys \<Longrightarrow> xs = ys"
proof (induction xs arbitrary: p ys)
  case Nil
  then show ?case by (cases p) auto
next
  case (Cons x xs)
  then show ?case by (cases p; cases ys) auto
qed

lemma alloc_chain_head_notin:
  assumes "alloc_chain h (Some a) (a # xs)"
  shows "a \<notin> set xs"
proof
  assume "a \<in> set xs"
  then obtain us vs where xs: "xs = us @ a # vs"
    by (auto simp: in_set_conv_decomp)
  from assms have "alloc_chain h (Some a) ((a # us) @ a # vs)"
    by (simp add: xs)
  then have "alloc_chain h (Some a) (a # vs)"
    by (rule alloc_chain_suffix)
  with assms have "a # xs = a # vs"
    by (rule alloc_chain_unique)
  then show False by (simp add: xs)
qed

lemma alloc_chain_frame:
  "alloc_chain h p xs \<Longrightarrow> \<forall>x\<in>set xs. gc_next (h' x) = gc_next (h x) \<Longrightarrow> alloc_chain h' p xs"
proof (induction xs arbitrary: p)
  case Nil
  then show ?case by (cases p) auto
next
  case (Cons x xs)
  then show ?case by (cases p) auto
qed

text \<open>Allocation at an address that is not on the list keeps the list well formed.\<close>

lemma gc_new_chain:
  assumes "gc_new a s = Inr s'" and "alloc_chain (objs s) (allocList s) xs" and "a \<notin> set xs"
  shows "alloc_chain (objs s') (allocList s') (a # xs)"
proof -
  from assms(1) have s': "s' = s\<lparr>objs := (objs s)(a := (objs s a)\<lparr>gc_next := allocList s\<rparr>),
      allocList := Some a\<rparr>"
    by (simp add: gc_new_def split: if_splits)
  have "\<forall>x\<in>set xs. gc_next (objs s' x) = gc_next (objs s x)"
    using assms(3) by (auto simp: s')
  with assms(2) have "alloc_chain (objs s') (allocList s) xs"
    by (rule alloc_chain_frame)
  then show ?thesis
    by (simp add: s')
qed

lemma sweep_loop_chain:
  "alloc_chain (objs s) (load_ref s ptr) xs \<Longrightarrow> (\<forall>a. ptr = NextRef a \<longrightarrow> a \<notin> set xs) \<Longrightarrow>
   \<exists>s'. sweep_loop ptr s = Some s' \<and> sweep_post ptr xs s s'"
proof (induction xs arbitrary: s ptr)
  case Nil
  then have "load_ref s ptr = None"
    by (cases "load_ref s ptr") auto
  then show ?case
    by (subst sweep_loop.simps) (simp add: sweep_post_def)
next
  case (Cons x xs)
  from Cons.prems(1) have ld: "load_ref s ptr = Some x"
    by (cases "load_ref s ptr") auto
  with Cons.prems(1) have ch: "alloc_chain (objs s) (gc_next (objs s x)) xs"
    by simp
  from Cons.prems(1) ld have "alloc_chain (objs s) (Some x) (x # xs)"
    by simp
  then have xn: "x \<notin> set xs"
    by (rule alloc_chain_head_notin)
  show ?case
  proof (cases "marked (objs s x)")
    case True
    have "alloc_chain (objs s) (load_ref s (NextRef x)) xs"
      using ch by (simp add: load_ref_def)
    moreover have "\<forall>a. NextRef x = NextRef a \<longrightarrow> a \<notin> set xs"
      using xn by simp
    ultimately obtain s' where run: "sweep_loop (NextRef x) s = Some s'"
      and post: "sweep_post (NextRef x) xs s s'"
      using Cons.IH by blast
    have "load_ref s' ptr = Some x"
    proof (cases ptr)
      case AllocListRef
      with post ld show ?thesis by (simp add: sweep_post_def load_ref_def)
    next
      case (NextRef a)
      with Cons.prems(2) have "a \<notin> set xs" "a \<noteq> x" by auto
      with post have "objs s' a = objs s a" by (simp add: sweep_post_def)
      with NextRef ld show ?thesis by (simp add: load_ref_def)
    qed
    moreover have "x \<noteq> a \<Longrightarrow> a \<notin> set xs \<Longrightarrow> ptr \<noteq> NextRef a \<Longrightarrow> objs s' a = objs s a" for a
      using post by (simp add: sweep_post_def)
    ultimately have "sweep_post ptr (x # xs) s s'"
      using post True by (auto simp: sweep_post_def load_ref_def)
    moreover have "sweep_loop ptr s = Some s'"
      using ld True run by (subst sweep_loop.simps) simp
    ultimately show ?thesis by blast
  next
    case False
    define s1 where "s1 = free x (store_ref ptr (gc_next (objs s x)) s)"
    have mk: "marked (objs s1 a) = marked (objs s a)" for a
      by (cases ptr) (simp_all add: s1_def free_def store_ref_def)
    have ld1: "load_ref s1 ptr = gc_next (objs s x)"
      by (cases ptr) (simp_all add: s1_def free_def store_ref_def load_ref_def)
    have "\<forall>y\<in>set xs. gc_next (objs s1 y) = gc_next (objs s y)"
      using Cons.prems(2) by (cases ptr) (auto simp: s1_def free_def store_ref_def)
    with ch have "alloc_chain (objs s1) (load_ref s1 ptr) xs"
      by (simp add: ld1 alloc_chain_frame)
    moreover have "\<forall>a. ptr = NextRef a \<longrightarrow> a \<notin> set xs"
      using Cons.prems(2) by simp
    ultimately obtain s' where run: "sweep_loop ptr s1 = Some s'"
      and post: "sweep_post ptr xs s1 s'"
      using Cons.IH by blast
    have fr: "freed s1 = freed s @ [x]" "reclaimed s1 = reclaimed s" "total s1 = total s"
      "debugLevel s1 = debugLevel s" "diag_info s1 = diag_info s" "destroyed s1 = destroyed s"
      "initialized s1 = initialized s"
      by (cases ptr; simp add: s1_def free_def store_ref_def)+
    have al: "ptr \<noteq> AllocListRef \<Longrightarrow> allocList s1 = allocList s"
      by (cases ptr) (simp_all add: s1_def free_def store_ref_def)
    have ob: "ptr \<noteq> NextRef a \<Longrightarrow> objs s1 a = objs s a" for a
      by (cases ptr) (auto simp: s1_def free_def store_ref_def)
    have "sweep_post ptr (x # xs) s s'"
      using post False fr al ob by (auto simp: sweep_post_def mk)
    moreover have "sweep_loop ptr s = Some s'"
      using ld False run by (subst sweep_loop.simps) (simp add: s1_def)
    ultimately show ?thesis by blast
  qed
qed


text \<open>
  Claim C10. On a well-formed allocation list \<open>GC::sweep\<close> returns; afterwards the list
  holds exactly the objects that were marked, in their order, the unmarked ones have been
  freed, and no mark bit has changed, so every survivor is still marked. A second sweep
  right after it returns as well, frees nothing more and leaves the same list.
\<close>

theorem sweep_keeps_survivor_marks:
  assumes "alloc_chain (objs s) (allocList s) xs"
  shows "\<exists>s'. sweep s = Some s' \<and>
           alloc_chain (objs s') (allocList s') (filter (\<lambda>a. marked (objs s a)) xs) \<and>
           freed s' = freed s @ filter (\<lambda>a. \<not> marked (objs s a)) xs \<and>
           (\<forall>a. marked (objs s' a) = marked (objs s a)) \<and>
           list_all (\<lambda>a. marked (objs s' a)) (filter (\<lambda>a. marked (objs s a)) xs) \<and>
           (\<exists>s''. sweep s' = Some s'' \<and> freed s'' = freed s' \<and>
              alloc_chain (objs s'') (allocList s'') (filter (\<lambda>a. marked (objs s a)) xs))"
proof -
  let ?keep = "filter (\<lambda>a. marked (objs s a)) xs"
  let ?s0 = "s\<lparr>reclaimed := 0, total := 0\<rparr>"
  have "alloc_chain (objs ?s0) (load_ref ?s0 AllocListRef) xs"
    using assms by (simp add: load_ref_def)
  then obtain s1 where run1: "sweep_loop AllocListRef ?s0 = Some s1"
    and post1: "sweep_post AllocListRef xs ?s0 s1"
    using sweep_loop_chain [of ?s0 AllocListRef xs] by auto
  define s' where
    "s' = (if debugLevel s1 \<noteq> 0
           then s1\<lparr>diag_info := diag_info s1 @ [GCInfo (reclaimed s1) (total s1 - reclaimed s1)]\<rparr>
           else s1)"
  have sw1: "sweep s = Some s'"
    by (simp add: sweep_def run1 s'_def)
  have flds: "objs s' = objs s1" "allocList s' = allocList s1" "freed s' = freed s1"
    by (simp_all add: s'_def)
  have chain1: "alloc_chain (objs s') (allocList s') ?keep"
    using post1 by (simp add: sweep_post_def load_ref_def flds)
  have marks1: "marked (objs s' a) = marked (objs s a)" for a
    using post1 by (simp add: sweep_post_def flds)
  have freed1: "freed s' = freed s @ filter (\<lambda>a. \<not> marked (objs s a)) xs"
    using post1 by (simp add: sweep_post_def flds)
  have surv: "list_all (\<lambda>a. marked (objs s' a)) ?keep"
    by (simp add: list_all_iff marks1)
  let ?t0 = "s'\<lparr>reclaimed := 0, total := 0\<rparr>"
  have "alloc_chain (objs ?t0) (load_ref ?t0 AllocListRef) ?keep"
    using chain1 by (simp add: load_ref_def)
  then obtain s2 where run2: "sweep_loop AllocListRef ?t0 = Some s2"
    and post2: "sweep_post AllocListRef ?keep ?t0 s2"
    using sweep_loop_chain [of ?t0 AllocListRef ?keep] by auto
  define s'' where
    "s'' = (if debugLevel s2 \<noteq> 0
            then s2\<lparr>diag_info := diag_info s2 @ [GCInfo (reclaimed s2) (total s2 - reclaimed s2)]\<rparr>
            else s2)"
  have sw2: "sweep s' = Some s''"
    by (simp add: sweep_def run2 s''_def)
  have flds2: "objs s'' = objs s2" "allocList s'' = allocList s2" "freed s'' = freed s2"
    by (simp_all add: s''_def)
  have keep2: "filter (\<lambda>a. marked (objs ?t0 a)) ?keep = ?keep"
    by (simp add: marks1 filter_id_conv)
  have none2: "filter (\<lambda>a. \<not> marked (objs ?t0 a)) ?keep = []"
    by (simp add: marks1 filter_empty_conv)
  have "freed s'' = freed s'"
    using post2 none2 by (simp add: sweep_post_def flds2)
  moreover have "alloc_chain (objs s'') (allocList s'') ?keep"
    using post2 keep2 by (simp add: sweep_post_def load_ref_def flds2)
  ultimately show ?thesis
    using sw1 chain1 freed1 marks1 surv sw2 by blast
qed

theorem sweep_keeps_survivor_marks_witness:
  "alloc_chain (objs gc_example) (allocList gc_example) [2, 1, 0] \<and>
   (\<exists>s'. sweep gc_example = Some s' \<and>
      alloc_chain (objs s') (allocList s') [2, 0] \<and>
      freed s' = [1] \<and>
      marked (objs s' 2) \<and> marked (objs s' 0) \<and>
      (\<exists>s''. sweep s' = Some s'' \<and> freed s'' = [1] \<and>
         alloc_chain (objs s'') (allocList s'') [2, 0]))"
proof -
  have h: "alloc_chain (objs gc_example) (allocList gc_example) [2, 1, 0]"
    by (simp add: gc_example_def)
  have f1: "filter (\<lambda>a. marked (objs gc_example a)) [2, 1, 0] = [2, 0]"
    by (simp add: gc_example_def)
  have f2: "filter (\<lambda>a. \<not> marked (objs gc_example a)) [2, 1, 0] = [1]"
    by (simp add: gc_example_def)
  have f3: "freed gc_example = []" "marked (objs gc_example 2)" "marked (objs gc_example 0)"
    by (simp_all add: gc_example_def)
  show ?thesis
    using h sweep_keeps_survivor_marks [OF h] unfolding f1 f2 by (auto simp: f3)
qed


subsection \<open>The union type test\<close>

text \<open>
  Claim C7 as stated fails for a union of reference types only: the target type's index is
  never looked up there, and the generated value is a call of \<open>hasBase\<close>, a runtime test,
  although the target is not a member of the union.
\<close>

theorem reference_union_test_is_runtime:
  "getTypeIndex reference_union typeRange = -1 \<and>
   genUnionTypeTest [] (Param ''u'') reference_union typeRange False =
     Inr (CallInst (FunctionValue ''hasBase'')
            [Load (InBoundsGEP (BitCast (BitCast (Param ''u'') (IrEmbeddedType typeRange))
                                  (PointerTo (IrType typeObject)))
                     [Int32Val 0, Int32Val 0]),
             TypeInfoBlockPtr typeRange],
          [BitCast (Param ''u'') (IrEmbeddedType typeRange),
           BitCast (BitCast (Param ''u'') (IrEmbeddedType typeRange))
             (PointerTo (IrType typeObject)),
           InBoundsGEP (BitCast (BitCast (Param ''u'') (IrEmbeddedType typeRange))
                          (PointerTo (IrType typeObject)))
             [Int32Val 0, Int32Val 0],
           Load (InBoundsGEP (BitCast (BitCast (Param ''u'') (IrEmbeddedType typeRange))
                                (PointerTo (IrType typeObject)))
                   [Int32Val 0, Int32Val 0]),
           CallInst (FunctionValue ''hasBase'')
             [Load (InBoundsGEP (BitCast (BitCast (Param ''u'') (IrEmbeddedType typeRange))
                                   (PointerTo (IrType typeObject)))
                      [Int32Val 0, Int32Val 0]),
              TypeInfoBlockPtr typeRange]]) \<and>
   genUnionTypeTest [] (Param ''u'') reference_union typeRange False \<noteq>
     Inr (ConstantFalse, [])"
  by (simp add: genUnionTypeTest_def genCompositeTypeTest_def getTypeIndex_def
      numValueTypes_def hasVoidType_def reference_union_def typeRange_def typeString_def
      typeThrowable_def typeObject_def funcHasBase_def emit_def Let_def)

text \<open>
  Claim C7, amended. For a union type with at least one value-type member or a void
  member, a test against a type that is not a member yields the constant false, and the
  only instructions inserted are those that read the type index of the value. For a union
  of reference types only, the member index is not consulted: the result is the same for
  every such union, member or not. For a target \<open>T\<close> that is a class or an interface it
  is the call of \<open>hasBase\<close> on the type-info block pointer loaded from the value (the
  value itself first loaded if it is an lvalue, then cast to \<open>T\<close>'s embedded type and
  to a pointer to \<open>Object\<close>) and on the type-info block of \<open>T\<close>, and these five or
  six instructions are the ones inserted; for a composite target of another class the
  assertion of the composite test fails after the first cast, and for a target that is not
  a composite type the cast of the target fails.
\<close>

theorem genUnionTypeTest_nonmember:
  "(getTypeIndex u toType < 0 \<and> (numValueTypes u > 0 \<or> hasVoidType u) \<longrightarrow>
      genUnionTypeTest b inp u toType valIsLVal =
        Inr (ConstantFalse,
             b @ (if valIsLVal
                  then [ConstInBoundsGEP2_32 inp 0 0, Load (ConstInBoundsGEP2_32 inp 0 0)]
                  else [ExtractValue inp 0]))) \<and>
   (\<not> (numValueTypes u > 0 \<or> hasVoidType u) \<and> \<not> (numValueTypes u' > 0 \<or> hasVoidType u') \<longrightarrow>
      genUnionTypeTest b inp u toType valIsLVal = genUnionTypeTest b inp u' toType valIsLVal) \<and>
   (\<not> (numValueTypes u > 0 \<or> hasVoidType u) \<longrightarrow>
      genUnionTypeTest b inp u toType valIsLVal =
        (let loaded = (if valIsLVal then [Load inp] else []);
             val = (if valIsLVal then Load inp else inp);
             refTypeVal = BitCast val (IrEmbeddedType toType);
             valueAsObjType = BitCast refTypeVal (PointerTo (IrType typeObject));
             gep = InBoundsGEP valueAsObjType [Int32Val 0, Int32Val 0];
             tib = Load gep;
             result = CallInst (FunctionValue ''hasBase'') [tib, TypeInfoBlockPtr toType]
         in if isClassOrInterface toType
            then Inr (result, b @ loaded @ [refTypeVal, valueAsObjType, gep, tib, result])
            else if cast_CompositeType toType = None then Inl BadCast
            else Inl codegen_abort.AssertionFailed))"
proof (intro conjI impI)
  assume "getTypeIndex u toType < 0 \<and> (numValueTypes u > 0 \<or> hasVoidType u)"
  then show "genUnionTypeTest b inp u toType valIsLVal =
      Inr (ConstantFalse,
           b @ (if valIsLVal
                then [ConstInBoundsGEP2_32 inp 0 0, Load (ConstInBoundsGEP2_32 inp 0 0)]
                else [ExtractValue inp 0]))"
    by (simp add: genUnionTypeTest_def emit_def)
next
  assume "\<not> (numValueTypes u > 0 \<or> hasVoidType u) \<and> \<not> (numValueTypes u' > 0 \<or> hasVoidType u')"
  then show "genUnionTypeTest b inp u toType valIsLVal =
      genUnionTypeTest b inp u' toType valIsLVal"
    by (simp add: genUnionTypeTest_def)
next
  assume a: "\<not> (numValueTypes u > 0 \<or> hasVoidType u)"
  show "genUnionTypeTest b inp u toType valIsLVal =
      (let loaded = (if valIsLVal then [Load inp] else []);
           val = (if valIsLVal then Load inp else inp);
           refTypeVal = BitCast val (IrEmbeddedType toType);
           valueAsObjType = BitCast refTypeVal (PointerTo (IrType typeObject));
           gep = InBoundsGEP valueAsObjType [Int32Val 0, Int32Val 0];
           tib = Load gep;
           result = CallInst (FunctionValue ''hasBase'') [tib, TypeInfoBlockPtr toType]
       in if isClassOrInterface toType
          then Inr (result, b @ loaded @ [refTypeVal, valueAsObjType, gep, tib, result])
          else if cast_CompositeType toType = None then Inl BadCast
          else Inl codegen_abort.AssertionFailed)"
  proof (cases "cast_CompositeType toType")
    case None
    then have "\<not> isClassOrInterface toType"
      by (cases toType) auto
    with a None show ?thesis
      by (simp add: genUnionTypeTest_def emit_def Let_def)
  next
    case (Some cto)
    then have cto: "cto = toType"
      by (cases toType) auto
    show ?thesis
    proof (cases "isClassOrInterface toType")
      case False
      with a Some cto show ?thesis
        by (simp add: genUnionTypeTest_def genCompositeTypeTest_def emit_def Let_def)
    next
      case True
      with a Some cto show ?thesis
        by (simp add: genUnionTypeTest_def genCompositeTypeTest_def emit_def Let_def
            funcHasBase_def)
    qed
  qed
qed

theorem genUnionTypeTest_nonmember_witness:
  "getTypeIndex tagged_union typeRange < 0 \<and>
   (numValueTypes tagged_union > 0 \<or> hasVoidType tagged_union) \<and>
   genUnionTypeTest [] (Param ''u'') tagged_union typeRange False =
     Inr (ConstantFalse, [ExtractValue (Param ''u'') 0]) \<and>
   genUnionTypeTest [] (Param ''u'') tagged_union typeRange True =
     Inr (ConstantFalse,
          [ConstInBoundsGEP2_32 (Param ''u'') 0 0, Load (ConstInBoundsGEP2_32 (Param ''u'') 0 0)]) \<and>
   \<not> (numValueTypes reference_union > 0 \<or> hasVoidType reference_union) \<and>
   \<not> (numValueTypes [typeRange] > 0 \<or> hasVoidType [typeRange]) \<and>
   getTypeIndex reference_union typeRange < 0 \<and>
   getTypeIndex [typeRange] typeRange = 0 \<and>
   genUnionTypeTest [] (Param ''u'') reference_union typeRange True =
     genUnionTypeTest [] (Param ''u'') [typeRange] typeRange True \<and>
   genUnionTypeTest [] (Param ''u'') reference_union typeRange True =
     Inr (CallInst (FunctionValue ''hasBase'')
            [Load (InBoundsGEP (BitCast (BitCast (Load (Param ''u'')) (IrEmbeddedType typeRange))
                                  (PointerTo (IrType typeObject)))
                     [Int32Val 0, Int32Val 0]),
             TypeInfoBlockPtr typeRange],
          [Load (Param ''u''),
           BitCast (Load (Param ''u'')) (IrEmbeddedType typeRange),
           BitCast (BitCast (Load (Param ''u'')) (IrEmbeddedType typeRange))
             (PointerTo (IrType typeObject)),
           InBoundsGEP (BitCast (BitCast (Load (Param ''u'')) (IrEmbeddedType typeRange))
                          (PointerTo (IrType typeObject)))
             [Int32Val 0, Int32Val 0],
           Load (InBoundsGEP (BitCast (BitCast (Load (Param ''u'')) (IrEmbeddedType typeRange))
                                (PointerTo (IrType typeObject)))
                   [Int32Val 0, Int32Val 0]),
           CallInst (FunctionValue ''hasBase'')
             [Load (InBoundsGEP (BitCast (BitCast (Load (Param ''u'')) (IrEmbeddedType typeRange))
                                   (PointerTo (IrType typeObject)))
                      [Int32Val 0, Int32Val 0]),
              TypeInfoBlockPtr typeRange]]) \<and>
   genUnionTypeTest [] (Param ''u'') reference_union (PrimitiveType ''int32'') False =
     Inl BadCast"
proof -
  have h: "getTypeIndex tagged_union typeRange < 0"
    by (simp add: getTypeIndex_def tagged_union_def typeRange_def typeString_def)
  have v: "numValueTypes tagged_union > 0 \<or> hasVoidType tagged_union"
    by (simp add: numValueTypes_def tagged_union_def typeString_def)
  have r: "\<not> (numValueTypes reference_union > 0 \<or> hasVoidType reference_union)"
    by (simp add: numValueTypes_def hasVoidType_def reference_union_def typeString_def
        typeThrowable_def)
  have r': "\<not> (numValueTypes [typeRange] > 0 \<or> hasVoidType [typeRange])"
    by (simp add: numValueTypes_def hasVoidType_def typeRange_def)
  have i: "getTypeIndex reference_union typeRange < 0" "getTypeIndex [typeRange] typeRange = 0"
    by (simp_all add: getTypeIndex_def reference_union_def typeRange_def typeString_def
        typeThrowable_def)
  have c: "isClassOrInterface typeRange" "cast_CompositeType (PrimitiveType ''int32'') = None"
    "\<not> isClassOrInterface (PrimitiveType ''int32'')"
    by (simp_all add: typeRange_def)
  note t1 = genUnionTypeTest_nonmember
    [where u = tagged_union and toType = typeRange and b = "[]" and inp = "Param ''u''"
       and valIsLVal = False, THEN conjunct1]
  note t2 = genUnionTypeTest_nonmember
    [where u = tagged_union and toType = typeRange and b = "[]" and inp = "Param ''u''"
       and valIsLVal = True, THEN conjunct1]
  note t3 = genUnionTypeTest_nonmember
    [where u = reference_union and u' = "[typeRange]" and toType = typeRange and b = "[]"
       and inp = "Param ''u''" and valIsLVal = True, THEN conjunct2, THEN conjunct1]
  note t3' = genUnionTypeTest_nonmember
    [where u = reference_union and toType = typeRange and b = "[]"
       and inp = "Param ''u''" and valIsLVal = True, THEN conjunct2, THEN conjunct2]
  note t4 = genUnionTypeTest_nonmember
    [where u = reference_union and toType = "PrimitiveType ''int32''" and b = "[]"
       and inp = "Param ''u''" and valIsLVal = False, THEN conjunct2, THEN conjunct2]
  from t1 h v have a1: "genUnionTypeTest [] (Param ''u'') tagged_union typeRange False =
      Inr (ConstantFalse, [ExtractValue (Param ''u'') 0])"
    by simp
  from t2 h v have a2: "genUnionTypeTest [] (Param ''u'') tagged_union typeRange True =
      Inr (ConstantFalse,
           [ConstInBoundsGEP2_32 (Param ''u'') 0 0, Load (ConstInBoundsGEP2_32 (Param ''u'') 0 0)])"
    by simp
  from r r' have a3: "genUnionTypeTest [] (Param ''u'') reference_union typeRange True =
      genUnionTypeTest [] (Param ''u'') [typeRange] typeRange True"
    by (intro mp [OF t3] conjI)
  from t3' r have a3': "genUnionTypeTest [] (Param ''u'') reference_union typeRange True =
        Inr (CallInst (FunctionValue ''hasBase'')
            [Load (InBoundsGEP (BitCast (BitCast (Load (Param ''u'')) (IrEmbeddedType typeRange))
                                  (PointerTo (IrType typeObject)))
                     [Int32Val 0, Int32Val 0]),
             TypeInfoBlockPtr typeRange],
          [Load (Param ''u''),
           BitCast (Load (Param ''u'')) (IrEmbeddedType typeRange),
           BitCast (BitCast (Load (Param ''u'')) (IrEmbeddedType typeRange))
             (PointerTo (IrType typeObject)),
           InBoundsGEP (BitCast (BitCast (Load (Param ''u'')) (IrEmbeddedType typeRange))
                          (PointerTo (IrType typeObject)))
             [Int32Val 0, Int32Val 0],
           Load (InBoundsGEP (BitCast (BitCast (Load (Param ''u'')) (IrEmbeddedType typeRange))
                                (PointerTo (IrType typeObject)))
                   [Int32Val 0, Int32Val 0]),
           CallInst (FunctionValue ''hasBase'')
             [Load (InBoundsGEP (BitCast (BitCast (Load (Param ''u'')) (IrEmbeddedType typeRange))
                                   (PointerTo (IrType typeObject)))
                      [Int32Val 0, Int32Val 0]),
              TypeInfoBlockPtr typeRange]])"
    using c(1) by (simp add: Let_def)
  from t4 r c have a4:
    "genUnionTypeTest [] (Param ''u'') reference_union (PrimitiveType ''int32'') False =
       Inl BadCast"
    by (simp add: Let_def)
  from h v a1 a2 r r' i a3 a3' a4 show ?thesis
    by blast
qed


subsection \<open>The result type of a call\<close>

lemma singularResultType_loop_Some:
  "singularResultType_loop X ccs (Some s) = Inr (Some s') \<longleftrightarrow>
     s' = s \<and> list_all (\<lambda>cc. candidateResultType X cc = Inr s)
                (filter (\<lambda>cc. \<not> isCulled cc) ccs)"
proof (induction ccs)
  case Nil
  show ?case by auto
next
  case (Cons cc ccs)
  show ?case
  proof (cases "isCulled cc")
    case True
    with Cons show ?thesis by simp
  next
    case False
    show ?thesis
    proof (cases "candidateResultType X cc")
      case (Inl a)
      with False show ?thesis by simp
    next
      case (Inr t)
      with False Cons show ?thesis by (cases "t = s") auto
    qed
  qed
qed

lemma singularResultType_loop_None:
  "singularResultType_loop X ccs None = Inr (Some s) \<longleftrightarrow>
     filter (\<lambda>cc. \<not> isCulled cc) ccs \<noteq> [] \<and>
     list_all (\<lambda>cc. candidateResultType X cc = Inr s) (filter (\<lambda>cc. \<not> isCulled cc) ccs)"
proof (induction ccs)
  case Nil
  show ?case by simp
next
  case (Cons cc ccs)
  show ?case
  proof (cases "isCulled cc")
    case True
    with Cons show ?thesis by simp
  next
    case False
    show ?thesis
    proof (cases "candidateResultType X cc")
      case (Inl a)
      with False show ?thesis by simp
    next
      case (Inr t)
      with False show ?thesis
        by (auto simp: singularResultType_loop_Some)
    qed
  qed
qed

lemma candidateResultType_Inr:
  "candidateResultType X cc = Inr t \<longleftrightarrow> spec_resultType X cc = Some t"
proof (cases "cc_method cc")
  case None
  then show ?thesis
    by (auto simp: candidateResultType_def spec_resultType_def isConstructorCandidate_def)
next
  case (Some m)
  show ?thesis
  proof (cases "isCtor m")
    case False
    with Some show ?thesis
      by (auto simp: candidateResultType_def spec_resultType_def isConstructorCandidate_def)
  next
    case True
    with Some show ?thesis
      by (cases "selfParam (cc_functionType cc)")
        (auto simp: candidateResultType_def spec_resultType_def isConstructorCandidate_def
           receiverType_def)
  qed
qed

lemma candidateResultType_Inl:
  "candidateResultType X cc = Inl a \<longleftrightarrow> a = NullDereference \<and> spec_resultType X cc = None"
proof (cases "cc_method cc")
  case None
  then show ?thesis
    by (auto simp: candidateResultType_def spec_resultType_def isConstructorCandidate_def)
next
  case (Some m)
  show ?thesis
  proof (cases "isCtor m")
    case False
    with Some show ?thesis
      by (auto simp: candidateResultType_def spec_resultType_def isConstructorCandidate_def)
  next
    case True
    with Some show ?thesis
      by (cases "selfParam (cc_functionType cc)")
        (auto simp: candidateResultType_def spec_resultType_def isConstructorCandidate_def
           receiverType_def)
  qed
qed

lemma singularResultType_Some_iff:
  "singularResultType X call = Inr (Some t) \<longleftrightarrow> spec_candidatesAgree X call t"
  by (simp add: singularResultType_def spec_candidatesAgree_def liveCandidates_def
      singularResultType_loop_None candidateResultType_Inr)

lemma singularResultType_loop_no_abort:
  "list_all (\<lambda>cc. spec_resultType X cc \<noteq> None) (filter (\<lambda>cc. \<not> isCulled cc) ccs) \<Longrightarrow>
   \<exists>r. singularResultType_loop X ccs acc = Inr r"
proof (induction ccs arbitrary: acc)
  case Nil
  show ?case by simp
next
  case (Cons cc ccs)
  show ?case
  proof (cases "isCulled cc")
    case True
    with Cons show ?thesis by simp
  next
    case False
    with Cons.prems obtain t where "spec_resultType X cc = Some t"
      by auto
    then have t: "candidateResultType X cc = Inr t"
      by (simp add: candidateResultType_Inr)
    from Cons.prems False
    have "list_all (\<lambda>cc. spec_resultType X cc \<noteq> None) (filter (\<lambda>cc. \<not> isCulled cc) ccs)"
      by simp
    then have "\<exists>r. singularResultType_loop X ccs acc' = Inr r" for acc'
      by (rule Cons.IH)
    with False t show ?thesis
      by (cases acc) auto
  qed
qed

text \<open>
  Claim C3. When the candidates that are not culled agree on a result type \<open>t\<close> (there
  is at least one, and for each of them \<open>t\<close> is the receiver type if its method is a
  constructor and its own result type otherwise), \<open>singularResultType()\<close> is \<open>t\<close> and
  \<open>reduceReturnType\<close> returns it (unless the call is singular and \<open>t\<close> is not, which
  fails the assertion). When they do not agree on any type, whatever \<open>reduceReturnType\<close>
  returns is a \<open>ResultOfConstraint\<close> on the call, and it does return one when no
  constructor candidate lacks the self parameter that is read from it. In the loop of
  \<open>singularResultType()\<close>, a candidate whose method is a constructor contributes the type
  of the self parameter of its function type, whatever its \<open>resultType()\<close> is, and every
  other candidate contributes its \<open>resultType()\<close>.
\<close>

theorem reduceReturnType_single_or_constraint:
  "(spec_candidatesAgree X call t \<longrightarrow>
      singularResultType X call = Inr (Some t) \<and>
      reduceReturnType X call =
        (if isSingular X (CallExpr call) \<and> \<not> type_isSingular t then Inl AssertionFailed
         else Inr t)) \<and>
   ((\<nexists>t'. spec_candidatesAgree X call t') \<and> reduceReturnType X call = Inr t \<longrightarrow>
      t = ResultOfConstraint (call_addr call)) \<and>
   ((\<nexists>t'. spec_candidatesAgree X call t') \<and>
    list_all (\<lambda>cc. spec_resultType X cc \<noteq> None) (liveCandidates call) \<longrightarrow>
      singularResultType X call = Inr None \<and>
      reduceReturnType X call = Inr (ResultOfConstraint (call_addr call))) \<and>
   (cc_method cc = Some m \<and> isCtor m \<and> selfParam (cc_functionType cc) = Some self \<longrightarrow>
      candidateResultType X cc = Inr (param_type self)) \<and>
   (cc_method cc = None \<or> cc_method cc = Some m \<and> \<not> isCtor m \<longrightarrow>
      candidateResultType X cc = Inr (CallCandidate_resultType X cc))"
proof (intro conjI impI)
  assume a: "spec_candidatesAgree X call t"
  then show s: "singularResultType X call = Inr (Some t)"
    by (simp add: singularResultType_Some_iff)
  then show "reduceReturnType X call =
      (if isSingular X (CallExpr call) \<and> \<not> type_isSingular t then Inl AssertionFailed
       else Inr t)"
    by (simp add: reduceReturnType_def)
next
  assume a: "(\<nexists>t'. spec_candidatesAgree X call t') \<and> reduceReturnType X call = Inr t"
  then have "\<forall>t'. singularResultType X call \<noteq> Inr (Some t')"
    by (simp add: singularResultType_Some_iff)
  with a show "t = ResultOfConstraint (call_addr call)"
    by (auto simp: reduceReturnType_def split: sum.splits option.splits if_splits)
next
  assume a: "(\<nexists>t'. spec_candidatesAgree X call t') \<and>
    list_all (\<lambda>cc. spec_resultType X cc \<noteq> None) (liveCandidates call)"
  then have no: "\<forall>t'. singularResultType X call \<noteq> Inr (Some t')"
    by (simp add: singularResultType_Some_iff)
  from a obtain r where "singularResultType X call = Inr r"
    unfolding singularResultType_def liveCandidates_def
    using singularResultType_loop_no_abort by blast
  with no show n: "singularResultType X call = Inr None"
    by (cases r) auto
  then show "reduceReturnType X call = Inr (ResultOfConstraint (call_addr call))"
    by (simp add: reduceReturnType_def)
next
  assume "cc_method cc = Some m \<and> isCtor m \<and> selfParam (cc_functionType cc) = Some self"
  then show "candidateResultType X cc = Inr (param_type self)"
    by (simp add: candidateResultType_def)
next
  assume "cc_method cc = None \<or> cc_method cc = Some m \<and> \<not> isCtor m"
  then show "candidateResultType X cc = Inr (CallCandidate_resultType X cc)"
    by (auto simp: candidateResultType_def)
qed

lemma g_call_disagree: "\<nexists>t'. spec_candidatesAgree example_externs g_call t'"
  by (auto simp: spec_candidatesAgree_def liveCandidates_def g_call_def candidateOf_def
      spec_resultType_def isConstructorCandidate_def example_externs_def g_int_def g_string_def
      typeString_def)

theorem reduceReturnType_single_or_constraint_witness:
  "spec_candidatesAgree example_externs ctor_call typeString \<and>
   singularResultType example_externs ctor_call = Inr (Some typeString) \<and>
   reduceReturnType example_externs ctor_call = Inr typeString \<and>
   CallCandidate_resultType example_externs
     (candidateOf (Some (NewExpr typeString)) construct1 [0]) = VoidType \<and>
   candidateResultType example_externs
     (candidateOf (Some (NewExpr typeString)) construct1 [0]) = Inr typeString \<and>
   candidateResultType example_externs (candidateOf None g_int [0]) =
     Inr (PrimitiveType ''int32'') \<and>
   (\<nexists>t'. spec_candidatesAgree example_externs g_call t') \<and>
   singularResultType example_externs g_call = Inr None \<and>
   reduceReturnType example_externs g_call = Inr (ResultOfConstraint 7)"
proof -
  have agree: "spec_candidatesAgree example_externs ctor_call typeString"
    by (simp add: spec_candidatesAgree_def liveCandidates_def ctor_call_def candidateOf_def
        spec_resultType_def isConstructorCandidate_def receiverType_def construct0_def
        construct1_def selfString_def)
  have sing: "\<not> isSingular example_externs (CallExpr ctor_call)"
    by (simp add: ctor_call_def)
  have live: "list_all (\<lambda>cc. spec_resultType example_externs cc \<noteq> None) (liveCandidates g_call)"
    by (simp add: liveCandidates_def g_call_def candidateOf_def spec_resultType_def
        isConstructorCandidate_def g_int_def g_string_def)
  have ctor: "cc_method (candidateOf (Some (NewExpr typeString)) construct1 [0]) = Some construct1 \<and>
      isCtor construct1 \<and>
      selfParam (cc_functionType (candidateOf (Some (NewExpr typeString)) construct1 [0])) =
        Some selfString"
    by (simp add: candidateOf_def construct1_def)
  have plain: "cc_method (candidateOf None g_int [0]) = Some g_int \<and> \<not> isCtor g_int"
    by (simp add: candidateOf_def g_int_def)
  have void: "CallCandidate_resultType example_externs
      (candidateOf (Some (NewExpr typeString)) construct1 [0]) = VoidType"
    by (simp add: example_externs_def candidateOf_def construct1_def)
  have int: "CallCandidate_resultType example_externs (candidateOf None g_int [0]) =
      PrimitiveType ''int32''"
    by (simp add: example_externs_def candidateOf_def g_int_def)
  have addr: "call_addr g_call = 7" "param_type selfString = typeString"
    by (simp_all add: g_call_def selfString_def)
  from reduceReturnType_single_or_constraint
         [where X = example_externs and call = ctor_call and t = typeString
            and cc = "candidateOf (Some (NewExpr typeString)) construct1 [0]"
            and m = construct1 and self = selfString]
       reduceReturnType_single_or_constraint
         [where X = example_externs and call = g_call and t = "ResultOfConstraint 7"
            and cc = "candidateOf None g_int [0]" and m = g_int]
       agree sing live ctor plain void int g_call_disagree addr
  show ?thesis by simp
qed


subsection \<open>What call analysis sends to the diagnostics sink\<close>

lemma addOverload_method_state:
  "addOverload_method X call b m as st = (ok, call', st') \<Longrightarrow> st' = st"
  by (auto simp: addOverload_method_def split: if_splits option.splits)

lemma addOverload_fnType_state:
  "addOverload_fnType X call fn ft as st = (ok, call', st') \<Longrightarrow> st' = st"
  by (auto simp: addOverload_fnType_def split: option.splits)

lemma callName_overloads_state:
  "callName_overloads X as rs success call st = (e, call', st') \<Longrightarrow> st' = st"
proof (induction rs arbitrary: success call)
  case Nil
  then show ?case by simp
next
  case (Cons r rs)
  show ?case
  proof (cases r)
    case (LValueExpr t b v)
    show ?thesis
    proof (cases v)
      case (FunctionDefn func)
      obtain ok c1 s1 where a: "addOverload_method X call (lvalueBase X r) func as st = (ok, c1, s1)"
        by (cases "addOverload_method X call (lvalueBase X r) func as st") auto
      then have "s1 = st" by (rule addOverload_method_state)
      with Cons.prems LValueExpr FunctionDefn a Cons.IH show ?thesis by auto
    next
      case (VariableDefn var)
      show ?thesis
      proof (cases "analyzeValueDefn X (VariableDefn var) Task_PrepTypeComparison")
        case False
        with Cons.prems LValueExpr VariableDefn show ?thesis by simp
      next
        case True
        have step: "st' = st"
          if b: "callName_overloads X as rs
              (success \<and> fst (addOverload_fnType X call fn ft as st))
              (fst (snd (addOverload_fnType X call fn ft as st)))
              (snd (snd (addOverload_fnType X call fn ft as st))) = (e, call', st')"
          for ft fn
        proof -
          have "snd (snd (addOverload_fnType X call fn ft as st)) = st"
            by (simp add: addOverload_fnType_def split: option.splits)
          with b Cons.IH show "st' = st" by metis
        qed
        from Cons.prems LValueExpr VariableDefn True show ?thesis
          by (cases "var_type var")
            (auto simp: case_prod_beta dest: step Cons.IH)
      qed
    next
      case (TypeDefn td)
      with Cons.prems LValueExpr Cons.IH show ?thesis by auto
    next
      case (NamespaceDefn n)
      with Cons.prems LValueExpr Cons.IH show ?thesis by auto
    qed
  qed (use Cons.prems in auto)
qed

lemma adl_add_state:
  "adl_add X as ds found call st = (call', st') \<Longrightarrow> st' = st"
proof (induction ds arbitrary: found call)
  case Nil
  then show ?case by simp
next
  case (Cons d ds)
  show ?case
  proof (cases d)
    case (FunctionDefn f)
    obtain ok c1 s1 where a: "addOverload_method X call None f as st = (ok, c1, s1)"
      by (cases "addOverload_method X call None f as st") auto
    then have "s1 = st" by (rule addOverload_method_state)
    with Cons.prems FunctionDefn a Cons.IH show ?thesis
      by (auto split: if_splits)
  qed (use Cons.prems Cons.IH in auto)
qed

lemma lookupByArgType_state:
  "lookupByArgType X call name as st = (call', st') \<Longrightarrow> st' = st"
  by (auto simp: lookupByArgType_def Let_def dest: adl_add_state)


subsection \<open>Overloads as candidates\<close>

lemma appendCandidates_simps [simp]:
  "appendCandidates call [] = call"
  "appendCandidates (appendCandidates call xs) ys = appendCandidates call (xs @ ys)"
  "push_candidate call cc = appendCandidates call [cc]"
  "call_addr (appendCandidates call xs) = call_addr call"
  "candidates (appendCandidates call xs) = candidates call @ xs"
  "args (appendCandidates call xs) = args call"
  "call_type (appendCandidates call xs) = call_type call"
  by (cases call; simp)+

lemma addOverload_method_eq:
  "addOverload_method X call b m as st =
     (analyzeValueDefn X (FunctionDefn m) Task_PrepConversion,
      appendCandidates call (overloadCandidate X (call_addr call) b as m), st)"
  by (simp add: addOverload_method_def overloadCandidate_def split: option.splits)

lemma overloadCandidates_simps [simp]:
  "overloadCandidates X addr b as [] = []"
  "overloadCandidates X addr b as (m # ms) =
     overloadCandidate X addr b as m @ overloadCandidates X addr b as ms"
  by (simp_all add: overloadCandidates_def)


subsection \<open>The search for constructors\<close>

lemma addConstructors_functions:
  "addConstructors X newExpr as (map FunctionDefn fs) call st =
     (if list_all constructorOK fs
      then Inr (appendCandidates call
                  (overloadCandidates X (call_addr call) (Some newExpr) as fs), st)
      else Inl AssertionFailed)"
proof (induction fs arbitrary: call)
  case Nil
  show ?case by simp
next
  case (Cons f fs)
  show ?case
    by (simp add: addOverload_method_eq Cons.IH constructorOK_def)
qed



lemma addCreators_Inr:
  "addCreators X as ds call st = Inr r \<Longrightarrow> \<exists>fs. ds = map FunctionDefn fs"
proof (induction ds arbitrary: call r)
  case Nil
  show ?case by simp
next
  case (Cons d ds)
  from Cons.prems obtain f where d: "d = FunctionDefn f"
    by (cases d) auto
  with Cons.prems obtain call1 where "addCreators X as ds call1 st = Inr r"
    by (auto simp: addOverload_method_eq split: if_splits)
  then obtain fs where "ds = map FunctionDefn fs"
    using Cons.IH by blast
  with d have "d # ds = map FunctionDefn (f # fs)"
    by simp
  then show ?case by (rule exI [of _ "f # fs"])
qed


lemma Scope_lookup_empty:
  "Scope_lookup X sc name [] inherit =
     (Scope_lookupMember X sc name inherit \<noteq> [], Scope_lookupMember X sc name inherit)"
  by (simp add: Scope_lookup_def Let_def)

lemma constructorOverloads_own:
  assumes "\<not> isTemplate tdef"
    and "Scope_lookupMember X (Type_memberScope X (typeValue tdef)) idConstruct False \<noteq> []"
  shows "constructorOverloads X tdef as call st =
     (case addConstructors X (NewExpr (typeValue tdef)) as
             (Scope_lookupMember X (Type_memberScope X (typeValue tdef)) idConstruct False)
             call st of
        Inl a \<Rightarrow> (Inl a, st)
      | Inr (call', st') \<Rightarrow>
          (Inr (Found (call',
                  Scope_lookupMember X (Type_memberScope X (typeValue tdef)) idConstruct False)),
           st'))"
  using assms by (simp add: constructorOverloads_def Scope_lookup_empty Let_def)







text \<open>
  The whole of \<open>callConstructor\<close> on the same input, \<open>String("hi")\<close>: the type
  definition is added to the module, the one constructor that accepts the argument is the
  only candidate, and the type of the call is \<open>String\<close>, the type of the constructor's
  self parameter.
\<close>

lemma callConstructor_example:
  "callConstructor string_externs stringDefn [ASTLiteral ''hi''] 7 empty_state =
     (Inr (CallExpr
            (CallNode 7 Construct (Some typeString)
               (Some (ScopeNameExpr typeString (TypeDefn stringDefn)))
               [CallCandidate 7 (Some (NewExpr typeString)) (Some construct1)
                  (functionType construct1) [0] False]
               [ArglistExpr TupleCtor typeString []] (Some typeString))),
      addSymbol (TypeDefn stringDefn) empty_state)"
proof -
  let ?call = "CallNode 7 Construct None (Some (ScopeNameExpr typeString (TypeDefn stringDefn)))
    [] [] (Some typeString)"
  let ?cand = "CallCandidate 7 (Some (NewExpr typeString)) (Some construct1)
    (functionType construct1) [0] False"
  let ?call1 = "CallNode 7 Construct None (Some (ScopeNameExpr typeString (TypeDefn stringDefn)))
    [?cand] [] (Some typeString)"
  let ?call2 = "CallNode 7 Construct None (Some (ScopeNameExpr typeString (TypeDefn stringDefn)))
    [?cand] [ArglistExpr TupleCtor typeString []] (Some typeString)"
  let ?st1 = "addSymbol (TypeDefn stringDefn) empty_state"
  have ext:
    "analyzeType string_externs t k = True"
    "asExpr string_externs td = ScopeNameExpr (typeValue td) (TypeDefn td)"
    "reduceExpr string_externs n t = ArglistExpr TupleCtor t []"
    "CallCandidate_paramType string_externs c i =
       (if i < length (params (cc_functionType c))
        then param_type (params (cc_functionType c) ! i) else BadType)"
    "CallCandidate_isSingular string_externs c = True"
    "Type_memberScope string_externs t = 5"
    "Scope_lookupMember string_externs = string_members"
    for t k td n c i
    by (simp_all add: string_externs_def example_externs_def)
  have td: "typeValue stringDefn = typeString" "\<not> isTemplate stringDefn"
    "\<not> isTemplateMember stringDefn"
    by (simp_all add: stringDefn_def)
  have own: "Scope_lookupMember string_externs (Type_memberScope string_externs
      (typeValue stringDefn)) idConstruct False = map FunctionDefn [construct0, construct1]"
    by (simp add: ext string_members_def idConstruct_def)
  have ok: "list_all constructorOK [construct0, construct1]"
    by (simp add: constructorOK_def returnsNothing_def construct0_def construct1_def)
  have c0: "overloadCandidate string_externs 7 (Some (NewExpr typeString)) [ASTLiteral ''hi'']
      construct0 = []"
    by (simp add: overloadCandidate_def string_externs_def example_externs_def construct0_def)
  have c1: "overloadCandidate string_externs 7 (Some (NewExpr typeString)) [ASTLiteral ''hi'']
      construct1 = [?cand]"
    by (simp add: overloadCandidate_def string_externs_def example_externs_def construct1_def)
  have ne: "Scope_lookupMember string_externs (Type_memberScope string_externs
      (typeValue stringDefn)) idConstruct False \<noteq> []"
    unfolding own by simp
  have search: "constructorOverloads string_externs stringDefn [ASTLiteral ''hi''] ?call ?st1 =
      (Inr (Found (?call1, map FunctionDefn [construct0, construct1])), ?st1)"
    unfolding constructorOverloads_own [OF td(2) ne] own [unfolded td(1)] td(1)
      addConstructors_functions
    using ok by (simp add: c0 c1)
  have has: "hasAnyCandidates ?call1"
    by (simp add: hasAnyCandidates_def)
  have red: "reduceArgList string_externs [ASTLiteral ''hi''] ?call1 = (True, ?call2)"
    by (simp add: reduceArgList_def getMappedParameterType_def singularParamType_def ext
        construct1_def isErrorResult_expr_def isErrorResult_def typeString_def Let_def)
  have ret: "reduceReturnType string_externs ?call2 = Inr typeString"
    by (simp add: reduceReturnType_def singularResultType_def candidateResultType_def
        construct1_def selfString_def ext) (simp add: typeString_def)
  show ?thesis
    by (simp add: callConstructor_def Let_def ext td search has red ret)
qed


subsection \<open>Argument-dependent lookup\<close>

lemma newEntries_set: "set (newEntries seen xs) = set xs - set seen"
  by (induction xs arbitrary: seen) auto

lemma newEntries_distinct: "distinct (newEntries seen xs)"
  by (induction xs arbitrary: seen) (auto simp: newEntries_set)

lemma newEntries_append:
  "newEntries seen (xs @ ys) = newEntries seen xs @ newEntries (rev (newEntries seen xs) @ seen) ys"
proof (induction xs arbitrary: seen)
  case Nil
  show ?case by simp
next
  case (Cons x xs)
  show ?case by (simp add: Cons.IH)
qed

lemma newEntries_cong_set:
  "set seen = set seen' \<Longrightarrow> newEntries seen xs = newEntries seen' xs"
proof (induction xs arbitrary: seen seen')
  case Nil
  show ?case by simp
next
  case (Cons x xs)
  from Cons.prems have "set (x # seen) = set (x # seen')"
    by simp
  then have "newEntries (x # seen) xs = newEntries (x # seen') xs"
    by (rule Cons.IH)
  moreover have "newEntries seen xs = newEntries seen' xs"
    using Cons.prems by (rule Cons.IH)
  ultimately show ?case
    using Cons.prems by simp
qed

lemma newEntriesBy_member:
  "x \<in> set (newEntriesBy key seen xs) \<Longrightarrow> x \<in> set xs \<and> key x \<notin> set seen"
proof (induction xs arbitrary: seen)
  case Nil
  then show ?case by simp
next
  case (Cons y ys)
  show ?case
  proof (cases "key y \<in> set seen")
    case True
    with Cons.prems have "x \<in> set (newEntriesBy key seen ys)"
      by simp
    with Cons.IH show ?thesis
      by auto
  next
    case False
    with Cons.prems have "x = y \<or> x \<in> set (newEntriesBy key (key y # seen) ys)"
      by simp
    then show ?thesis
    proof
      assume "x = y"
      with False show ?thesis by simp
    next
      assume "x \<in> set (newEntriesBy key (key y # seen) ys)"
      then have "x \<in> set ys \<and> key x \<notin> set (key y # seen)"
        by (rule Cons.IH)
      then show ?thesis by simp
    qed
  qed
qed

lemma newEntriesBy_keys:
  "key ` set (newEntriesBy key seen xs) = key ` set xs - set seen"
proof (induction xs arbitrary: seen)
  case Nil
  show ?case by simp
next
  case (Cons y ys)
  show ?case
  proof (cases "key y \<in> set seen")
    case True
    then show ?thesis
      by (auto simp: Cons.IH)
  next
    case False
    then show ?thesis
      by (auto simp: Cons.IH)
  qed
qed

lemma newEntriesBy_distinct: "distinct (map key (newEntriesBy key seen xs))"
proof (induction xs arbitrary: seen)
  case Nil
  show ?case by simp
next
  case (Cons y ys)
  show ?case
  proof (cases "key y \<in> set seen")
    case True
    then show ?thesis
      by (simp add: Cons.IH)
  next
    case False
    have "key y \<notin> key ` set (newEntriesBy key (key y # seen) ys)"
      by (simp add: newEntriesBy_keys)
    with False show ?thesis
      by (simp add: Cons.IH)
  qed
qed

lemma adl_scan_eq:
  "adl_scan X name as typesSearched defns =
     defns @ concat (map (adlLookup X name)
                       (newEntries typesSearched (concat (map (adlType X) as))))"
proof (induction as arbitrary: typesSearched defns)
  case Nil
  show ?case by simp
next
  case (Cons arg rest)
  show ?case
  proof (cases "expr_type arg")
    case None
    then show ?thesis by (simp add: Cons.IH adlType_def)
  next
    case (Some t)
    show ?thesis
    proof (cases "type_isSingular t")
      case False
      with Some show ?thesis by (simp add: Cons.IH adlType_def)
    next
      case True
      show ?thesis
      proof (cases "dealias X t")
        case None
        with Some True show ?thesis by (simp add: Cons.IH adlType_def)
      next
        case d: (Some argType)
        have ty: "adlType X arg = [argType]"
          using Some True d by (simp add: adlType_def)
        show ?thesis
        proof (cases "argType \<in> set typesSearched")
          case True
          with Some \<open>type_isSingular t\<close> d ty show ?thesis
            by (simp add: Cons.IH)
        next
          case False
          with Some \<open>type_isSingular t\<close> d ty show ?thesis
            by (simp add: Cons.IH adlLookup_def split: option.splits)
        qed
      qed
    qed
  qed
qed

lemma adl_add_eq:
  "adl_add X as ds methodsFound call st =
     (appendCandidates call
        (overloadCandidates X (call_addr call) None as
           (newEntriesBy (\<lambda>f. Some (fn_addr f)) methodsFound
              (concat (map staticOrGlobalFunction ds)))), st)"
proof (induction ds arbitrary: methodsFound call)
  case Nil
  show ?case by simp
next
  case (Cons d ds)
  show ?case
  proof (cases d)
    case (FunctionDefn f)
    show ?thesis
    proof (cases "storageClass f = Storage_Static \<or> storageClass f = Storage_Global")
      case False
      with FunctionDefn show ?thesis by (simp add: Cons.IH)
    next
      case sg: True
      show ?thesis
      proof (cases "Some (fn_addr f) \<in> set methodsFound")
        case True
        with FunctionDefn sg show ?thesis by (auto simp: Cons.IH)
      next
        case False
        with FunctionDefn sg show ?thesis
          by (auto simp: Cons.IH addOverload_method_eq)
      qed
    qed
  qed (simp_all add: Cons.IH)
qed

lemma lookupByArgType_eq:
  "lookupByArgType X call name as st =
     (appendCandidates call
        (overloadCandidates X (call_addr call) None as (adlFunctions X call name)), st)"
  by (simp add: lookupByArgType_def Let_def adl_scan_eq adl_add_eq adlFunctions_def adlFound_def)

lemma staticOrGlobalFunction_set:
  "f \<in> set (staticOrGlobalFunction d) \<longleftrightarrow>
     d = FunctionDefn f \<and> (storageClass f = Storage_Static \<or> storageClass f = Storage_Global)"
  by (cases d) auto

lemma adlFound_set:
  "set (adlFound X call name) =
     {f. (storageClass f = Storage_Static \<or> storageClass f = Storage_Global) \<and>
         (\<exists>arg \<in> set (args call). \<exists>t \<in> set (adlType X arg).
            FunctionDefn f \<in> set (adlLookup X name t))}"
  by (auto simp: adlFound_def newEntries_set staticOrGlobalFunction_set) blast+

lemma distinct_map_Some:
  "distinct (map (\<lambda>x. Some (f x)) xs) \<Longrightarrow> distinct (map f xs)"
  by (induction xs) auto

lemma adlFunctions_distinct: "distinct (map fn_addr (adlFunctions X call name))"
proof -
  have "distinct (map (\<lambda>f. Some (fn_addr f)) (adlFunctions X call name))"
    unfolding adlFunctions_def by (rule newEntriesBy_distinct)
  then show ?thesis
    by (rule distinct_map_Some)
qed

lemma adlFunctions_member:
  assumes "f \<in> set (adlFunctions X call name)"
  shows "(storageClass f = Storage_Static \<or> storageClass f = Storage_Global) \<and>
         Some (fn_addr f) \<notin> set (map methodAddr (candidates call)) \<and>
         (\<exists>arg \<in> set (args call). \<exists>t \<in> set (adlType X arg).
            FunctionDefn f \<in> set (adlLookup X name t))"
proof -
  from assms have "f \<in> set (adlFound X call name) \<and>
      Some (fn_addr f) \<notin> set (map methodAddr (candidates call))"
    unfolding adlFunctions_def by (rule newEntriesBy_member)
  then show ?thesis
    by (simp add: adlFound_set)
qed

lemma adlFunctions_addresses:
  "fn_addr ` set (adlFunctions X call name) =
     {a. Some a \<notin> set (map methodAddr (candidates call)) \<and>
         (\<exists>f. fn_addr f = a \<and>
              (storageClass f = Storage_Static \<or> storageClass f = Storage_Global) \<and>
              (\<exists>arg \<in> set (args call). \<exists>t \<in> set (adlType X arg).
                 FunctionDefn f \<in> set (adlLookup X name t)))}"
proof (rule set_eqI)
  fix a
  have k: "(\<lambda>f. Some (fn_addr f)) ` set (adlFunctions X call name) =
      (\<lambda>f. Some (fn_addr f)) ` set (adlFound X call name) -
        set (map methodAddr (candidates call))"
    unfolding adlFunctions_def by (rule newEntriesBy_keys)
  have im: "Some a \<in> (\<lambda>f. Some (fn_addr f)) ` S \<longleftrightarrow> (\<exists>f. fn_addr f = a \<and> f \<in> S)" for S
    by auto
  have "a \<in> fn_addr ` set (adlFunctions X call name) \<longleftrightarrow>
      Some a \<in> (\<lambda>f. Some (fn_addr f)) ` set (adlFunctions X call name)"
    by auto
  also have "\<dots> \<longleftrightarrow>
      Some a \<notin> set (map methodAddr (candidates call)) \<and>
      (\<exists>f. fn_addr f = a \<and> f \<in> set (adlFound X call name))"
    unfolding k using im [of "set (adlFound X call name)"] by blast
  also have "\<dots> \<longleftrightarrow>
      a \<in> {a. Some a \<notin> set (map methodAddr (candidates call)) \<and>
         (\<exists>f. fn_addr f = a \<and>
              (storageClass f = Storage_Static \<or> storageClass f = Storage_Global) \<and>
              (\<exists>arg \<in> set (args call). \<exists>t \<in> set (adlType X arg).
                 FunctionDefn f \<in> set (adlLookup X name t)))}"
    unfolding adlFound_set by simp
  finally show "a \<in> fn_addr ` set (adlFunctions X call name) \<longleftrightarrow>
      a \<in> {a. Some a \<notin> set (map methodAddr (candidates call)) \<and>
         (\<exists>f. fn_addr f = a \<and>
              (storageClass f = Storage_Static \<or> storageClass f = Storage_Global) \<and>
              (\<exists>arg \<in> set (args call). \<exists>t \<in> set (adlType X arg).
                 FunctionDefn f \<in> set (adlLookup X name t)))}" .
qed


subsection \<open>Calls by name\<close>

lemma addConstructors_state:
  "addConstructors X newExpr as ds call st = Inr (call', st') \<Longrightarrow> st' = st"
proof (induction ds arbitrary: call)
  case Nil
  then show ?case by simp
next
  case (Cons d ds)
  then show ?case
    by (cases d) (auto simp: addOverload_method_eq split: if_splits)
qed

lemma addCreators_state:
  "addCreators X as ds call st = Inr (call', st') \<Longrightarrow> st' = st"
proof (induction ds arbitrary: call)
  case Nil
  then show ?case by simp
next
  case (Cons d ds)
  then show ?case
    by (cases d) (auto simp: addOverload_method_eq split: if_splits)
qed

lemma addTemplateConstructors_state:
  "addTemplateConstructors X newExpr as ds call st = Inr (call', st') \<Longrightarrow> st' = st"
proof (induction ds arbitrary: call)
  case Nil
  then show ?case by simp
next
  case (Cons d ds)
  then show ?case
    by (cases d) (auto simp: addOverload_method_eq split: if_splits)
qed

lemma addTemplateCreators_state:
  "addTemplateCreators X as ds call st = Inr (call', st') \<Longrightarrow> st' = st"
proof (induction ds arbitrary: call)
  case Nil
  then show ?case by simp
next
  case (Cons d ds)
  then show ?case
    by (cases d) (auto simp: addOverload_method_eq split: if_splits)
qed

lemma constructorOverloads_cases:
  assumes "constructorOverloads X tdef as call st = (r, st')"
  shows "(\<exists>a. r = Inl a \<and> (st' = st \<or> st' = diag_error [NoConstructorsFound tdef] st)) \<or>
         (\<exists>c ms. r = Inr (Found (c, ms)) \<and> st' = st) \<or>
         (r = Inr (NotFound ErrorVal) \<and> st' = diag_error [NoConstructorsFound tdef] st)"
  using assms
  by (auto simp: constructorOverloads_def Let_def Scope_lookup_def Template_lookup_def
      split: if_splits sum.splits prod.splits bool.splits
      dest: addConstructors_state addCreators_state addTemplateConstructors_state
        addTemplateCreators_state)

lemma call_type_setType [simp]: "call_type (setType c t) = Some t"
  by (cases c) simp

lemma candidates_setType [simp]: "candidates (setType c t) = candidates c"
  by (cases c) simp

lemma list_ex_diag_error [simp]:
  "list_ex P (diags (diag_error ds st)) \<longleftrightarrow> list_ex P (diags st) \<or> list_ex P ds"
  by (simp add: diag_error_def)

lemma diags_addSymbol [simp]: "diags (addSymbol d st) = diags st"
  by (simp add: addSymbol_def)

lemma callConstructor_result:
  assumes "callConstructor X tdef as newAddr st = (Inr e, st')"
  shows "e = ErrorVal \<or> (\<exists>c t. e = CallExpr c \<and> call_type c = Some t)"
proof -
  define st1 where
    "st1 = (if \<not> isTemplate tdef \<and> \<not> isTemplateMember tdef then addSymbol (TypeDefn tdef) st else st)"
  define call where
    "call = CallNode newAddr Construct None (Some (asExpr X tdef)) [] [] (Some (typeValue tdef))"
  show ?thesis
  proof (cases "analyzeType X (typeValue tdef) Task_PrepConstruction")
    case False
    with assms show ?thesis by (simp add: callConstructor_def Let_def)
  next
    case True
    obtain r st2 where co: "constructorOverloads X tdef as call st1 = (r, st2)"
      by (cases "constructorOverloads X tdef as call st1")
    with assms True co [unfolded call_def] have run: "(case (r, st2) of
          (Inl a, st2) \<Rightarrow> (Inl a, st2)
        | (Inr (NotFound e), st2) \<Rightarrow> (Inr e, st2)
        | (Inr (Found (call1, methods)), st2) \<Rightarrow>
            if \<not> hasAnyCandidates call1 then
              (Inr ErrorVal,
               diag_error (NoConstructorMatching as # map ConstructorInfo methods) st2)
            else
              (case reduceArgList X as call1 of
                 (False, call2) \<Rightarrow> (Inr ErrorVal, st2)
               | (True, call2) \<Rightarrow>
                   (case reduceReturnType X call2 of
                      Inl a \<Rightarrow> (Inl a, st2)
                    | Inr t \<Rightarrow> (Inr (CallExpr (setType call2 t)), st2)))) = (Inr e, st')"
      by (simp add: callConstructor_def Let_def st1_def [symmetric])
    from constructorOverloads_cases [OF co]
    consider a where "r = Inl a" | c ms where "r = Inr (Found (c, ms))"
      | "r = Inr (NotFound ErrorVal)"
      by auto
    then show ?thesis
    proof cases
      case 1
      with run show ?thesis by simp
    next
      case 2
      with run show ?thesis
        by (auto split: if_splits prod.splits sum.splits bool.splits)
    next
      case 3
      with run show ?thesis by simp
    qed
  qed
qed

lemma callConstructor_no_NoMatchingMethod:
  assumes "callConstructor X tdef as newAddr st = (r, st')"
    and "list_ex isNoMatchingMethod (diags st')"
  shows "list_ex isNoMatchingMethod (diags st)"
proof -
  define st1 where
    "st1 = (if \<not> isTemplate tdef \<and> \<not> isTemplateMember tdef then addSymbol (TypeDefn tdef) st else st)"
  define call where
    "call = CallNode newAddr Construct None (Some (asExpr X tdef)) [] [] (Some (typeValue tdef))"
  have d1: "diags st1 = diags st"
    by (simp add: st1_def)
  have info: "\<not> list_ex isNoMatchingMethod (map ConstructorInfo ms)" for ms
    by (induction ms) simp_all
  show ?thesis
  proof (cases "analyzeType X (typeValue tdef) Task_PrepConstruction")
    case False
    with assms d1 show ?thesis
      by (auto simp: callConstructor_def Let_def st1_def)
  next
    case True
    obtain q st2 where co: "constructorOverloads X tdef as call st1 = (q, st2)"
      by (cases "constructorOverloads X tdef as call st1")
    with assms True co [unfolded call_def] have run: "(case (q, st2) of
          (Inl a, st2) \<Rightarrow> (Inl a, st2)
        | (Inr (NotFound e), st2) \<Rightarrow> (Inr e, st2)
        | (Inr (Found (call1, methods)), st2) \<Rightarrow>
            if \<not> hasAnyCandidates call1 then
              (Inr ErrorVal,
               diag_error (NoConstructorMatching as # map ConstructorInfo methods) st2)
            else
              (case reduceArgList X as call1 of
                 (False, call2) \<Rightarrow> (Inr ErrorVal, st2)
               | (True, call2) \<Rightarrow>
                   (case reduceReturnType X call2 of
                      Inl a \<Rightarrow> (Inl a, st2)
                    | Inr t \<Rightarrow> (Inr (CallExpr (setType call2 t)), st2)))) = (r, st')"
      by (simp add: callConstructor_def Let_def st1_def [symmetric])
    have d2: "list_ex isNoMatchingMethod (diags st2) \<Longrightarrow> list_ex isNoMatchingMethod (diags st)"
      using constructorOverloads_cases [OF co] d1 by auto
    from constructorOverloads_cases [OF co]
    consider a where "q = Inl a" | c ms where "q = Inr (Found (c, ms))"
      | "q = Inr (NotFound ErrorVal)"
      by auto
    then show ?thesis
    proof cases
      case 1
      with run assms(2) d2 show ?thesis by auto
    next
      case 2
      with run assms(2) d2 info show ?thesis
        by (auto split: if_splits prod.splits sum.splits bool.splits)
    next
      case 3
      with run assms(2) d2 show ?thesis by auto
    qed
  qed
qed

lemma callName_overloads_not_null:
  "list_all (variableAnalyzed X) rs \<Longrightarrow>
   fst (callName_overloads X as rs success call st) \<noteq> ReturnedNull"
proof (induction rs arbitrary: success call st)
  case Nil
  show ?case by simp
next
  case (Cons r rs)
  from Cons.prems have rest: "list_all (variableAnalyzed X) rs"
    by simp
  note IH = Cons.IH [OF rest]
  show ?case
  proof (cases r)
    case (LValueExpr t b v)
    show ?thesis
    proof (cases v)
      case (FunctionDefn func)
      with LValueExpr IH show ?thesis
        by (simp add: case_prod_beta)
    next
      case (VariableDefn var)
      with LValueExpr Cons.prems
      have "analyzeValueDefn X (VariableDefn var) Task_PrepTypeComparison"
        by simp
      with LValueExpr VariableDefn IH show ?thesis
        by (cases "var_type var") (simp_all add: case_prod_beta)
    next
      case (TypeDefn td)
      with LValueExpr IH show ?thesis by simp
    next
      case (NamespaceDefn n)
      with LValueExpr IH show ?thesis by simp
    qed
  qed simp_all
qed

lemma callName_finish_result:
  assumes "callName_finish X callable expected results success call st = (Inr r, built, st')"
  shows "\<exists>e. r = Some e \<and> (e = ErrorVal \<or> (\<exists>c t. e = CallExpr c \<and> call_type c = Some t))"
  using assms
  by (auto simp: callName_finish_def split: if_splits sum.splits)

lemma callName_finish_NoMatchingMethod:
  assumes "callName_finish X callable expected results success call st = (r, built, st')"
    and "\<not> list_ex isNoMatchingMethod (diags st)"
    and "list_ex isNoMatchingMethod (diags st')"
  shows "built = Some call \<and> candidates call = [] \<and> r = Inr (Some ErrorVal)"
  using assms
  by (auto simp: callName_finish_def split: if_splits sum.splits)


lemma callName_body_not_callable:
  "\<not> isCallableNode callable \<Longrightarrow>
   callName_body X callable as expected isOptional newAddr st = (Inl AssertionFailed, None, st)"
  by (simp add: callName_body_def)

lemma callName_body_undefined:
  "isCallableNode callable \<Longrightarrow> lookupName X callable = [] \<Longrightarrow>
   unqualifiedName callable = None \<Longrightarrow>
   callName_body X callable as expected isOptional newAddr st =
     (if isOptional then (Inr None, None, st)
      else (Inr (Some ErrorVal), None,
            diag_error [UndefinedMethod callable, ScopesSearched] st))"
  by (simp add: callName_body_def Let_def)

lemma callName_body_types:
  "isCallableNode callable \<Longrightarrow> lookupName X callable \<noteq> [] \<Longrightarrow>
   getTypesFromExprs X (lookupName X callable) = Some typeList \<Longrightarrow>
   callName_body X callable as expected isOptional newAddr st =
     (if length typeList > 1 then
        (Inr (Some ErrorVal), None, diag_error [MultipleDefinitions callable] st)
      else
        (case typeList of
           [] \<Rightarrow> (Inl NullDereference, None, st)
         | type # ts \<Rightarrow>
             (case Type_typeDefn X type of
                None \<Rightarrow> (Inr (Some ErrorVal), None, diag_error [NotConstructable type] st)
              | Some tdef \<Rightarrow>
                  (case callConstructor X tdef as newAddr st of
                     (Inl a, st') \<Rightarrow> (Inl a, None, st')
                   | (Inr e, st') \<Rightarrow> (Inr (Some e), None, st')))))"
  by (simp add: callName_body_def Let_def)

lemma callName_body_overloads:
  assumes "isCallableNode callable"
    and "lookupName X callable \<noteq> [] \<or> unqualifiedName callable \<noteq> None"
    and "lookupName X callable \<noteq> [] \<longrightarrow> getTypesFromExprs X (lookupName X callable) = None"
    and "callName_overloads X as (lookupName X callable) True
           (CallNode newAddr Call None None [] [] expected) st = (exit, call1, st1)"
  shows "callName_body X callable as expected isOptional newAddr st =
     (case exit of
        Ended a \<Rightarrow> (Inl a, Some call1, st1)
      | ReturnedNull \<Rightarrow> (Inr None, Some call1, st1)
      | Completed success \<Rightarrow>
          (case reduceArgList X as call1 of
             (False, call2) \<Rightarrow> (Inr (Some ErrorVal), Some call2, st1)
           | (True, call2) \<Rightarrow>
               (case (case unqualifiedName callable of
                        Some name \<Rightarrow>
                          if as \<noteq> [] then lookupByArgType X call2 name as st1
                          else (call2, st1)
                      | None \<Rightarrow> (call2, st1)) of
                  (call3, st3) \<Rightarrow>
                    callName_finish X callable expected (lookupName X callable) success
                      call3 st3)))"
proof -
  have sel: "(if lookupName X callable \<noteq> [] then getTypesFromExprs X (lookupName X callable)
      else None) = None"
    using assms(3) by simp
  have guard: "\<not> (lookupName X callable = [] \<and> \<not> unqualifiedName callable \<noteq> None)"
    using assms(2) by auto
  show ?thesis
    using assms(1) guard sel assms(4)
    by (auto simp add: callName_body_def Let_def split: overloads_exit.splits)
qed

text \<open>The paths of \<open>callName\<close>, by what the name lookup gives.\<close>

lemma callName_body_paths:
  obtains
    (not_callable) "\<not> isCallableNode callable"
  | (undefined) "isCallableNode callable" "lookupName X callable = []"
      "unqualifiedName callable = None"
  | (types) typeList where "isCallableNode callable" "lookupName X callable \<noteq> []"
      "getTypesFromExprs X (lookupName X callable) = Some typeList"
  | (overloads) "isCallableNode callable"
      "lookupName X callable \<noteq> [] \<or> unqualifiedName callable \<noteq> None"
      "lookupName X callable \<noteq> [] \<longrightarrow> getTypesFromExprs X (lookupName X callable) = None"
proof (cases "isCallableNode callable")
  case False
  then show ?thesis by (rule not_callable)
next
  case c: True
  show ?thesis
  proof (cases "lookupName X callable = []")
    case True
    then show ?thesis
      using c undefined overloads by (cases "unqualifiedName callable") auto
  next
    case False
    then show ?thesis
      using c types overloads by (cases "getTypesFromExprs X (lookupName X callable)") auto
  qed
qed

lemma no_NoMatchingMethod_simple [simp]:
  "\<not> isNoMatchingMethod (UndefinedMethod c)"
  "\<not> isNoMatchingMethod ScopesSearched"
  "\<not> isNoMatchingMethod (MultipleDefinitions c)"
  "\<not> isNoMatchingMethod (NotConstructable t)"
  by simp_all

lemma callName_body_NoMatchingMethod:
  assumes run: "callName_body X callable as expected isOptional newAddr st = (r, built, st')"
    and before: "\<not> list_ex isNoMatchingMethod (diags st)"
    and after: "list_ex isNoMatchingMethod (diags st')"
  shows "(\<exists>c. built = Some c \<and> candidates c = []) \<and> r = Inr (Some ErrorVal)"
proof (cases rule: callName_body_paths [where callable = callable and X = X])
  case not_callable
  with run before after show ?thesis
    by (simp add: callName_body_not_callable)
next
  case undefined
  with run before after show ?thesis
    by (auto simp: callName_body_undefined split: if_splits)
next
  case (types typeList)
  show ?thesis
  proof (cases "length typeList > 1")
    case True
    with types run before after show ?thesis
      by (auto simp: callName_body_types)
  next
    case False
    show ?thesis
    proof (cases typeList)
      case Nil
      with types run before after show ?thesis
        by (auto simp: callName_body_types)
    next
      case (Cons type ts)
      show ?thesis
      proof (cases "Type_typeDefn X type")
        case None
        with types False Cons run before after show ?thesis
          by (auto simp: callName_body_types)
      next
        case (Some tdef)
        obtain q st2 where cc: "callConstructor X tdef as newAddr st = (q, st2)"
          by (cases "callConstructor X tdef as newAddr st")
        with types False Cons Some run have "st' = st2"
          by (cases q) (auto simp: callName_body_types)
        with after callConstructor_no_NoMatchingMethod [OF cc] before show ?thesis
          by simp
      qed
    qed
  qed
next
  case overloads
  obtain exit call1 st1 where ov: "callName_overloads X as (lookupName X callable) True
      (CallNode newAddr Call None None [] [] expected) st = (exit, call1, st1)"
    by (cases "callName_overloads X as (lookupName X callable) True
      (CallNode newAddr Call None None [] [] expected) st")
  then have st1: "st1 = st"
    by (rule callName_overloads_state)
  note body = callName_body_overloads [OF overloads ov, of isOptional]
  show ?thesis
  proof (cases exit)
    case (Ended a)
    with body run st1 before after show ?thesis by simp
  next
    case ReturnedNull
    with body run st1 before after show ?thesis by simp
  next
    case (Completed success)
    obtain ok call2 where ra: "reduceArgList X as call1 = (ok, call2)"
      by (cases "reduceArgList X as call1")
    show ?thesis
    proof (cases ok)
      case False
      with body run st1 before after Completed ra show ?thesis by simp
    next
      case True
      obtain call3 st3 where adl: "(case unqualifiedName callable of
            Some name \<Rightarrow>
              if as \<noteq> [] then lookupByArgType X call2 name as st1 else (call2, st1)
          | None \<Rightarrow> (call2, st1)) = (call3, st3)"
        by (cases "(case unqualifiedName callable of
            Some name \<Rightarrow>
              if as \<noteq> [] then lookupByArgType X call2 name as st1 else (call2, st1)
          | None \<Rightarrow> (call2, st1))")
      then have "st3 = st1"
        by (auto split: option.splits if_splits dest: lookupByArgType_state)
      with st1 have st3: "st3 = st" by simp
      from body run Completed ra True adl
      have fin: "callName_finish X callable expected (lookupName X callable) success call3 st3 =
          (r, built, st')"
        by simp
      from callName_finish_NoMatchingMethod [OF fin] before after st3
      show ?thesis by simp
    qed
  qed
qed

lemma callName_body_result:
  assumes run: "callName_body X callable as expected isOptional newAddr st = (Inr r, built, st')"
    and opt: "\<not> isOptional \<or> lookupName X callable \<noteq> [] \<or> unqualifiedName callable \<noteq> None"
    and vars: "list_all (variableAnalyzed X) (lookupName X callable)"
  shows "\<exists>e. r = Some e \<and> (e = ErrorVal \<or> (\<exists>c t. e = CallExpr c \<and> call_type c = Some t))"
proof (cases rule: callName_body_paths [where callable = callable and X = X])
  case not_callable
  with run show ?thesis
    by (simp add: callName_body_not_callable)
next
  case undefined
  with run opt show ?thesis
    by (auto simp: callName_body_undefined split: if_splits)
next
  case (types typeList)
  show ?thesis
  proof (cases "length typeList > 1")
    case True
    with types run show ?thesis
      by (auto simp: callName_body_types)
  next
    case False
    show ?thesis
    proof (cases typeList)
      case Nil
      with types run show ?thesis
        by (auto simp: callName_body_types)
    next
      case (Cons type ts)
      show ?thesis
      proof (cases "Type_typeDefn X type")
        case None
        with types False Cons run show ?thesis
          by (auto simp: callName_body_types)
      next
        case (Some tdef)
        obtain q st2 where cc: "callConstructor X tdef as newAddr st = (q, st2)"
          by (cases "callConstructor X tdef as newAddr st")
        with types False Cons Some run obtain e where "q = Inr e" "r = Some e"
          by (cases q) (auto simp: callName_body_types)
        with callConstructor_result [of X tdef as newAddr st e st2] cc show ?thesis
          by simp
      qed
    qed
  qed
next
  case overloads
  obtain exit call1 st1 where ov: "callName_overloads X as (lookupName X callable) True
      (CallNode newAddr Call None None [] [] expected) st = (exit, call1, st1)"
    by (cases "callName_overloads X as (lookupName X callable) True
      (CallNode newAddr Call None None [] [] expected) st")
  from callName_overloads_not_null [OF vars, of as True
      "CallNode newAddr Call None None [] [] expected" st] ov
  have nn: "exit \<noteq> ReturnedNull" by simp
  note body = callName_body_overloads [OF overloads ov, of isOptional]
  show ?thesis
  proof (cases exit)
    case (Ended a)
    with body run show ?thesis by simp
  next
    case ReturnedNull
    with nn show ?thesis by simp
  next
    case (Completed success)
    obtain ok call2 where ra: "reduceArgList X as call1 = (ok, call2)"
      by (cases "reduceArgList X as call1")
    show ?thesis
    proof (cases ok)
      case False
      with body run Completed ra show ?thesis by simp
    next
      case True
      obtain call3 st3 where adl: "(case unqualifiedName callable of
            Some name \<Rightarrow>
              if as \<noteq> [] then lookupByArgType X call2 name as st1 else (call2, st1)
          | None \<Rightarrow> (call2, st1)) = (call3, st3)"
        by (cases "(case unqualifiedName callable of
            Some name \<Rightarrow>
              if as \<noteq> [] then lookupByArgType X call2 name as st1 else (call2, st1)
          | None \<Rightarrow> (call2, st1))")
      from body run Completed ra True adl
      have fin: "callName_finish X callable expected (lookupName X callable) success call3 st3 =
          (Inr r, built, st')"
        by simp
      then show ?thesis by (rule callName_finish_result)
    qed
  qed
qed


lemma callName_overloads_append:
  "callName_overloads X as rs success call st = (Completed s', call', st') \<Longrightarrow>
   callName_overloads X as (rs @ rs') success call st = callName_overloads X as rs' s' call' st'"
proof (induction rs arbitrary: success call st)
  case Nil
  then show ?case by simp
next
  case (Cons r rs)
  show ?case
  proof (cases r)
    case (LValueExpr t b v)
    show ?thesis
    proof (cases v)
      case (FunctionDefn func)
      obtain ok c1 s1 where a: "addOverload_method X call (lvalueBase X r) func as st = (ok, c1, s1)"
        by (cases "addOverload_method X call (lvalueBase X r) func as st") auto
      with Cons.prems LValueExpr FunctionDefn
      have "callName_overloads X as rs (success \<and> ok) c1 s1 = (Completed s', call', st')"
        by simp
      then have "callName_overloads X as (rs @ rs') (success \<and> ok) c1 s1 =
          callName_overloads X as rs' s' call' st'"
        by (rule Cons.IH)
      with LValueExpr FunctionDefn a show ?thesis
        by simp
    next
      case (VariableDefn var)
      show ?thesis
      proof (cases "analyzeValueDefn X (VariableDefn var) Task_PrepTypeComparison")
        case False
        with Cons.prems LValueExpr VariableDefn show ?thesis by simp
      next
        case True
        have step: "callName_overloads X as (rs @ rs')
              (success \<and> fst (addOverload_fnType X call r ft as st))
              (fst (snd (addOverload_fnType X call r ft as st)))
              (snd (snd (addOverload_fnType X call r ft as st))) =
            callName_overloads X as rs' s' call' st'"
          if "callName_overloads X as rs
              (success \<and> fst (addOverload_fnType X call r ft as st))
              (fst (snd (addOverload_fnType X call r ft as st)))
              (snd (snd (addOverload_fnType X call r ft as st))) = (Completed s', call', st')"
          for ft
          using that by (rule Cons.IH)
        from Cons.prems LValueExpr VariableDefn True show ?thesis
          by (cases "var_type var") (auto simp: case_prod_beta dest: step Cons.IH)
      qed
    next
      case (TypeDefn td)
      with Cons.prems LValueExpr Cons.IH show ?thesis by auto
    next
      case (NamespaceDefn n)
      with Cons.prems LValueExpr Cons.IH show ?thesis by auto
    qed
  qed (use Cons.prems in auto)
qed


subsection \<open>Example runs of call analysis\<close>

lemma adl_externs_simps:
  "analyzeValueDefn adl_externs d k = True"
  "assignFromAST adl_externs ft as =
     (if length as = length (params ft) then Some [0..<length as] else None)"
  "reduceExpr adl_externs n t = string_arg"
  "lookupName adl_externs n = [g_lvalue]"
  "getTypesFromExprs adl_externs es = None"
  "lvalueBase adl_externs e = None"
  "dealias adl_externs t = Some t"
  "Type_typeDefn adl_externs t = (if t = typeString then Some stringDefn else None)"
  "Scope_lookupMember adl_externs = adl_members"
  "CallCandidate_paramType adl_externs c i =
     (if i < length (params (cc_functionType c))
      then param_type (params (cc_functionType c) ! i) else BadType)"
  "CallCandidate_resultType adl_externs c =
     (case returnType (cc_functionType c) of None \<Rightarrow> VoidType | Some t \<Rightarrow> t)"
  "CallCandidate_isSingular adl_externs c = True"
  by (simp_all add: adl_externs_def example_externs_def)

lemma g_overloads_one_arg:
  "callName_overloads adl_externs [ASTLiteral ''hi''] [g_lvalue] True
     (CallNode 7 Call None None [] [] None) empty_state =
   (Completed True, CallNode 7 Call None None [candidateOf None g_int [0]] [] None, empty_state)"
  by (simp add: g_lvalue_def addOverload_method_def adl_externs_simps candidateOf_def g_int_def)

lemma g_overloads_no_arg:
  "callName_overloads adl_externs [] [g_lvalue] True
     (CallNode 7 Call None None [] [] None) empty_state =
   (Completed True, CallNode 7 Call None None [] [] None, empty_state)"
  by (simp add: g_lvalue_def addOverload_method_def adl_externs_simps g_int_def)

lemma g_reduce_one_arg:
  "reduceArgList adl_externs [ASTLiteral ''hi'']
     (CallNode 7 Call None None [candidateOf None g_int [0]] [] None) =
   (True, g_call_reduced)"
  by (simp add: reduceArgList_def adl_externs_simps isErrorResult_expr_def isErrorResult_def
      string_arg_def typeString_def g_call_reduced_def)

lemma g_reduce_no_arg:
  "reduceArgList adl_externs [] (CallNode 7 Call None None [] [] None) =
   (True, CallNode 7 Call None None [] [] None)"
  by (simp add: reduceArgList_def)

lemma g_adlLookup:
  "adlLookup adl_externs ''g'' typeString = [FunctionDefn g_string, FunctionDefn g_two]"
  by (simp add: adlLookup_def adl_externs_simps stringDefn_def adl_members_def)

lemma g_addresses:
  "fn_addr g_int = 23" "fn_addr g_string = 24" "fn_addr g_two = 26" "fn_addr g_twin = 27"
  by (simp_all add: g_int_def g_string_def g_two_def g_twin_def)

lemma g_storage:
  "storageClass g_string = Storage_Global" "storageClass g_two = Storage_Global"
  "storageClass g_twin = Storage_Global"
  by (simp_all add: g_string_def g_two_def g_twin_def)

lemma g_adlFound: "adlFound adl_externs g_call_reduced ''g'' = [g_string, g_two]"
proof -
  have ty: "concat (map (adlType adl_externs) (args g_call_reduced)) = [typeString]"
    by (simp add: g_call_reduced_def adlType_def string_arg_def adl_externs_simps typeString_def)
  have look: "concat (map (adlLookup adl_externs ''g'') (newEntries [] [typeString])) =
      [FunctionDefn g_string, FunctionDefn g_two]"
    by (simp add: g_adlLookup)
  show ?thesis
    unfolding adlFound_def ty look by (simp add: g_storage)
qed

lemma g_adlFunctions: "adlFunctions adl_externs g_call_reduced ''g'' = [g_string, g_two]"
proof -
  have ms: "map methodAddr (candidates g_call_reduced) = [Some 23]"
    by (simp add: g_call_reduced_def candidateOf_def methodAddr_def g_addresses)
  show ?thesis
    unfolding adlFunctions_def g_adlFound ms by (simp add: g_addresses)
qed

lemma g_adl_candidates:
  "overloadCandidates adl_externs 7 None [ASTLiteral ''hi''] [g_string, g_two] =
     [candidateOf None g_string [0]]"
  by (simp add: overloadCandidate_def adl_externs_simps candidateOf_def g_string_def g_two_def)

lemma g_call_adl_eq:
  "appendCandidates g_call_reduced
     (overloadCandidates adl_externs (call_addr g_call_reduced) None [ASTLiteral ''hi'']
        (adlFunctions adl_externs g_call_reduced ''g'')) = g_call_adl"
proof -
  have addr: "call_addr g_call_reduced = 7"
    by (simp add: g_call_reduced_def)
  show ?thesis
    unfolding g_adlFunctions addr g_adl_candidates
    by (simp add: g_call_reduced_def g_call_adl_def)
qed

lemma g_call_adl_type:
  "reduceReturnType adl_externs g_call_adl = Inr (ResultOfConstraint 7)"
  by (simp add: reduceReturnType_def singularResultType_def g_call_adl_def candidateOf_def
      candidateResultType_def adl_externs_simps g_int_def g_string_def typeString_def)

lemma g_finish:
  "callName_finish adl_externs (ASTIdent ''g'') None [g_lvalue] True g_call_adl empty_state =
     (Inr (Some (CallExpr (setType g_call_adl (ResultOfConstraint 7)))),
      Some (setType g_call_adl (ResultOfConstraint 7)), empty_state)"
  by (simp add: callName_finish_def g_call_adl_type) (simp add: g_call_adl_def)

lemma g_run:
  "callName_body adl_externs (ASTIdent ''g'') [ASTLiteral ''hi''] None False 7 empty_state =
     (Inr (Some (CallExpr (setType g_call_adl (ResultOfConstraint 7)))),
      Some (setType g_call_adl (ResultOfConstraint 7)), empty_state)"
proof -
  have c: "isCallableNode (ASTIdent ''g'')"
    by simp
  have q: "lookupName adl_externs (ASTIdent ''g'') \<noteq> [] \<or>
      unqualifiedName (ASTIdent ''g'') \<noteq> None"
    by simp
  have t: "lookupName adl_externs (ASTIdent ''g'') \<noteq> [] \<longrightarrow>
      getTypesFromExprs adl_externs (lookupName adl_externs (ASTIdent ''g'')) = None"
    by (simp add: adl_externs_simps)
  have ov: "callName_overloads adl_externs [ASTLiteral ''hi'']
      (lookupName adl_externs (ASTIdent ''g'')) True
      (CallNode 7 Call None None [] [] None) empty_state =
      (Completed True, CallNode 7 Call None None [candidateOf None g_int [0]] [] None,
       empty_state)"
    unfolding adl_externs_simps by (rule g_overloads_one_arg)
  have adl: "lookupByArgType adl_externs g_call_reduced ''g'' [ASTLiteral ''hi''] empty_state =
      (g_call_adl, empty_state)"
    unfolding lookupByArgType_eq g_call_adl_eq ..
  show ?thesis
    unfolding callName_body_overloads [OF c q t ov]
    by (simp add: g_reduce_one_arg adl adl_externs_simps g_finish)
qed

subsection \<open>Argument-dependent lookup\<close>

text \<open>
  What \<open>lookupByArgType\<close> does to a call: it appends one candidate, with a null base,
  for each function it offers that passes its analysis and whose parameters accept the
  arguments, and changes nothing else. The functions it offers are static or global
  functions that the lookup of the name, inherited members included, finds in the defining
  scope of the dealiased type of some argument whose type is set and singular, and whose
  object is not yet the method of a candidate; no object is offered twice, and every such
  object is offered.
\<close>

lemma lookupByArgType_offers:
  "lookupByArgType X call name as st =
     (appendCandidates call
        (overloadCandidates X (call_addr call) None as (adlFunctions X call name)), st) \<and>
   distinct (map fn_addr (adlFunctions X call name)) \<and>
   (\<forall>f \<in> set (adlFunctions X call name).
      (storageClass f = Storage_Static \<or> storageClass f = Storage_Global) \<and>
      Some (fn_addr f) \<notin> set (map methodAddr (candidates call)) \<and>
      (\<exists>arg \<in> set (args call). \<exists>t \<in> set (adlType X arg).
         FunctionDefn f \<in> set (adlLookup X name t))) \<and>
   fn_addr ` set (adlFunctions X call name) =
     {a. Some a \<notin> set (map methodAddr (candidates call)) \<and>
         (\<exists>f. fn_addr f = a \<and>
              (storageClass f = Storage_Static \<or> storageClass f = Storage_Global) \<and>
              (\<exists>arg \<in> set (args call). \<exists>t \<in> set (adlType X arg).
                 FunctionDefn f \<in> set (adlLookup X name t)))}"
proof (intro conjI ballI)
  show "lookupByArgType X call name as st =
      (appendCandidates call
         (overloadCandidates X (call_addr call) None as (adlFunctions X call name)), st)"
    by (rule lookupByArgType_eq)
  show "distinct (map fn_addr (adlFunctions X call name))"
    by (rule adlFunctions_distinct)
  show "fn_addr ` set (adlFunctions X call name) =
      {a. Some a \<notin> set (map methodAddr (candidates call)) \<and>
          (\<exists>f. fn_addr f = a \<and>
               (storageClass f = Storage_Static \<or> storageClass f = Storage_Global) \<and>
               (\<exists>arg \<in> set (args call). \<exists>t \<in> set (adlType X arg).
                  FunctionDefn f \<in> set (adlLookup X name t)))}"
    by (rule adlFunctions_addresses)
next
  fix f
  assume f: "f \<in> set (adlFunctions X call name)"
  note m = adlFunctions_member [OF f]
  from m show "storageClass f = Storage_Static \<or> storageClass f = Storage_Global"
    by (rule conjunct1)
  from m show "Some (fn_addr f) \<notin> set (map methodAddr (candidates call))"
    by blast
  from m show "\<exists>arg \<in> set (args call). \<exists>t \<in> set (adlType X arg).
      FunctionDefn f \<in> set (adlLookup X name t)"
    by blast
qed

text \<open>
  Two function objects that are equal in name and type are two functions for the lookup:
  both become candidates. A function whose parameters do not accept the arguments is
  offered and does not become one.
\<close>

lemma twin_functions_both_candidates:
  "lookupByArgType twin_externs g_call_reduced ''g'' [ASTLiteral ''hi''] empty_state =
     (CallNode 7 Call None None
        [candidateOf None g_int [0], candidateOf None g_string [0], candidateOf None g_twin [0]]
        [string_arg] None,
      empty_state)"
proof -
  have ext:
    "dealias twin_externs t = Some t"
    "Type_typeDefn twin_externs t = (if t = typeString then Some stringDefn else None)"
    "Scope_lookupMember twin_externs = twin_members"
    "analyzeValueDefn twin_externs d k = True"
    "assignFromAST twin_externs ft as =
       (if length as = length (params ft) then Some [0..<length as] else None)"
    for t d k ft as
    by (simp_all add: twin_externs_def adl_externs_def example_externs_def)
  have ty: "concat (map (adlType twin_externs) (args g_call_reduced)) = [typeString]"
    by (simp add: g_call_reduced_def adlType_def string_arg_def ext typeString_def)
  have look: "concat (map (adlLookup twin_externs ''g'') (newEntries [] [typeString])) =
      [FunctionDefn g_string, FunctionDefn g_twin]"
    by (simp add: adlLookup_def ext stringDefn_def twin_members_def)
  have found: "adlFound twin_externs g_call_reduced ''g'' = [g_string, g_twin]"
    unfolding adlFound_def ty look by (simp add: g_storage)
  have ms: "map methodAddr (candidates g_call_reduced) = [Some 23]"
    by (simp add: g_call_reduced_def candidateOf_def methodAddr_def g_addresses)
  have fs: "adlFunctions twin_externs g_call_reduced ''g'' = [g_string, g_twin]"
    unfolding adlFunctions_def found ms by (simp add: g_addresses)
  have cs: "overloadCandidates twin_externs 7 None [ASTLiteral ''hi''] [g_string, g_twin] =
      [candidateOf None g_string [0], candidateOf None g_twin [0]]"
    by (simp add: overloadCandidate_def ext candidateOf_def g_string_def g_twin_def)
  have addr: "call_addr g_call_reduced = 7"
    by (simp add: g_call_reduced_def)
  show ?thesis
    unfolding lookupByArgType_eq fs addr cs by (simp add: g_call_reduced_def)
qed

lemma unfit_function_not_candidate:
  "FunctionDefn g_two \<in> set (adlLookup adl_externs ''g'' typeString) \<and>
   storageClass g_two = Storage_Global \<and>
   Some (fn_addr g_two) \<notin> set (map methodAddr (candidates g_call_reduced)) \<and>
   lookupByArgType adl_externs g_call_reduced ''g'' [ASTLiteral ''hi''] empty_state =
     (g_call_adl, empty_state) \<and>
   Some (fn_addr g_two) \<notin> set (map methodAddr (candidates g_call_adl))"
proof -
  have "lookupByArgType adl_externs g_call_reduced ''g'' [ASTLiteral ''hi''] empty_state =
      (g_call_adl, empty_state)"
    by (simp add: lookupByArgType_eq g_call_adl_eq)
  moreover have "Some (fn_addr g_two) \<notin> set (map methodAddr (candidates g_call_reduced))"
    by (simp add: g_call_reduced_def candidateOf_def methodAddr_def g_addresses)
  moreover have "Some (fn_addr g_two) \<notin> set (map methodAddr (candidates g_call_adl))"
    by (simp add: g_call_adl_def candidateOf_def methodAddr_def g_addresses)
  ultimately show ?thesis
    by (simp add: g_adlLookup g_storage)
qed

subsection \<open>Argument-dependent lookup in a call by name\<close>

text \<open>
  Claim C4. In a call by an unqualified name with at least one argument, the functions
  that argument-dependent lookup finds are added as candidates of the call, and when the
  lookup of the name itself has found something they take part in the resolution: the
  result is the call with all candidates, typed by \<open>reduceReturnType\<close>. When the lookup
  of the name has found nothing, \<open>callName\<close> still runs argument-dependent lookup, which
  adds its candidates to the call, and then reports the name as undefined and returns the
  error value: the candidates are dropped, although an unqualified name with no result is
  let through at the start of \<open>callName\<close> because there are still things left to try.
\<close>

theorem adl_candidates_dropped_without_name_result:
  "(unqualifiedName callable = Some name \<and> as \<noteq> [] \<and> lookupName X callable = [] \<and>
    reduceArgList X as (CallNode newAddr Call None None [] [] expected) = (True, call2) \<longrightarrow>
      callName_body X callable as expected isOptional newAddr st =
        (Inr (Some ErrorVal),
         Some (appendCandidates call2
                 (overloadCandidates X (call_addr call2) None as (adlFunctions X call2 name))),
         diag_error [UndefinedMethod callable, ScopesSearched] st)) \<and>
   (unqualifiedName callable = Some name \<and> as \<noteq> [] \<and> lookupName X callable \<noteq> [] \<and>
    getTypesFromExprs X (lookupName X callable) = None \<and>
    callName_overloads X as (lookupName X callable) True
      (CallNode newAddr Call None None [] [] expected) st = (Completed True, call1, st1) \<and>
    reduceArgList X as call1 = (True, call2) \<and>
    call3 = appendCandidates call2
              (overloadCandidates X (call_addr call2) None as (adlFunctions X call2 name)) \<and>
    candidates call3 \<noteq> [] \<longrightarrow>
      callName_body X callable as expected isOptional newAddr st =
        (case reduceReturnType X call3 of
           Inl a \<Rightarrow> (Inl a, Some call3, st)
         | Inr t \<Rightarrow> (Inr (Some (CallExpr (setType call3 t))), Some (setType call3 t), st)))"
proof (intro conjI impI)
  assume a: "unqualifiedName callable = Some name \<and> as \<noteq> [] \<and> lookupName X callable = [] \<and>
    reduceArgList X as (CallNode newAddr Call None None [] [] expected) = (True, call2)"
  then have c: "isCallableNode callable"
    by (cases callable) auto
  from a have q: "lookupName X callable \<noteq> [] \<or> unqualifiedName callable \<noteq> None"
    by simp
  from a have t: "lookupName X callable \<noteq> [] \<longrightarrow>
      getTypesFromExprs X (lookupName X callable) = None"
    by simp
  from a have ov: "callName_overloads X as (lookupName X callable) True
      (CallNode newAddr Call None None [] [] expected) st =
      (Completed True, CallNode newAddr Call None None [] [] expected, st)"
    by simp
  from a callName_body_overloads [OF c q t ov, of isOptional]
  show "callName_body X callable as expected isOptional newAddr st =
      (Inr (Some ErrorVal),
       Some (appendCandidates call2
               (overloadCandidates X (call_addr call2) None as (adlFunctions X call2 name))),
       diag_error [UndefinedMethod callable, ScopesSearched] st)"
    by (simp add: lookupByArgType_eq callName_finish_def)
next
  assume a: "unqualifiedName callable = Some name \<and> as \<noteq> [] \<and> lookupName X callable \<noteq> [] \<and>
    getTypesFromExprs X (lookupName X callable) = None \<and>
    callName_overloads X as (lookupName X callable) True
      (CallNode newAddr Call None None [] [] expected) st = (Completed True, call1, st1) \<and>
    reduceArgList X as call1 = (True, call2) \<and>
    call3 = appendCandidates call2
              (overloadCandidates X (call_addr call2) None as (adlFunctions X call2 name)) \<and>
    candidates call3 \<noteq> []"
  then have c: "isCallableNode callable"
    by (cases callable) auto
  from a have q: "lookupName X callable \<noteq> [] \<or> unqualifiedName callable \<noteq> None"
    by simp
  from a have t: "lookupName X callable \<noteq> [] \<longrightarrow>
      getTypesFromExprs X (lookupName X callable) = None"
    by simp
  from a have ov: "callName_overloads X as (lookupName X callable) True
      (CallNode newAddr Call None None [] [] expected) st = (Completed True, call1, st1)"
    by simp
  then have st1: "st1 = st"
    by (rule callName_overloads_state)
  from a have c3: "appendCandidates call2
      (overloadCandidates X (call_addr call2) None as (adlFunctions X call2 name)) = call3"
    by simp
  from a have ne: "candidates call3 \<noteq> []" "lookupName X callable \<noteq> []"
    by blast+
  from a have nm: "unqualifiedName callable = Some name" "as \<noteq> []"
    "reduceArgList X as call1 = (True, call2)"
    by blast+
  have "callName_body X callable as expected isOptional newAddr st =
      callName_finish X callable expected (lookupName X callable) True
        (appendCandidates call2
           (overloadCandidates X (call_addr call2) None as (adlFunctions X call2 name))) st"
    unfolding callName_body_overloads [OF c q t ov, of isOptional]
    by (simp add: nm lookupByArgType_eq st1)
  then have "callName_body X callable as expected isOptional newAddr st =
      callName_finish X callable expected (lookupName X callable) True call3 st"
    unfolding c3 .
  then show "callName_body X callable as expected isOptional newAddr st =
      (case reduceReturnType X call3 of
         Inl a \<Rightarrow> (Inl a, Some call3, st)
       | Inr t \<Rightarrow> (Inr (Some (CallExpr (setType call3 t))), Some (setType call3 t), st))"
    by (simp add: callName_finish_def ne)
qed

theorem adl_candidates_dropped_without_name_result_witness:
  "lookupName adl_only_externs (ASTIdent ''g'') = [] \<and>
   reduceArgList adl_only_externs [ASTLiteral ''hi''] (CallNode 7 Call None None [] [] None) =
     (True, CallNode 7 Call None None [] [string_arg] None) \<and>
   adlFunctions adl_only_externs (CallNode 7 Call None None [] [string_arg] None) ''g'' =
     [g_string, g_two] \<and>
   callName_body adl_only_externs (ASTIdent ''g'') [ASTLiteral ''hi''] None False 7 empty_state =
     (Inr (Some ErrorVal),
      Some (CallNode 7 Call None None [candidateOf None g_string [0]] [string_arg] None),
      diag_error [UndefinedMethod (ASTIdent ''g''), ScopesSearched] empty_state) \<and>
   lookupName adl_externs (ASTIdent ''g'') = [g_lvalue] \<and>
   callName_body adl_externs (ASTIdent ''g'') [ASTLiteral ''hi''] None False 7 empty_state =
     (Inr (Some (CallExpr (setType g_call_adl (ResultOfConstraint 7)))),
      Some (setType g_call_adl (ResultOfConstraint 7)), empty_state) \<and>
   candidates g_call_adl = [candidateOf None g_int [0], candidateOf None g_string [0]]"
proof -
  have ext:
    "lookupName adl_only_externs n = []"
    "reduceExpr adl_only_externs n t = string_arg"
    "dealias adl_only_externs t = Some t"
    "Type_typeDefn adl_only_externs t = (if t = typeString then Some stringDefn else None)"
    "Scope_lookupMember adl_only_externs = adl_members"
    "analyzeValueDefn adl_only_externs d k = True"
    "assignFromAST adl_only_externs ft as =
       (if length as = length (params ft) then Some [0..<length as] else None)"
    for n t d k ft as
    by (simp_all add: adl_only_externs_def adl_externs_def example_externs_def)
  let ?call2 = "CallNode 7 Call None None [] [string_arg] None"
  have red: "reduceArgList adl_only_externs [ASTLiteral ''hi'']
      (CallNode 7 Call None None [] [] None) = (True, ?call2)"
    by (simp add: reduceArgList_def getMappedParameterType_def singularParamType_def ext
        isErrorResult_expr_def isErrorResult_def string_arg_def typeString_def)
  have ty: "concat (map (adlType adl_only_externs) (args ?call2)) = [typeString]"
    by (simp add: adlType_def string_arg_def ext typeString_def)
  have look: "concat (map (adlLookup adl_only_externs ''g'') (newEntries [] [typeString])) =
      [FunctionDefn g_string, FunctionDefn g_two]"
    by (simp add: adlLookup_def ext stringDefn_def adl_members_def)
  have found: "adlFound adl_only_externs ?call2 ''g'' = [g_string, g_two]"
    unfolding adlFound_def ty look by (simp add: g_storage)
  have ms: "map methodAddr (candidates ?call2) = []"
    by simp
  have fs: "adlFunctions adl_only_externs ?call2 ''g'' = [g_string, g_two]"
    unfolding adlFunctions_def found ms by (simp add: g_addresses)
  have cs: "overloadCandidates adl_only_externs 7 None [ASTLiteral ''hi''] [g_string, g_two] =
      [candidateOf None g_string [0]]"
    by (simp add: overloadCandidate_def ext candidateOf_def g_string_def g_two_def)
  have app: "appendCandidates ?call2
      (overloadCandidates adl_only_externs (call_addr ?call2) None [ASTLiteral ''hi'']
         (adlFunctions adl_only_externs ?call2 ''g'')) =
      CallNode 7 Call None None [candidateOf None g_string [0]] [string_arg] None"
  proof -
    have addr: "call_addr ?call2 = 7"
      by simp
    show ?thesis
      unfolding fs addr cs by simp
  qed
  have pre1: "unqualifiedName (ASTIdent ''g'') = Some ''g'' \<and> [ASTLiteral ''hi''] \<noteq> [] \<and>
      lookupName adl_only_externs (ASTIdent ''g'') = [] \<and>
      reduceArgList adl_only_externs [ASTLiteral ''hi''] (CallNode 7 Call None None [] [] None) =
        (True, ?call2)"
    by (simp add: ext red)
  note drop = adl_candidates_dropped_without_name_result
    [where X = adl_only_externs and callable = "ASTIdent ''g''" and name = "''g''"
       and as = "[ASTLiteral ''hi'']" and newAddr = 7 and expected = None
       and st = empty_state and ?call2.0 = ?call2 and isOptional = False,
     THEN conjunct1]
  have "callName_body adl_only_externs (ASTIdent ''g'') [ASTLiteral ''hi''] None False 7
      empty_state =
      (Inr (Some ErrorVal),
       Some (appendCandidates ?call2
               (overloadCandidates adl_only_externs (call_addr ?call2) None [ASTLiteral ''hi'']
                  (adlFunctions adl_only_externs ?call2 ''g''))),
       diag_error [UndefinedMethod (ASTIdent ''g''), ScopesSearched] empty_state)"
    by (rule mp [OF drop pre1])
  then have run1: "callName_body adl_only_externs (ASTIdent ''g'') [ASTLiteral ''hi''] None False 7
      empty_state =
      (Inr (Some ErrorVal),
       Some (CallNode 7 Call None None [candidateOf None g_string [0]] [string_arg] None),
       diag_error [UndefinedMethod (ASTIdent ''g''), ScopesSearched] empty_state)"
    unfolding app .
  have pre2: "unqualifiedName (ASTIdent ''g'') = Some ''g'' \<and> [ASTLiteral ''hi''] \<noteq> [] \<and>
      lookupName adl_externs (ASTIdent ''g'') \<noteq> [] \<and>
      getTypesFromExprs adl_externs (lookupName adl_externs (ASTIdent ''g'')) = None \<and>
      callName_overloads adl_externs [ASTLiteral ''hi''] (lookupName adl_externs (ASTIdent ''g''))
        True (CallNode 7 Call None None [] [] None) empty_state =
        (Completed True, CallNode 7 Call None None [candidateOf None g_int [0]] [] None,
         empty_state) \<and>
      reduceArgList adl_externs [ASTLiteral ''hi'']
        (CallNode 7 Call None None [candidateOf None g_int [0]] [] None) =
        (True, g_call_reduced) \<and>
      g_call_adl = appendCandidates g_call_reduced
        (overloadCandidates adl_externs (call_addr g_call_reduced) None [ASTLiteral ''hi'']
           (adlFunctions adl_externs g_call_reduced ''g'')) \<and>
      candidates g_call_adl \<noteq> []"
    unfolding adl_externs_simps g_call_adl_eq
    by (intro conjI g_overloads_one_arg g_reduce_one_arg) (simp_all add: g_call_adl_def)
  note keep = adl_candidates_dropped_without_name_result
    [where X = adl_externs and callable = "ASTIdent ''g''" and name = "''g''"
       and as = "[ASTLiteral ''hi'']" and newAddr = 7 and expected = None
       and st = empty_state
       and ?call1.0 = "CallNode 7 Call None None [candidateOf None g_int [0]] [] None"
       and ?st1.0 = empty_state and ?call2.0 = g_call_reduced and ?call3.0 = g_call_adl
       and isOptional = False,
     THEN conjunct2]
  have "callName_body adl_externs (ASTIdent ''g'') [ASTLiteral ''hi''] None False 7 empty_state =
      (case reduceReturnType adl_externs g_call_adl of
         Inl a \<Rightarrow> (Inl a, Some g_call_adl, empty_state)
       | Inr t \<Rightarrow> (Inr (Some (CallExpr (setType g_call_adl t))), Some (setType g_call_adl t),
                  empty_state))"
    by (rule mp [OF keep pre2])
  then have run2: "callName_body adl_externs (ASTIdent ''g'') [ASTLiteral ''hi''] None False 7
      empty_state =
      (Inr (Some (CallExpr (setType g_call_adl (ResultOfConstraint 7)))),
       Some (setType g_call_adl (ResultOfConstraint 7)), empty_state)"
    unfolding g_call_adl_type by simp
  have l1: "lookupName adl_only_externs (ASTIdent ''g'') = []"
    by (simp add: ext)
  have l2: "lookupName adl_externs (ASTIdent ''g'') = [g_lvalue]"
    by (simp add: adl_externs_simps)
  have cands: "candidates g_call_adl = [candidateOf None g_int [0], candidateOf None g_string [0]]"
    by (simp add: g_call_adl_def)
  from l1 red fs run1 l2 run2 cands show ?thesis
    by blast
qed


lemma g_no_arg_run:
  "callName_body adl_externs (ASTIdent ''g'') [] None False 7 empty_state =
     (Inr (Some ErrorVal), Some (CallNode 7 Call None None [] [] None),
      diag_error [NoMatchingMethod (ASTIdent ''g'') [] None, CandidateInfo g_lvalue] empty_state)"
proof -
  have c: "isCallableNode (ASTIdent ''g'')"
    by simp
  have q: "lookupName adl_externs (ASTIdent ''g'') \<noteq> [] \<or>
      unqualifiedName (ASTIdent ''g'') \<noteq> None"
    by simp
  have t: "lookupName adl_externs (ASTIdent ''g'') \<noteq> [] \<longrightarrow>
      getTypesFromExprs adl_externs (lookupName adl_externs (ASTIdent ''g'')) = None"
    by (simp add: adl_externs_simps)
  have ov: "callName_overloads adl_externs [] (lookupName adl_externs (ASTIdent ''g'')) True
      (CallNode 7 Call None None [] [] None) empty_state =
      (Completed True, CallNode 7 Call None None [] [] None, empty_state)"
    unfolding adl_externs_simps by (rule g_overloads_no_arg)
  have fin: "callName_finish adl_externs (ASTIdent ''g'') None [g_lvalue] True
      (CallNode 7 Call None None [] [] None) empty_state =
      (Inr (Some ErrorVal), Some (CallNode 7 Call None None [] [] None),
       diag_error [NoMatchingMethod (ASTIdent ''g'') [] None, CandidateInfo g_lvalue]
         empty_state)"
    by (simp add: callName_finish_def)
  show ?thesis
    unfolding callName_body_overloads [OF c q t ov]
    by (simp add: g_reduce_no_arg adl_externs_simps fin)
qed

lemma optional_member_run:
  "callName_body example_externs (ASTMember (ASTIdent ''a'') ''b'') [] None True 7 empty_state =
     (Inr None, None, empty_state)"
  by (simp add: callName_body_undefined example_externs_def)

lemma failed_variable_run:
  "callName_body var_externs (ASTIdent ''v'') [] None False 7 empty_state =
     (Inr None, Some (CallNode 7 Call None None [] [] None), empty_state)"
proof -
  have ext: "lookupName var_externs n = [v_lvalue]" "getTypesFromExprs var_externs es = None"
    "analyzeValueDefn var_externs d k = False" for n es d k
    by (simp_all add: var_externs_def example_externs_def)
  have c: "isCallableNode (ASTIdent ''v'')"
    by simp
  have q: "lookupName var_externs (ASTIdent ''v'') \<noteq> [] \<or>
      unqualifiedName (ASTIdent ''v'') \<noteq> None"
    by simp
  have t: "lookupName var_externs (ASTIdent ''v'') \<noteq> [] \<longrightarrow>
      getTypesFromExprs var_externs (lookupName var_externs (ASTIdent ''v'')) = None"
    by (simp add: ext)
  have ov: "callName_overloads var_externs [] (lookupName var_externs (ASTIdent ''v'')) True
      (CallNode 7 Call None None [] [] None) empty_state =
      (ReturnedNull, CallNode 7 Call None None [] [] None, empty_state)"
    by (simp add: ext v_lvalue_def)
  show ?thesis
    unfolding callName_body_overloads [OF c q t ov] by simp
qed

subsection \<open>Rejected overloads and the report that no method matches\<close>

text \<open>
  Claim C5. When the parameters of an overload do not accept the AST arguments,
  \<open>addOverload\<close> leaves the call and the diagnostics as they were and returns true
  (for a method, once its analysis has succeeded). If a run of \<open>callName\<close> sends the
  report that no method matches, then it returns the error value, and the call it built,
  with all overloads tried, has no candidates.
\<close>

theorem rejected_overload_is_silent:
  "(analyzeValueDefn X (FunctionDefn m) Task_PrepConversion \<and>
    assignFromAST X (functionType m) as = None \<longrightarrow>
      addOverload_method X call b m as st = (True, call, st)) \<and>
   (assignFromAST X ft as = None \<longrightarrow>
      addOverload_fnType X call fn ft as st = (True, call, st)) \<and>
   (\<not> list_ex isNoMatchingMethod (diags st) \<and>
    callName X callable as expected isOptional newAddr st = (r, st') \<and>
    list_ex isNoMatchingMethod (diags st') \<longrightarrow>
      r = Inr (Some ErrorVal) \<and>
      (\<exists>c. callName_built X callable as expected isOptional newAddr st = Some c \<and>
           candidates c = []))"
proof (intro conjI impI)
  assume "analyzeValueDefn X (FunctionDefn m) Task_PrepConversion \<and>
    assignFromAST X (functionType m) as = None"
  then show "addOverload_method X call b m as st = (True, call, st)"
    by (simp add: addOverload_method_def)
next
  assume "assignFromAST X ft as = None"
  then show "addOverload_fnType X call fn ft as st = (True, call, st)"
    by (simp add: addOverload_fnType_def)
next
  assume a: "\<not> list_ex isNoMatchingMethod (diags st) \<and>
    callName X callable as expected isOptional newAddr st = (r, st') \<and>
    list_ex isNoMatchingMethod (diags st')"
  obtain built where body:
    "callName_body X callable as expected isOptional newAddr st = (r, built, st')"
    using a by (cases "callName_body X callable as expected isOptional newAddr st")
      (auto simp: callName_def)
  from a callName_body_NoMatchingMethod [OF body]
  have res: "(\<exists>c. built = Some c \<and> candidates c = []) \<and> r = Inr (Some ErrorVal)"
    by simp
  then show "r = Inr (Some ErrorVal)"
    by simp
  from res body
  show "\<exists>c. callName_built X callable as expected isOptional newAddr st = Some c \<and>
      candidates c = []"
    by (simp add: callName_built_def)
qed

theorem rejected_overload_is_silent_witness:
  "analyzeValueDefn adl_externs (FunctionDefn g_int) Task_PrepConversion \<and>
   assignFromAST adl_externs (functionType g_int) [] = None \<and>
   addOverload_method adl_externs (CallNode 7 Call None None [] [] None) None g_int []
     empty_state = (True, CallNode 7 Call None None [] [] None, empty_state) \<and>
   addOverload_fnType adl_externs (CallNode 7 Call None None [] [] None) g_lvalue
     (functionType g_int) [] empty_state =
     (True, CallNode 7 Call None None [] [] None, empty_state) \<and>
   callName adl_externs (ASTIdent ''g'') [] None False 7 empty_state =
     (Inr (Some ErrorVal),
      diag_error [NoMatchingMethod (ASTIdent ''g'') [] None, CandidateInfo g_lvalue]
        empty_state) \<and>
   (\<exists>c. callName_built adl_externs (ASTIdent ''g'') [] None False 7 empty_state = Some c \<and>
        candidates c = [])"
proof -
  let ?st' = "diag_error [NoMatchingMethod (ASTIdent ''g'') [] None, CandidateInfo g_lvalue]
    empty_state"
  have an: "analyzeValueDefn adl_externs (FunctionDefn g_int) Task_PrepConversion"
    by (simp add: adl_externs_simps)
  have asg: "assignFromAST adl_externs (functionType g_int) [] = None"
    by (simp add: adl_externs_simps g_int_def)
  have run: "callName adl_externs (ASTIdent ''g'') [] None False 7 empty_state =
      (Inr (Some ErrorVal), ?st')"
    by (simp add: callName_def g_no_arg_run)
  have before: "\<not> list_ex isNoMatchingMethod (diags empty_state)"
    by (simp add: empty_state_def)
  have after: "list_ex isNoMatchingMethod (diags ?st')"
    by simp
  note inst = rejected_overload_is_silent
    [where X = adl_externs and m = g_int and as = "[]"
       and call = "CallNode 7 Call None None [] [] None" and b = None and st = empty_state
       and ft = "functionType g_int" and fn = g_lvalue and callable = "ASTIdent ''g''"
       and expected = None and isOptional = False and newAddr = 7
       and r = "Inr (Some ErrorVal)" and st' = ?st']
  from inst an asg
  have m1: "addOverload_method adl_externs (CallNode 7 Call None None [] [] None) None g_int []
      empty_state = (True, CallNode 7 Call None None [] [] None, empty_state)"
    by blast
  from inst asg
  have m2: "addOverload_fnType adl_externs (CallNode 7 Call None None [] [] None) g_lvalue
      (functionType g_int) [] empty_state =
      (True, CallNode 7 Call None None [] [] None, empty_state)"
    by blast
  from inst before run after
  have m3: "\<exists>c. callName_built adl_externs (ASTIdent ''g'') [] None False 7 empty_state = Some c \<and>
      candidates c = []"
    by blast
  from an asg m1 m2 run m3 show ?thesis
    by blast
qed

subsection \<open>What a call by name returns\<close>

text \<open>
  An optional call for a qualified name that is not found gives a null result and no
  diagnostic (\<open>if (isOptional) return NULL\<close>). When \<open>callName\<close> returns otherwise and
  every variable that the name resolves to passes its analysis, the result is the error
  value or a call expression whose type is set.
\<close>

lemma callName_optional_null:
  assumes "isCallableNode callable" and "isOptional" and "lookupName X callable = []"
    and "unqualifiedName callable = None"
  shows "callName X callable as expected isOptional newAddr st = (Inr None, st)"
  using assms by (simp add: callName_def callName_body_undefined)

lemma callName_expression_otherwise:
  assumes "callName X callable as expected isOptional newAddr st = (Inr r, st')"
    and "\<not> isOptional \<or> lookupName X callable \<noteq> [] \<or> unqualifiedName callable \<noteq> None"
    and "list_all (variableAnalyzed X) (lookupName X callable)"
  shows "\<exists>e. r = Some e \<and> (e = ErrorVal \<or> (\<exists>c t. e = CallExpr c \<and> call_type c = Some t))"
proof -
  from assms(1) obtain built where body:
    "callName_body X callable as expected isOptional newAddr st = (Inr r, built, st')"
    by (cases "callName_body X callable as expected isOptional newAddr st")
      (auto simp: callName_def)
  from body assms(2,3) show ?thesis
    by (rule callName_body_result)
qed

text \<open>
  Claim C6. The error value has the type \<open>BadType\<close>, and a failure of the analysis of a
  function that the name resolves to makes \<open>callName\<close> return the error value. A
  failure of the analysis of a variable that the name resolves to does not: when the loop
  over the definitions found reaches a variable whose analysis fails, \<open>callName\<close>
  returns a null pointer (\<open>return false\<close>), for every argument list and whether or not
  the call is optional, and sends no diagnostic.
\<close>

theorem callName_null_on_failed_variable:
  "(isCallableNode callable \<and>
    lookupName X callable = rs @ LValueExpr t b (VariableDefn var) # rest \<and>
    getTypesFromExprs X (lookupName X callable) = None \<and>
    callName_overloads X as rs True (CallNode newAddr Call None None [] [] expected) st =
      (Completed success, call1, st1) \<and>
    \<not> analyzeValueDefn X (VariableDefn var) Task_PrepTypeComparison \<longrightarrow>
      callName X callable as expected isOptional newAddr st = (Inr None, st)) \<and>
   (isCallableNode callable \<and>
    lookupName X callable = [LValueExpr t b (FunctionDefn func)] \<and>
    getTypesFromExprs X (lookupName X callable) = None \<and>
    \<not> analyzeValueDefn X (FunctionDefn func) Task_PrepConversion \<longrightarrow>
      callName X callable as expected isOptional newAddr st = (Inr (Some ErrorVal), st)) \<and>
   expr_type ErrorVal = Some BadType"
proof (intro conjI impI)
  assume a: "isCallableNode callable \<and>
    lookupName X callable = rs @ LValueExpr t b (VariableDefn var) # rest \<and>
    getTypesFromExprs X (lookupName X callable) = None \<and>
    callName_overloads X as rs True (CallNode newAddr Call None None [] [] expected) st =
      (Completed success, call1, st1) \<and>
    \<not> analyzeValueDefn X (VariableDefn var) Task_PrepTypeComparison"
  then have c: "isCallableNode callable"
    by blast
  from a have "lookupName X callable \<noteq> []"
    by auto
  with a have q: "lookupName X callable \<noteq> [] \<or> unqualifiedName callable \<noteq> None"
    and ty: "lookupName X callable \<noteq> [] \<longrightarrow> getTypesFromExprs X (lookupName X callable) = None"
    by blast+
  from a have pre: "callName_overloads X as rs True
      (CallNode newAddr Call None None [] [] expected) st = (Completed success, call1, st1)"
    and found: "lookupName X callable = rs @ LValueExpr t b (VariableDefn var) # rest"
    and failed: "\<not> analyzeValueDefn X (VariableDefn var) Task_PrepTypeComparison"
    by blast+
  from pre have st1: "st1 = st"
    by (rule callName_overloads_state)
  have "callName_overloads X as (lookupName X callable) True
      (CallNode newAddr Call None None [] [] expected) st =
      callName_overloads X as (LValueExpr t b (VariableDefn var) # rest) success call1 st1"
    unfolding found using pre by (rule callName_overloads_append)
  with failed st1 have ov: "callName_overloads X as (lookupName X callable) True
      (CallNode newAddr Call None None [] [] expected) st = (ReturnedNull, call1, st)"
    by simp
  show "callName X callable as expected isOptional newAddr st = (Inr None, st)"
    unfolding callName_def callName_body_overloads [OF c q ty ov] by simp
next
  assume a: "isCallableNode callable \<and>
    lookupName X callable = [LValueExpr t b (FunctionDefn func)] \<and>
    getTypesFromExprs X (lookupName X callable) = None \<and>
    \<not> analyzeValueDefn X (FunctionDefn func) Task_PrepConversion"
  then have c: "isCallableNode callable"
    by blast
  from a have "lookupName X callable \<noteq> []"
    by auto
  with a have q: "lookupName X callable \<noteq> [] \<or> unqualifiedName callable \<noteq> None"
    and ty: "lookupName X callable \<noteq> [] \<longrightarrow> getTypesFromExprs X (lookupName X callable) = None"
    by blast+
  let ?call = "CallNode newAddr Call None None [] [] expected"
  from a have ov: "callName_overloads X as (lookupName X callable) True ?call st =
      (Completed False, ?call, st)"
    by (simp add: addOverload_method_def)
  obtain ok call2 where red: "reduceArgList X as ?call = (ok, call2)"
    by (cases "reduceArgList X as ?call") auto
  obtain call3 st3 where adl:
    "(case unqualifiedName callable of
        Some name \<Rightarrow> if as \<noteq> [] then lookupByArgType X call2 name as st else (call2, st)
      | None \<Rightarrow> (call2, st)) = (call3, st3)"
    by (cases "case unqualifiedName callable of
        Some name \<Rightarrow> if as \<noteq> [] then lookupByArgType X call2 name as st else (call2, st)
      | None \<Rightarrow> (call2, st)") auto
  then have st3: "st3 = st"
    by (auto split: option.splits if_splits dest: lookupByArgType_state)
  show "callName X callable as expected isOptional newAddr st = (Inr (Some ErrorVal), st)"
    unfolding callName_def callName_body_overloads [OF c q ty ov]
    using red adl st3 by (cases ok) (simp_all add: callName_finish_def)
next
  show "expr_type ErrorVal = Some BadType"
    by (simp add: ErrorVal_def)
qed

theorem callName_null_on_failed_variable_witness:
  "lookupName var_externs (ASTIdent ''v'') = [v_lvalue] \<and>
   \<not> analyzeValueDefn var_externs
       (VariableDefn \<lparr>var_name = ''v'', defnType = Var,
                       var_type = FunctionTy (functionType g_int)\<rparr>) Task_PrepTypeComparison \<and>
   callName var_externs (ASTIdent ''v'') [] None False 7 empty_state = (Inr None, empty_state) \<and>
   lookupName unanalyzed_externs (ASTIdent ''g'') = [g_lvalue] \<and>
   \<not> analyzeValueDefn unanalyzed_externs (FunctionDefn g_int) Task_PrepConversion \<and>
   callName unanalyzed_externs (ASTIdent ''g'') [] None False 7 empty_state =
     (Inr (Some ErrorVal), empty_state) \<and>
   expr_type ErrorVal = Some BadType"
proof -
  let ?v = "\<lparr>var_name = ''v'', defnType = Var, var_type = FunctionTy (functionType g_int)\<rparr>"
  have ext: "lookupName var_externs n = [v_lvalue]" "getTypesFromExprs var_externs es = None"
    "analyzeValueDefn var_externs d k = False" for n es d k
    by (simp_all add: var_externs_def example_externs_def)
  have ext': "lookupName unanalyzed_externs n = [g_lvalue]"
    "getTypesFromExprs unanalyzed_externs es = None"
    "analyzeValueDefn unanalyzed_externs d k = False" for n es d k
    by (simp_all add: unanalyzed_externs_def adl_externs_def example_externs_def)
  have pre1: "isCallableNode (ASTIdent ''v'') \<and>
      lookupName var_externs (ASTIdent ''v'') =
        [] @ LValueExpr (FunctionTy (functionType g_int)) None (VariableDefn ?v) # [] \<and>
      getTypesFromExprs var_externs (lookupName var_externs (ASTIdent ''v'')) = None \<and>
      callName_overloads var_externs [] [] True (CallNode 7 Call None None [] [] None)
        empty_state = (Completed True, CallNode 7 Call None None [] [] None, empty_state) \<and>
      \<not> analyzeValueDefn var_externs (VariableDefn ?v) Task_PrepTypeComparison"
    by (simp add: ext v_lvalue_def)
  have pre2: "isCallableNode (ASTIdent ''g'') \<and>
      lookupName unanalyzed_externs (ASTIdent ''g'') =
        [LValueExpr (FunctionTy (functionType g_int)) None (FunctionDefn g_int)] \<and>
      getTypesFromExprs unanalyzed_externs (lookupName unanalyzed_externs (ASTIdent ''g'')) =
        None \<and>
      \<not> analyzeValueDefn unanalyzed_externs (FunctionDefn g_int) Task_PrepConversion"
    by (simp add: ext' g_lvalue_def)
  note null = callName_null_on_failed_variable
    [where X = var_externs and callable = "ASTIdent ''v''"
       and rs = "[]" and t = "FunctionTy (functionType g_int)" and b = None and var = ?v
       and rest = "[]" and as = "[]" and expected = None and isOptional = False and newAddr = 7
       and st = empty_state and success = True
       and ?call1.0 = "CallNode 7 Call None None [] [] None" and ?st1.0 = empty_state,
     THEN conjunct1]
  note err = callName_null_on_failed_variable
    [where X = unanalyzed_externs and callable = "ASTIdent ''g''"
       and t = "FunctionTy (functionType g_int)" and b = None and func = g_int
       and as = "[]" and expected = None and isOptional = False and newAddr = 7
       and st = empty_state, THEN conjunct2]
  have r1: "callName var_externs (ASTIdent ''v'') [] None False 7 empty_state =
      (Inr None, empty_state)"
    by (rule mp [OF null pre1])
  from err pre2
  have r2: "callName unanalyzed_externs (ASTIdent ''g'') [] None False 7 empty_state =
      (Inr (Some ErrorVal), empty_state)"
    and r3: "expr_type ErrorVal = Some BadType"
    by blast+
  from pre1 have p1: "\<not> analyzeValueDefn var_externs (VariableDefn ?v) Task_PrepTypeComparison"
    by blast
  from pre2 have p2: "\<not> analyzeValueDefn unanalyzed_externs (FunctionDefn g_int) Task_PrepConversion"
    by blast
  from ext(1) [of "ASTIdent ''v''"] p1 r1 ext'(1) [of "ASTIdent ''g''"] p2 r2 r3
  show ?thesis
    by blast
qed


end
